(* ===== verification/Prelude.thy ===== *)
theory Prelude
  imports Main "HOL-Library.Monad_Syntax" "HOL-Library.Word"
begin

text \<open>
  Shared ground of the development: Unicode text as the Rust standard library sees it
  (scalar values, their UTF-8 and UTF-16 widths, byte slicing that fails off a character
  boundary), the weakest-precondition calculus for code that may panic, and the
  collections of rules that the component theories extend.

  Conventions. A Rust \<open>usize\<close> is a \<open>nat\<close>: every one of them in the modelled code is an
  offset, a length or an index bounded by the size of a text in memory. A value of
  type \<open>'a option\<close> returned by an operation is a run: \<open>None\<close> is a panic (an index out of
  range, a failed assertion, an \<open>unreachable!\<close>) or a loop that never ends, \<open>Some\<close> is a
  normal return.
\<close>

named_theorems wp_rules \<open>weakest-precondition rules of operations, used as introduction rules\<close>
named_theorems wp_defs \<open>small operations that proofs about their callers unfold\<close>

section \<open>Unicode text\<close>

text \<open>A Rust \<open>char\<close> is a Unicode scalar value; \<open>ch\<close> embeds the ASCII characters.\<close>

type_synonym rchar = nat

type_synonym rstring = "nat list"

abbreviation ch :: "char \<Rightarrow> rchar" where
  "ch \<equiv> of_char"

definition str :: "string \<Rightarrow> rstring" where
  "str s = map of_char s"

abbreviation newline :: rchar where
  "newline \<equiv> 10"

abbreviation carriage_return :: rchar where
  "carriage_return \<equiv> 13"

abbreviation tab :: rchar where
  "tab \<equiv> 9"

abbreviation backslash :: rchar where
  "backslash \<equiv> 92"

abbreviation single_quote :: rchar where
  "single_quote \<equiv> 39"

abbreviation double_quote :: rchar where
  "double_quote \<equiv> 34"

abbreviation backtick :: rchar where
  "backtick \<equiv> 96"

definition is_ascii :: "rchar \<Rightarrow> bool" where
  "is_ascii c \<longleftrightarrow> c < 128"

definition is_ascii_digit :: "rchar \<Rightarrow> bool" where
  "is_ascii_digit c \<longleftrightarrow> 48 \<le> c \<and> c \<le> 57"

definition is_ascii_alpha :: "rchar \<Rightarrow> bool" where
  "is_ascii_alpha c \<longleftrightarrow> (65 \<le> c \<and> c \<le> 90) \<or> (97 \<le> c \<and> c \<le> 122)"

definition len_utf8 :: "rchar \<Rightarrow> nat" where
  "len_utf8 c = (if c < 128 then 1 else if c < 2048 then 2 else if c < 65536 then 3 else 4)"

definition len_utf16 :: "rchar \<Rightarrow> nat" where
  "len_utf16 c = (if c < 65536 then 1 else 2)"

text \<open>\<open>blen\<close> is \<open>str::len\<close>, the length in bytes; \<open>ulen\<close> is \<open>encode_utf16().count()\<close>.\<close>

definition blen :: "rstring \<Rightarrow> nat" where
  "blen cs = sum_list (map len_utf8 cs)"

definition ulen :: "rstring \<Rightarrow> nat" where
  "ulen cs = sum_list (map len_utf16 cs)"

lemma len_utf8_pos [simp]: "0 < len_utf8 c"
  by (simp add: len_utf8_def)

lemma len_utf8_neq_0 [simp]: "len_utf8 c \<noteq> 0"
  by (simp add: len_utf8_def)

lemma len_utf16_pos [simp]: "0 < len_utf16 c"
  by (simp add: len_utf16_def)

lemma len_utf8_ascii [simp]: "is_ascii c \<Longrightarrow> len_utf8 c = 1"
  by (simp add: len_utf8_def is_ascii_def)

lemma len_utf16_ascii [simp]: "is_ascii c \<Longrightarrow> len_utf16 c = 1"
  by (simp add: len_utf16_def is_ascii_def)

lemma blen_simps [simp]:
  "blen [] = 0"
  "blen (c # cs) = len_utf8 c + blen cs"
  "blen (xs @ ys) = blen xs + blen ys"
  by (simp_all add: blen_def)

lemma ulen_simps [simp]:
  "ulen [] = 0"
  "ulen (c # cs) = len_utf16 c + ulen cs"
  "ulen (xs @ ys) = ulen xs + ulen ys"
  by (simp_all add: ulen_def)

lemma blen_eq_0 [simp]: "blen cs = 0 \<longleftrightarrow> cs = []"
  by (cases cs) simp_all

lemma length_le_blen: "length cs \<le> blen cs"
proof (induction cs)
  case (Cons c cs)
  then show ?case using len_utf8_pos [of c] by (simp del: len_utf8_pos)
qed simp

lemma blen_ascii: "list_all is_ascii cs \<Longrightarrow> blen cs = length cs"
  by (induction cs) simp_all

lemma ulen_ascii: "list_all is_ascii cs \<Longrightarrow> ulen cs = length cs"
  by (induction cs) simp_all

section \<open>Byte slicing\<close>

text \<open>
  \<open>&s[n..]\<close> and \<open>&s[..n]\<close>: a panic (\<open>None\<close>) when \<open>n\<close> is past the end or not on a
  character boundary.
\<close>

fun drop_bytes :: "nat \<Rightarrow> rstring \<Rightarrow> rstring option" where
  "drop_bytes n cs = (if n = 0 then Some cs else case cs of
      [] \<Rightarrow> None
    | c # cs' \<Rightarrow> if len_utf8 c \<le> n then drop_bytes (n - len_utf8 c) cs' else None)"

fun take_bytes :: "nat \<Rightarrow> rstring \<Rightarrow> rstring option" where
  "take_bytes n cs = (if n = 0 then Some [] else case cs of
      [] \<Rightarrow> None
    | c # cs' \<Rightarrow> if len_utf8 c \<le> n
        then map_option ((#) c) (take_bytes (n - len_utf8 c) cs') else None)"

declare drop_bytes.simps [simp del] take_bytes.simps [simp del]

text \<open>\<open>&s[a..b]\<close>.\<close>

definition slice :: "rstring \<Rightarrow> nat \<Rightarrow> nat \<Rightarrow> rstring option" where
  "slice cs a b = (if a \<le> b then do { ds \<leftarrow> drop_bytes a cs; take_bytes (b - a) ds } else None)"

lemma drop_bytes_append [simp]: "drop_bytes (blen xs) (xs @ ys) = Some ys"
  by (induction xs) (simp_all add: drop_bytes.simps)

lemma take_bytes_append [simp]: "take_bytes (blen xs) (xs @ ys) = Some xs"
  by (induction xs) (simp_all add: take_bytes.simps)

lemma slice_append:
  "a = blen xs \<Longrightarrow> b = a + blen ys \<Longrightarrow> slice (xs @ ys @ zs) a b = Some ys"
  by (simp add: slice_def)

lemma drop_bytes_SomeD: "drop_bytes n cs = Some ds \<Longrightarrow> \<exists>xs. cs = xs @ ds \<and> blen xs = n"
proof (induction n cs arbitrary: ds rule: drop_bytes.induct)
  case (1 n cs)
  show ?case
  proof (cases "n = 0")
    case True
    with "1.prems" show ?thesis by (simp add: drop_bytes.simps)
  next
    case False
    with "1.prems" obtain c cs' where cs: "cs = c # cs'" and le: "len_utf8 c \<le> n"
      and ds: "drop_bytes (n - len_utf8 c) cs' = Some ds"
      by (auto simp: drop_bytes.simps [of n cs] split: list.splits if_splits)
    with "1.IH" [OF False cs le ds] obtain xs where "cs' = xs @ ds" "blen xs = n - len_utf8 c"
      by blast
    with cs le have "cs = (c # xs) @ ds \<and> blen (c # xs) = n" by simp
    then show ?thesis by blast
  qed
qed

section \<open>Runs that may panic\<close>

text \<open>
  \<open>wp m Q\<close>: the run \<open>m\<close> returns and its result satisfies \<open>Q\<close>. Proofs about the parser
  push \<open>wp\<close> through the option monad with the equations below and use the rules of the
  called operations, collected in \<open>wp_rules\<close>.
\<close>

definition wp :: "'a option \<Rightarrow> ('a \<Rightarrow> bool) \<Rightarrow> bool" where
  "wp m Q \<longleftrightarrow> (case m of None \<Rightarrow> False | Some x \<Rightarrow> Q x)"

lemma wp_Some [simp]: "wp (Some x) Q = Q x"
  by (simp add: wp_def)

lemma wp_None [simp]: "wp None Q = False"
  by (simp add: wp_def)

lemma wp_bind [simp]: "wp (m \<bind> f) Q = wp m (\<lambda>x. wp (f x) Q)"
  by (cases m) simp_all

lemma wp_if [simp]: "wp (if b then m else n) Q = (if b then wp m Q else wp n Q)"
  by simp

lemma wp_prod [simp]: "wp (case x of (a, b) \<Rightarrow> f a b) Q = (case x of (a, b) \<Rightarrow> wp (f a b) Q)"
  by (cases x) simp

lemma wp_let [simp]: "wp (let x = v in f x) Q = (let x = v in wp (f x) Q)"
  by simp

lemma wp_conseq: "wp m P \<Longrightarrow> (\<And>x. P x \<Longrightarrow> Q x) \<Longrightarrow> wp m Q"
  by (cases m) simp_all

lemma wp_iff: "wp m Q \<longleftrightarrow> (\<exists>x. m = Some x \<and> Q x)"
  by (cases m) simp_all

section \<open>Lists\<close>

text \<open>The first character of a text, or the reader's end mark (code point 0) when there is none.\<close>

definition hd0 :: "rstring \<Rightarrow> rchar" where
  "hd0 cs = (case cs of [] \<Rightarrow> 0 | c # _ \<Rightarrow> c)"

lemma hd0_simps [simp]: "hd0 [] = 0" "hd0 (c # cs) = c"
  by (simp_all add: hd0_def)

lemma hd0_nonzero: "hd0 cs \<noteq> 0 \<Longrightarrow> \<exists>cs'. cs = hd0 cs # cs'"
  by (cases cs) simp_all

lemma takeWhile_append_drop [simp]: "takeWhile P xs @ dropWhile P xs = xs"
  by simp

end
