(* ===== verification/Text_Range.thy ===== *)
theory Text_Range
  imports Prelude
begin

text \<open>
  \<open>crates/glua_parser/src/text/text_range.rs\<close>: byte ranges of the source text, and the
  narrowing conversion to the 32-bit ranges of the syntax-tree library.
\<close>

section \<open>Source ranges\<close>

record SourceRange =
  start_offset :: nat
  rlength :: nat

definition new_range :: "nat \<Rightarrow> nat \<Rightarrow> SourceRange" where
  "new_range start len = \<lparr>start_offset = start, rlength = len\<rparr>"

definition from_start_end :: "nat \<Rightarrow> nat \<Rightarrow> SourceRange option" where
  "from_start_end start end' =
     (if start \<le> end' then Some (new_range start (end' - start)) else None)"

definition EMPTY :: SourceRange where
  "EMPTY = \<lparr>start_offset = 0, rlength = 0\<rparr>"

definition end_offset :: "SourceRange \<Rightarrow> nat" where
  "end_offset r = start_offset r + rlength r"

definition contains :: "SourceRange \<Rightarrow> nat \<Rightarrow> bool" where
  "contains r offset \<longleftrightarrow> start_offset r \<le> offset \<and> offset < end_offset r"

definition contains_inclusive :: "SourceRange \<Rightarrow> nat \<Rightarrow> bool" where
  "contains_inclusive r offset \<longleftrightarrow> start_offset r \<le> offset \<and> offset \<le> end_offset r"

definition contain_range :: "SourceRange \<Rightarrow> SourceRange \<Rightarrow> bool" where
  "contain_range r s \<longleftrightarrow> start_offset r \<le> start_offset s \<and> end_offset s \<le> end_offset r"

definition intersect :: "SourceRange \<Rightarrow> SourceRange \<Rightarrow> bool" where
  "intersect r s \<longleftrightarrow> start_offset r < end_offset s \<and> start_offset s < end_offset r"

text \<open>\<open>moved\<close> carries a \<open>debug_assert!\<close>: \<open>None\<close> is its failure.\<close>

definition moved :: "SourceRange \<Rightarrow> nat \<Rightarrow> SourceRange option" where
  "moved r offset =
     (if offset \<le> rlength r
      then Some (new_range (start_offset r + offset) (rlength r - offset)) else None)"

definition merge :: "SourceRange \<Rightarrow> SourceRange \<Rightarrow> SourceRange" where
  "merge r s =
     (let start = min (start_offset r) (start_offset s);
          end' = max (end_offset r) (end_offset s)
      in \<lparr>start_offset = start, rlength = end' - start\<rparr>)"

definition is_empty :: "SourceRange \<Rightarrow> bool" where
  "is_empty r \<longleftrightarrow> rlength r = 0"

lemmas range_defs = new_range_def EMPTY_def end_offset_def contains_def
  contains_inclusive_def contain_range_def intersect_def moved_def merge_def is_empty_def

lemma new_range_sel [simp]:
  "start_offset (new_range s l) = s" "rlength (new_range s l) = l"
  "end_offset (new_range s l) = s + l"
  by (simp_all add: range_defs)

section \<open>Ranges of the tree library\<close>

text \<open>
  \<open>TextRange\<close> holds two \<open>u32\<close> offsets; the conversion casts with \<open>as u32\<close>, so it wraps.
\<close>

record TextRange =
  tr_start :: "32 word"
  tr_end :: "32 word"

definition into_text_range :: "SourceRange \<Rightarrow> TextRange" where
  "into_text_range r = \<lparr>tr_start = of_nat (start_offset r), tr_end = of_nat (end_offset r)\<rparr>"

definition from_text_range :: "TextRange \<Rightarrow> SourceRange" where
  "from_text_range t = new_range (unat (tr_start t)) (unat (tr_end t - tr_start t))"

text \<open>What a range stands for: its set of byte offsets.\<close>

definition offsets :: "SourceRange \<Rightarrow> nat set" where
  "offsets r = {start_offset r ..< end_offset r}"

lemma contains_offsets: "contains r x \<longleftrightarrow> x \<in> offsets r"
  by (simp add: range_defs offsets_def)

lemma moved_Some: "offset \<le> rlength r \<Longrightarrow> \<exists>r'. moved r offset = Some r' \<and> end_offset r' = end_offset r"
  by (simp add: range_defs)

lemma from_start_end_Some:
  "from_start_end a b = Some r \<longleftrightarrow> a \<le> b \<and> start_offset r = a \<and> end_offset r = b"
  by (cases r) (auto simp: from_start_end_def range_defs)

lemma into_text_range_roundtrip:
  assumes "end_offset r < 2 ^ 32"
  shows "from_text_range (into_text_range r) = r"
proof -
  have "unat (of_nat (start_offset r) :: 32 word) = start_offset r"
    and "unat (of_nat (end_offset r) - of_nat (start_offset r) :: 32 word) = rlength r"
    using assms
    by (simp_all add: end_offset_def unat_of_nat take_bit_nat_eq_self)
  then show ?thesis
    by (cases r) (simp add: from_text_range_def into_text_range_def new_range_def)
qed

text \<open>
  C13. \<open>SourceRange::merge\<close> is the least range that contains both arguments: it contains
  each, and every range that contains both contains it.
\<close>

theorem merge_least_upper:
  "contain_range (merge r s) r \<and> contain_range (merge r s) s \<and>
   (\<forall>t. contain_range t (merge r s) = (contain_range t r \<and> contain_range t s))"
  by (auto simp: range_defs Let_def)

end
