(* ===== verification/Reader.thy ===== *)
theory Reader
  imports Text_Range
begin

text \<open>
  \<open>crates/glua_parser/src/text/reader.rs\<close>: the character reader both lexers run on. It keeps
  the current and the next character, an iterator over the rest, and the byte span of the
  token being read. The character \<open>EOF\<close> is code point 0, so a text that contains that
  code point looks finished there.
\<close>

section \<open>State and operations\<close>

definition EOF :: rchar where
  "EOF = 0"

record Reader =
  rtext :: rstring
  valid_range :: SourceRange
  chars :: rstring
  current_buffer_byte_pos :: nat
  current_buffer_byte_len :: nat
  next_ch :: rchar
  current_ch :: rchar
  prev_ch :: rchar

text \<open>\<open>chars.next().unwrap_or(EOF)\<close> returns \<open>hd0\<close> of the iterator and leaves its tail.\<close>

definition new_with_range :: "rstring \<Rightarrow> SourceRange \<Rightarrow> Reader option" where
  "new_with_range text rng =
     (if blen text = rlength rng then
        Some \<lparr>rtext = text, valid_range = rng, chars = tl (tl text),
              current_buffer_byte_pos = 0, current_buffer_byte_len = 0,
              next_ch = hd0 (tl text), current_ch = hd0 text, prev_ch = EOF\<rparr>
      else None)"

definition reader_new :: "rstring \<Rightarrow> Reader" where
  "reader_new text = the (new_with_range text (new_range 0 (blen text)))"

definition bump :: "Reader \<Rightarrow> Reader" where
  "bump r =
     (if current_ch r \<noteq> EOF then
        r\<lparr>current_buffer_byte_len := current_buffer_byte_len r + len_utf8 (current_ch r),
          prev_ch := current_ch r,
          current_ch := next_ch r,
          next_ch := hd0 (chars r),
          chars := tl (chars r)\<rparr>
      else r)"

definition reset_buff :: "Reader \<Rightarrow> Reader" where
  "reset_buff r =
     r\<lparr>current_buffer_byte_pos := current_buffer_byte_pos r + current_buffer_byte_len r,
       current_buffer_byte_len := 0\<rparr>"

definition is_eof :: "Reader \<Rightarrow> bool" where
  "is_eof r \<longleftrightarrow> current_ch r = EOF"

definition is_start_of_line :: "Reader \<Rightarrow> bool" where
  "is_start_of_line r \<longleftrightarrow> current_buffer_byte_pos r = 0"

definition current_range :: "Reader \<Rightarrow> SourceRange" where
  "current_range r =
     new_range (start_offset (valid_range r) + current_buffer_byte_pos r)
       (current_buffer_byte_len r)"

definition get_current_end_pos :: "Reader \<Rightarrow> nat" where
  "get_current_end_pos r = current_buffer_byte_pos r + current_buffer_byte_len r"

definition tail_range :: "Reader \<Rightarrow> SourceRange option" where
  "tail_range r =
     moved (valid_range r) (current_buffer_byte_pos r + current_buffer_byte_len r)"

definition current_text :: "Reader \<Rightarrow> rstring option" where
  "current_text r =
     slice (rtext r) (current_buffer_byte_pos r)
       (current_buffer_byte_pos r + current_buffer_byte_len r)"

definition tail_text :: "Reader \<Rightarrow> rstring option" where
  "tail_text r = drop_bytes (current_buffer_byte_pos r + current_buffer_byte_len r) (rtext r)"

definition reset_buff_into_sub_reader :: "Reader \<Rightarrow> (Reader \<times> Reader) option" where
  "reset_buff_into_sub_reader r = do {
     text \<leftarrow> current_text r;
     sub \<leftarrow> new_with_range text (current_range r);
     before \<leftarrow> slice (rtext r) 0 (current_buffer_byte_pos r);
     let sub = (if before = [] then sub else sub\<lparr>prev_ch := last before\<rparr>);
     Some (sub, reset_buff r)
   }"

text \<open>
  The loops of the reader all advance by \<open>bump\<close>. \<open>fuel_of\<close> counts the characters still
  visible before the end mark and is what each of them decreases.
\<close>

definition fuel_of :: "Reader \<Rightarrow> nat" where
  "fuel_of r =
     (if current_ch r = EOF then 0
      else Suc (if next_ch r = EOF then 0 else Suc (length (chars r))))"

lemma fuel_of_bump: "current_ch r \<noteq> EOF \<Longrightarrow> fuel_of (bump r) < fuel_of r"
  by (cases "chars r") (auto simp: fuel_of_def bump_def EOF_def)

function eat_while :: "(rchar \<Rightarrow> bool) \<Rightarrow> Reader \<Rightarrow> nat \<times> Reader" where
  "eat_while func r =
     (if \<not> is_eof r \<and> func (current_ch r)
      then (let (count, r') = eat_while func (bump r) in (count + 1, r'))
      else (0, r))"
  by pat_completeness auto
termination
  by (relation "measure (\<lambda>(_, r). fuel_of r)") (auto simp: is_eof_def fuel_of_bump)

declare eat_while.simps [simp del]

definition eat_when :: "rchar \<Rightarrow> Reader \<Rightarrow> nat \<times> Reader" where
  "eat_when c r = eat_while (\<lambda>x. x = c) r"

function consume_n_times :: "(rchar \<Rightarrow> bool) \<Rightarrow> nat \<Rightarrow> Reader \<Rightarrow> nat \<times> Reader" where
  "consume_n_times func count r =
     (if \<not> is_eof r \<and> func (current_ch r) \<and> 0 < count
      then (let (eaten, r') = consume_n_times func (count - 1) (bump r) in (eaten + 1, r'))
      else (0, r))"
  by pat_completeness auto
termination
  by (relation "measure (\<lambda>(_, n, r). fuel_of r)") (auto simp: is_eof_def fuel_of_bump)

declare consume_n_times.simps [simp del]

definition consume_char_n_times :: "rchar \<Rightarrow> nat \<Rightarrow> Reader \<Rightarrow> nat \<times> Reader" where
  "consume_char_n_times c count r = consume_n_times (\<lambda>x. x = c) count r"

definition eat_till_end :: "Reader \<Rightarrow> nat \<times> Reader" where
  "eat_till_end r = eat_while (\<lambda>_. True) r"

section \<open>What the reader stands for\<close>

text \<open>
  \<open>reader_at r before rest\<close>: the reader has consumed \<open>before\<close> of its text and \<open>rest\<close> is
  ahead of it. This relation is the interface the lexers use.
\<close>

definition reader_at :: "Reader \<Rightarrow> rstring \<Rightarrow> rstring \<Rightarrow> bool" where
  "reader_at r before rest \<longleftrightarrow>
     rtext r = before @ rest \<and>
     current_buffer_byte_pos r + current_buffer_byte_len r = blen before \<and>
     current_ch r = hd0 rest \<and> next_ch r = hd0 (tl rest) \<and> chars r = tl (tl rest)"

text \<open>The last part of \<open>before\<close> is the token being read.\<close>

definition reading :: "Reader \<Rightarrow> rstring \<Rightarrow> rstring \<Rightarrow> rstring \<Rightarrow> bool" where
  "reading r before tok rest \<longleftrightarrow>
     reader_at r (before @ tok) rest \<and> current_buffer_byte_pos r = blen before"

lemma reader_at_new: "reader_at (reader_new t) [] t"
  by (simp add: reader_at_def reader_new_def new_with_range_def)

lemma reading_new: "reading (reader_new t) [] [] t"
  using reader_at_new [of t] by (simp add: reading_def reader_new_def new_with_range_def)

lemma reader_at_bump:
  "reader_at r before (c # rest) \<Longrightarrow> c \<noteq> EOF \<Longrightarrow> reader_at (bump r) (before @ [c]) rest"
  by (auto simp: reader_at_def bump_def)

lemma bump_eof: "is_eof r \<Longrightarrow> bump r = r"
  by (simp add: bump_def is_eof_def)

lemma reading_bump:
  assumes "reading r before tok rest" and "\<not> is_eof r"
  shows "\<exists>c rest'. rest = c # rest' \<and> c = current_ch r \<and> reading (bump r) before (tok @ [c]) rest'"
proof -
  from assms have "hd0 rest \<noteq> 0" by (simp add: reading_def reader_at_def is_eof_def EOF_def)
  then obtain rest' where rest: "rest = current_ch r # rest'"
    using assms(1) hd0_nonzero [of rest] by (auto simp: reading_def reader_at_def)
  with assms reader_at_bump [of r "before @ tok" "current_ch r" rest']
  show ?thesis
    by (auto simp: reading_def is_eof_def bump_def)
qed

lemma reading_reset:
  "reading r before tok rest \<Longrightarrow> reading (reset_buff r) (before @ tok) [] rest"
  by (auto simp: reading_def reader_at_def reset_buff_def)

lemma reading_current: "reading r before tok rest \<Longrightarrow> current_ch r = hd0 rest"
  by (simp add: reading_def reader_at_def)

lemma reading_next: "reading r before tok rest \<Longrightarrow> next_ch r = hd0 (tl rest)"
  by (simp add: reading_def reader_at_def)

lemma reading_is_eof: "reading r before tok rest \<Longrightarrow> is_eof r \<longleftrightarrow> hd0 rest = 0"
  by (simp add: reading_def reader_at_def is_eof_def EOF_def)

lemma bump_valid_range [simp]: "valid_range (bump r) = valid_range r"
  by (simp add: bump_def)

lemma reset_buff_sel [simp]:
  "valid_range (reset_buff r) = valid_range r"
  "current_ch (reset_buff r) = current_ch r"
  "next_ch (reset_buff r) = next_ch r"
  "is_eof (reset_buff r) = is_eof r"
  "fuel_of (reset_buff r) = fuel_of r"
  by (simp_all add: reset_buff_def is_eof_def fuel_of_def)

lemma reading_current_text: "reading r before tok rest \<Longrightarrow> current_text r = Some tok"
  by (auto simp: reading_def reader_at_def current_text_def intro!: slice_append)

lemma reading_tail_text: "reading r before tok rest \<Longrightarrow> tail_text r = Some rest"
  using drop_bytes_append [of "before @ tok" rest]
  by (auto simp: reading_def reader_at_def tail_text_def)

lemma reading_current_range:
  "reading r before tok rest \<Longrightarrow>
   current_range r = new_range (start_offset (valid_range r) + blen before) (blen tok)"
  by (simp add: reading_def reader_at_def current_range_def)

section \<open>The reader as a cursor\<close>

text \<open>
  What a client of the reader relies on: a cursor shows the first character ahead, and
  advancing moves that character behind it. A loop that advances while a condition holds
  on the current character then consumes exactly the longest matching prefix.
\<close>

locale cursor =
  fixes at :: "'s \<Rightarrow> rstring \<Rightarrow> rstring \<Rightarrow> bool"
    and cur :: "'s \<Rightarrow> rchar"
    and adv :: "'s \<Rightarrow> 's"
  assumes cur_at: "at s before rest \<Longrightarrow> cur s = hd0 rest"
    and adv_at: "at s before (c # rest) \<Longrightarrow> c \<noteq> 0 \<Longrightarrow> at (adv s) (before @ [c]) rest"
begin

lemma loop_consumes:
  assumes loop: "\<And>s. L s = (if cur s \<noteq> 0 \<and> f (cur s) then map_prod Suc id (L (adv s)) else (0, s))"
  shows "at s before rest \<Longrightarrow>
    (let pre = takeWhile (\<lambda>c. c \<noteq> 0 \<and> f c) rest in
       fst (L s) = length pre \<and> at (snd (L s)) (before @ pre) (drop (length pre) rest))"
proof (induction rest arbitrary: s before)
  case Nil
  then show ?case by (simp add: loop [of s] cur_at)
next
  case (Cons c rest)
  show ?case
  proof (cases "c \<noteq> 0 \<and> f c")
    case True
    with Cons.prems have "at (adv s) (before @ [c]) rest" by (simp add: adv_at)
    from Cons.IH [OF this] True Cons.prems show ?thesis
      by (simp add: loop [of s] cur_at Let_def)
  next
    case False
    with Cons.prems show ?thesis by (auto simp: loop [of s] cur_at)
  qed
qed

end

interpretation rd: cursor reader_at current_ch bump
  by unfold_locales (simp_all add: reader_at_bump EOF_def, simp add: reader_at_def)

lemma eat_while_loop:
  "eat_while f r =
     (if current_ch r \<noteq> 0 \<and> f (current_ch r)
      then map_prod Suc id (eat_while f (bump r)) else (0, r))"
  by (subst eat_while.simps) (simp add: is_eof_def EOF_def split: prod.split)

lemma eat_while_pos [simp]: "current_buffer_byte_pos (snd (eat_while f r)) = current_buffer_byte_pos r"
  by (induction f r rule: eat_while.induct)
     (subst eat_while_loop, auto simp: is_eof_def EOF_def bump_def map_prod_def split: prod.splits)

lemma eat_while_valid_range [simp]: "valid_range (snd (eat_while f r)) = valid_range r"
  by (induction f r rule: eat_while.induct)
     (subst eat_while_loop, auto simp: is_eof_def EOF_def map_prod_def split: prod.splits)

lemma eat_while_reading:
  assumes "reading r before tok rest"
  shows "\<exists>pre. rest = pre @ drop (length pre) rest \<and> pre = takeWhile (\<lambda>c. c \<noteq> 0 \<and> f c) rest \<and>
    fst (eat_while f r) = length pre \<and>
    reading (snd (eat_while f r)) before (tok @ pre) (drop (length pre) rest)"
proof -
  let ?pre = "takeWhile (\<lambda>c. c \<noteq> 0 \<and> f c) rest"
  from assms have "reader_at r (before @ tok) rest" by (simp add: reading_def)
  from rd.loop_consumes [of "eat_while f" f, OF eat_while_loop this]
  have "fst (eat_while f r) = length ?pre"
    and "reader_at (snd (eat_while f r)) ((before @ tok) @ ?pre) (drop (length ?pre) rest)"
    by (simp_all add: Let_def)
  with assms show ?thesis
    by (intro exI [of _ ?pre]) (simp add: reading_def dropWhile_eq_drop [symmetric])
qed

text \<open>
  C9. \<open>eat_while\<close> consumes exactly the longest run of characters that satisfy the
  predicate and are not NUL, the end mark of the reader: it returns the length of that run, appends it to
  the token being read and leaves the rest of the text ahead.
\<close>

theorem eat_while_consumes_longest_prefix:
  assumes "reading r before tok rest"
  shows "eat_while f r =
      (length (takeWhile (\<lambda>c. c \<noteq> 0 \<and> f c) rest), snd (eat_while f r)) \<and>
    reading (snd (eat_while f r)) before (tok @ takeWhile (\<lambda>c. c \<noteq> 0 \<and> f c) rest)
      (dropWhile (\<lambda>c. c \<noteq> 0 \<and> f c) rest)"
  using eat_while_reading [OF assms, of f]
  by (auto simp: dropWhile_eq_drop prod_eq_iff)

theorem eat_while_consumes_longest_prefix_witness:
  "reading (reader_new (str ''  x'')) [] [] (str ''  x'') \<and>
   fst (eat_while (\<lambda>c. c = 32) (reader_new (str ''  x''))) = 2"
  using eat_while_consumes_longest_prefix [OF reading_new [of "str ''  x''"], of "\<lambda>c. c = 32"]
  by (simp add: reading_new str_def prod_eq_iff)

end
