(* ===== verification/Kinds.thy ===== *)
theory Kinds
  imports Prelude
begin

text \<open>
  \<open>crates/glua_parser/src/kind/lua_token_kind.rs\<close> and \<open>lua_syntax_kind.rs\<close>: the token and node
  kinds. Both enums are field-less and declared \<open>repr(u16)\<close>, so a kind is its discriminant,
  the position of the variant in the declaration, which \<open>LuaKind::get_raw\<close> writes into the
  tree and \<open>from_raw\<close> transmutes back. The model keeps that representation: one constructor
  around the discriminant, and one abbreviation per variant, in the order of the source.
  The variant \<open>None\<close> of each enum is named \<open>TkNone\<close> and \<open>SkNone\<close> here.
\<close>

section \<open>Token kinds\<close>

datatype LuaTokenKind = TokenKind (token_discr: nat)

abbreviation TkNone :: LuaTokenKind where
  "TkNone \<equiv> TokenKind 0"

abbreviation TkAnd :: LuaTokenKind where
  "TkAnd \<equiv> TokenKind 1"

abbreviation TkBreak :: LuaTokenKind where
  "TkBreak \<equiv> TokenKind 2"

abbreviation TkDo :: LuaTokenKind where
  "TkDo \<equiv> TokenKind 3"

abbreviation TkElse :: LuaTokenKind where
  "TkElse \<equiv> TokenKind 4"

abbreviation TkElseIf :: LuaTokenKind where
  "TkElseIf \<equiv> TokenKind 5"

abbreviation TkEnd :: LuaTokenKind where
  "TkEnd \<equiv> TokenKind 6"

abbreviation TkFalse :: LuaTokenKind where
  "TkFalse \<equiv> TokenKind 7"

abbreviation TkFor :: LuaTokenKind where
  "TkFor \<equiv> TokenKind 8"

abbreviation TkFunction :: LuaTokenKind where
  "TkFunction \<equiv> TokenKind 9"

abbreviation TkGoto :: LuaTokenKind where
  "TkGoto \<equiv> TokenKind 10"

abbreviation TkIf :: LuaTokenKind where
  "TkIf \<equiv> TokenKind 11"

abbreviation TkIn :: LuaTokenKind where
  "TkIn \<equiv> TokenKind 12"

abbreviation TkLocal :: LuaTokenKind where
  "TkLocal \<equiv> TokenKind 13"

abbreviation TkNil :: LuaTokenKind where
  "TkNil \<equiv> TokenKind 14"

abbreviation TkNot :: LuaTokenKind where
  "TkNot \<equiv> TokenKind 15"

abbreviation TkOr :: LuaTokenKind where
  "TkOr \<equiv> TokenKind 16"

abbreviation TkRepeat :: LuaTokenKind where
  "TkRepeat \<equiv> TokenKind 17"

abbreviation TkReturn :: LuaTokenKind where
  "TkReturn \<equiv> TokenKind 18"

abbreviation TkThen :: LuaTokenKind where
  "TkThen \<equiv> TokenKind 19"

abbreviation TkTrue :: LuaTokenKind where
  "TkTrue \<equiv> TokenKind 20"

abbreviation TkUntil :: LuaTokenKind where
  "TkUntil \<equiv> TokenKind 21"

abbreviation TkWhile :: LuaTokenKind where
  "TkWhile \<equiv> TokenKind 22"

abbreviation TkGlobal :: LuaTokenKind where
  "TkGlobal \<equiv> TokenKind 23"

abbreviation TkWhitespace :: LuaTokenKind where
  "TkWhitespace \<equiv> TokenKind 24"

abbreviation TkEndOfLine :: LuaTokenKind where
  "TkEndOfLine \<equiv> TokenKind 25"

abbreviation TkPlus :: LuaTokenKind where
  "TkPlus \<equiv> TokenKind 26"

abbreviation TkMinus :: LuaTokenKind where
  "TkMinus \<equiv> TokenKind 27"

abbreviation TkMul :: LuaTokenKind where
  "TkMul \<equiv> TokenKind 28"

abbreviation TkDiv :: LuaTokenKind where
  "TkDiv \<equiv> TokenKind 29"

abbreviation TkIDiv :: LuaTokenKind where
  "TkIDiv \<equiv> TokenKind 30"

abbreviation TkDot :: LuaTokenKind where
  "TkDot \<equiv> TokenKind 31"

abbreviation TkConcat :: LuaTokenKind where
  "TkConcat \<equiv> TokenKind 32"

abbreviation TkDots :: LuaTokenKind where
  "TkDots \<equiv> TokenKind 33"

abbreviation TkComma :: LuaTokenKind where
  "TkComma \<equiv> TokenKind 34"

abbreviation TkAssign :: LuaTokenKind where
  "TkAssign \<equiv> TokenKind 35"

abbreviation TkEq :: LuaTokenKind where
  "TkEq \<equiv> TokenKind 36"

abbreviation TkGe :: LuaTokenKind where
  "TkGe \<equiv> TokenKind 37"

abbreviation TkLe :: LuaTokenKind where
  "TkLe \<equiv> TokenKind 38"

abbreviation TkNe :: LuaTokenKind where
  "TkNe \<equiv> TokenKind 39"

abbreviation TkShl :: LuaTokenKind where
  "TkShl \<equiv> TokenKind 40"

abbreviation TkShr :: LuaTokenKind where
  "TkShr \<equiv> TokenKind 41"

abbreviation TkLt :: LuaTokenKind where
  "TkLt \<equiv> TokenKind 42"

abbreviation TkGt :: LuaTokenKind where
  "TkGt \<equiv> TokenKind 43"

abbreviation TkMod :: LuaTokenKind where
  "TkMod \<equiv> TokenKind 44"

abbreviation TkPow :: LuaTokenKind where
  "TkPow \<equiv> TokenKind 45"

abbreviation TkLen :: LuaTokenKind where
  "TkLen \<equiv> TokenKind 46"

abbreviation TkBitAnd :: LuaTokenKind where
  "TkBitAnd \<equiv> TokenKind 47"

abbreviation TkBitOr :: LuaTokenKind where
  "TkBitOr \<equiv> TokenKind 48"

abbreviation TkBitXor :: LuaTokenKind where
  "TkBitXor \<equiv> TokenKind 49"

abbreviation TkColon :: LuaTokenKind where
  "TkColon \<equiv> TokenKind 50"

abbreviation TkDbColon :: LuaTokenKind where
  "TkDbColon \<equiv> TokenKind 51"

abbreviation TkSemicolon :: LuaTokenKind where
  "TkSemicolon \<equiv> TokenKind 52"

abbreviation TkPlusAssign :: LuaTokenKind where
  "TkPlusAssign \<equiv> TokenKind 53"

abbreviation TkMinusAssign :: LuaTokenKind where
  "TkMinusAssign \<equiv> TokenKind 54"

abbreviation TkStarAssign :: LuaTokenKind where
  "TkStarAssign \<equiv> TokenKind 55"

abbreviation TkSlashAssign :: LuaTokenKind where
  "TkSlashAssign \<equiv> TokenKind 56"

abbreviation TkPercentAssign :: LuaTokenKind where
  "TkPercentAssign \<equiv> TokenKind 57"

abbreviation TkCaretAssign :: LuaTokenKind where
  "TkCaretAssign \<equiv> TokenKind 58"

abbreviation TkDoubleSlashAssign :: LuaTokenKind where
  "TkDoubleSlashAssign \<equiv> TokenKind 59"

abbreviation TkPipeAssign :: LuaTokenKind where
  "TkPipeAssign \<equiv> TokenKind 60"

abbreviation TkAmpAssign :: LuaTokenKind where
  "TkAmpAssign \<equiv> TokenKind 61"

abbreviation TkShiftLeftAssign :: LuaTokenKind where
  "TkShiftLeftAssign \<equiv> TokenKind 62"

abbreviation TkShiftRightAssign :: LuaTokenKind where
  "TkShiftRightAssign \<equiv> TokenKind 63"

abbreviation TkLeftBracket :: LuaTokenKind where
  "TkLeftBracket \<equiv> TokenKind 64"

abbreviation TkRightBracket :: LuaTokenKind where
  "TkRightBracket \<equiv> TokenKind 65"

abbreviation TkLeftParen :: LuaTokenKind where
  "TkLeftParen \<equiv> TokenKind 66"

abbreviation TkRightParen :: LuaTokenKind where
  "TkRightParen \<equiv> TokenKind 67"

abbreviation TkLeftBrace :: LuaTokenKind where
  "TkLeftBrace \<equiv> TokenKind 68"

abbreviation TkRightBrace :: LuaTokenKind where
  "TkRightBrace \<equiv> TokenKind 69"

abbreviation TkComplex :: LuaTokenKind where
  "TkComplex \<equiv> TokenKind 70"

abbreviation TkInt :: LuaTokenKind where
  "TkInt \<equiv> TokenKind 71"

abbreviation TkFloat :: LuaTokenKind where
  "TkFloat \<equiv> TokenKind 72"

abbreviation TkName :: LuaTokenKind where
  "TkName \<equiv> TokenKind 73"

abbreviation TkString :: LuaTokenKind where
  "TkString \<equiv> TokenKind 74"

abbreviation TkLongString :: LuaTokenKind where
  "TkLongString \<equiv> TokenKind 75"

abbreviation TkShortComment :: LuaTokenKind where
  "TkShortComment \<equiv> TokenKind 76"

abbreviation TkLongComment :: LuaTokenKind where
  "TkLongComment \<equiv> TokenKind 77"

abbreviation TkShebang :: LuaTokenKind where
  "TkShebang \<equiv> TokenKind 78"

abbreviation TkEof :: LuaTokenKind where
  "TkEof \<equiv> TokenKind 79"

abbreviation TkUnknown :: LuaTokenKind where
  "TkUnknown \<equiv> TokenKind 80"

abbreviation TkNormalStart :: LuaTokenKind where
  "TkNormalStart \<equiv> TokenKind 81"

abbreviation TkLongCommentStart :: LuaTokenKind where
  "TkLongCommentStart \<equiv> TokenKind 82"

abbreviation TkDocLongStart :: LuaTokenKind where
  "TkDocLongStart \<equiv> TokenKind 83"

abbreviation TkDocStart :: LuaTokenKind where
  "TkDocStart \<equiv> TokenKind 84"

abbreviation TKDocTriviaStart :: LuaTokenKind where
  "TKDocTriviaStart \<equiv> TokenKind 85"

abbreviation TkDocTrivia :: LuaTokenKind where
  "TkDocTrivia \<equiv> TokenKind 86"

abbreviation TkLongCommentEnd :: LuaTokenKind where
  "TkLongCommentEnd \<equiv> TokenKind 87"

abbreviation TKNonStdComment :: LuaTokenKind where
  "TKNonStdComment \<equiv> TokenKind 88"

abbreviation TkTagClass :: LuaTokenKind where
  "TkTagClass \<equiv> TokenKind 89"

abbreviation TkTagEnum :: LuaTokenKind where
  "TkTagEnum \<equiv> TokenKind 90"

abbreviation TkTagInterface :: LuaTokenKind where
  "TkTagInterface \<equiv> TokenKind 91"

abbreviation TkTagAlias :: LuaTokenKind where
  "TkTagAlias \<equiv> TokenKind 92"

abbreviation TkTagModule :: LuaTokenKind where
  "TkTagModule \<equiv> TokenKind 93"

abbreviation TkTagField :: LuaTokenKind where
  "TkTagField \<equiv> TokenKind 94"

abbreviation TkTagType :: LuaTokenKind where
  "TkTagType \<equiv> TokenKind 95"

abbreviation TkTagParam :: LuaTokenKind where
  "TkTagParam \<equiv> TokenKind 96"

abbreviation TkTagReturn :: LuaTokenKind where
  "TkTagReturn \<equiv> TokenKind 97"

abbreviation TkTagOverload :: LuaTokenKind where
  "TkTagOverload \<equiv> TokenKind 98"

abbreviation TkTagGeneric :: LuaTokenKind where
  "TkTagGeneric \<equiv> TokenKind 99"

abbreviation TkTagSee :: LuaTokenKind where
  "TkTagSee \<equiv> TokenKind 100"

abbreviation TkTagDeprecated :: LuaTokenKind where
  "TkTagDeprecated \<equiv> TokenKind 101"

abbreviation TkTagAsync :: LuaTokenKind where
  "TkTagAsync \<equiv> TokenKind 102"

abbreviation TkTagCast :: LuaTokenKind where
  "TkTagCast \<equiv> TokenKind 103"

abbreviation TkTagOther :: LuaTokenKind where
  "TkTagOther \<equiv> TokenKind 104"

abbreviation TkTagVisibility :: LuaTokenKind where
  "TkTagVisibility \<equiv> TokenKind 105"

abbreviation TkTagReadonly :: LuaTokenKind where
  "TkTagReadonly \<equiv> TokenKind 106"

abbreviation TkTagDiagnostic :: LuaTokenKind where
  "TkTagDiagnostic \<equiv> TokenKind 107"

abbreviation TkTagMeta :: LuaTokenKind where
  "TkTagMeta \<equiv> TokenKind 108"

abbreviation TkTagVersion :: LuaTokenKind where
  "TkTagVersion \<equiv> TokenKind 109"

abbreviation TkTagAs :: LuaTokenKind where
  "TkTagAs \<equiv> TokenKind 110"

abbreviation TkTagNodiscard :: LuaTokenKind where
  "TkTagNodiscard \<equiv> TokenKind 111"

abbreviation TkTagOperator :: LuaTokenKind where
  "TkTagOperator \<equiv> TokenKind 112"

abbreviation TkTagMapping :: LuaTokenKind where
  "TkTagMapping \<equiv> TokenKind 113"

abbreviation TkTagNamespace :: LuaTokenKind where
  "TkTagNamespace \<equiv> TokenKind 114"

abbreviation TkTagUsing :: LuaTokenKind where
  "TkTagUsing \<equiv> TokenKind 115"

abbreviation TkTagSource :: LuaTokenKind where
  "TkTagSource \<equiv> TokenKind 116"

abbreviation TkTagReturnCast :: LuaTokenKind where
  "TkTagReturnCast \<equiv> TokenKind 117"

abbreviation TkTagExport :: LuaTokenKind where
  "TkTagExport \<equiv> TokenKind 118"

abbreviation TkLanguage :: LuaTokenKind where
  "TkLanguage \<equiv> TokenKind 119"

abbreviation TKTagSchema :: LuaTokenKind where
  "TKTagSchema \<equiv> TokenKind 120"

abbreviation TkTagAttribute :: LuaTokenKind where
  "TkTagAttribute \<equiv> TokenKind 121"

abbreviation TkTagRealm :: LuaTokenKind where
  "TkTagRealm \<equiv> TokenKind 122"

abbreviation TkTagFileparam :: LuaTokenKind where
  "TkTagFileparam \<equiv> TokenKind 123"

abbreviation TkTagOutparam :: LuaTokenKind where
  "TkTagOutparam \<equiv> TokenKind 124"

abbreviation TkCallGeneric :: LuaTokenKind where
  "TkCallGeneric \<equiv> TokenKind 125"

abbreviation TkDocOr :: LuaTokenKind where
  "TkDocOr \<equiv> TokenKind 126"

abbreviation TkDocAnd :: LuaTokenKind where
  "TkDocAnd \<equiv> TokenKind 127"

abbreviation TkDocKeyOf :: LuaTokenKind where
  "TkDocKeyOf \<equiv> TokenKind 128"

abbreviation TkDocExtends :: LuaTokenKind where
  "TkDocExtends \<equiv> TokenKind 129"

abbreviation TkDocNew :: LuaTokenKind where
  "TkDocNew \<equiv> TokenKind 130"

abbreviation TkDocAs :: LuaTokenKind where
  "TkDocAs \<equiv> TokenKind 131"

abbreviation TkDocIn :: LuaTokenKind where
  "TkDocIn \<equiv> TokenKind 132"

abbreviation TkDocInfer :: LuaTokenKind where
  "TkDocInfer \<equiv> TokenKind 133"

abbreviation TkDocElse :: LuaTokenKind where
  "TkDocElse \<equiv> TokenKind 134"

abbreviation TkDocContinue :: LuaTokenKind where
  "TkDocContinue \<equiv> TokenKind 135"

abbreviation TkDocContinueOr :: LuaTokenKind where
  "TkDocContinueOr \<equiv> TokenKind 136"

abbreviation TkDocDetail :: LuaTokenKind where
  "TkDocDetail \<equiv> TokenKind 137"

abbreviation TkDocQuestion :: LuaTokenKind where
  "TkDocQuestion \<equiv> TokenKind 138"

abbreviation TkDocVisibility :: LuaTokenKind where
  "TkDocVisibility \<equiv> TokenKind 139"

abbreviation TkDocReadonly :: LuaTokenKind where
  "TkDocReadonly \<equiv> TokenKind 140"

abbreviation TkAt :: LuaTokenKind where
  "TkAt \<equiv> TokenKind 141"

abbreviation TkDocVersionNumber :: LuaTokenKind where
  "TkDocVersionNumber \<equiv> TokenKind 142"

abbreviation TkStringTemplateType :: LuaTokenKind where
  "TkStringTemplateType \<equiv> TokenKind 143"

abbreviation TkDocMatch :: LuaTokenKind where
  "TkDocMatch \<equiv> TokenKind 144"

abbreviation TKDocPath :: LuaTokenKind where
  "TKDocPath \<equiv> TokenKind 145"

abbreviation TkDocRegion :: LuaTokenKind where
  "TkDocRegion \<equiv> TokenKind 146"

abbreviation TkDocEndRegion :: LuaTokenKind where
  "TkDocEndRegion \<equiv> TokenKind 147"

abbreviation TkDocSeeContent :: LuaTokenKind where
  "TkDocSeeContent \<equiv> TokenKind 148"

abbreviation TkDocAttributeUse :: LuaTokenKind where
  "TkDocAttributeUse \<equiv> TokenKind 149"

text \<open>The derived \<open>Debug\<close> names of the variants, which \<open>Display\<close> prints in error messages.\<close>

definition token_kind_names :: "string list" where
  "token_kind_names =
    [''None'',
     ''TkAnd'',
     ''TkBreak'',
     ''TkDo'',
     ''TkElse'',
     ''TkElseIf'',
     ''TkEnd'',
     ''TkFalse'',
     ''TkFor'',
     ''TkFunction'',
     ''TkGoto'',
     ''TkIf'',
     ''TkIn'',
     ''TkLocal'',
     ''TkNil'',
     ''TkNot'',
     ''TkOr'',
     ''TkRepeat'',
     ''TkReturn'',
     ''TkThen'',
     ''TkTrue'',
     ''TkUntil'',
     ''TkWhile'',
     ''TkGlobal'',
     ''TkWhitespace'',
     ''TkEndOfLine'',
     ''TkPlus'',
     ''TkMinus'',
     ''TkMul'',
     ''TkDiv'',
     ''TkIDiv'',
     ''TkDot'',
     ''TkConcat'',
     ''TkDots'',
     ''TkComma'',
     ''TkAssign'',
     ''TkEq'',
     ''TkGe'',
     ''TkLe'',
     ''TkNe'',
     ''TkShl'',
     ''TkShr'',
     ''TkLt'',
     ''TkGt'',
     ''TkMod'',
     ''TkPow'',
     ''TkLen'',
     ''TkBitAnd'',
     ''TkBitOr'',
     ''TkBitXor'',
     ''TkColon'',
     ''TkDbColon'',
     ''TkSemicolon'',
     ''TkPlusAssign'',
     ''TkMinusAssign'',
     ''TkStarAssign'',
     ''TkSlashAssign'',
     ''TkPercentAssign'',
     ''TkCaretAssign'',
     ''TkDoubleSlashAssign'',
     ''TkPipeAssign'',
     ''TkAmpAssign'',
     ''TkShiftLeftAssign'',
     ''TkShiftRightAssign'',
     ''TkLeftBracket'',
     ''TkRightBracket'',
     ''TkLeftParen'',
     ''TkRightParen'',
     ''TkLeftBrace'',
     ''TkRightBrace'',
     ''TkComplex'',
     ''TkInt'',
     ''TkFloat'',
     ''TkName'',
     ''TkString'',
     ''TkLongString'',
     ''TkShortComment'',
     ''TkLongComment'',
     ''TkShebang'',
     ''TkEof'',
     ''TkUnknown'',
     ''TkNormalStart'',
     ''TkLongCommentStart'',
     ''TkDocLongStart'',
     ''TkDocStart'',
     ''TKDocTriviaStart'',
     ''TkDocTrivia'',
     ''TkLongCommentEnd'',
     ''TKNonStdComment'',
     ''TkTagClass'',
     ''TkTagEnum'',
     ''TkTagInterface'',
     ''TkTagAlias'',
     ''TkTagModule'',
     ''TkTagField'',
     ''TkTagType'',
     ''TkTagParam'',
     ''TkTagReturn'',
     ''TkTagOverload'',
     ''TkTagGeneric'',
     ''TkTagSee'',
     ''TkTagDeprecated'',
     ''TkTagAsync'',
     ''TkTagCast'',
     ''TkTagOther'',
     ''TkTagVisibility'',
     ''TkTagReadonly'',
     ''TkTagDiagnostic'',
     ''TkTagMeta'',
     ''TkTagVersion'',
     ''TkTagAs'',
     ''TkTagNodiscard'',
     ''TkTagOperator'',
     ''TkTagMapping'',
     ''TkTagNamespace'',
     ''TkTagUsing'',
     ''TkTagSource'',
     ''TkTagReturnCast'',
     ''TkTagExport'',
     ''TkLanguage'',
     ''TKTagSchema'',
     ''TkTagAttribute'',
     ''TkTagRealm'',
     ''TkTagFileparam'',
     ''TkTagOutparam'',
     ''TkCallGeneric'',
     ''TkDocOr'',
     ''TkDocAnd'',
     ''TkDocKeyOf'',
     ''TkDocExtends'',
     ''TkDocNew'',
     ''TkDocAs'',
     ''TkDocIn'',
     ''TkDocInfer'',
     ''TkDocElse'',
     ''TkDocContinue'',
     ''TkDocContinueOr'',
     ''TkDocDetail'',
     ''TkDocQuestion'',
     ''TkDocVisibility'',
     ''TkDocReadonly'',
     ''TkAt'',
     ''TkDocVersionNumber'',
     ''TkStringTemplateType'',
     ''TkDocMatch'',
     ''TKDocPath'',
     ''TkDocRegion'',
     ''TkDocEndRegion'',
     ''TkDocSeeContent'',
     ''TkDocAttributeUse'']"

definition valid_token_kind :: "LuaTokenKind \<Rightarrow> bool" where
  "valid_token_kind k \<longleftrightarrow> token_discr k < 150"

definition token_kind_display :: "LuaTokenKind \<Rightarrow> string" where
  "token_kind_display k = token_kind_names ! token_discr k"

section \<open>Syntax kinds\<close>

datatype LuaSyntaxKind = SyntaxKind (syntax_discr: nat)

abbreviation SkNone :: LuaSyntaxKind where
  "SkNone \<equiv> SyntaxKind 0"

abbreviation Chunk :: LuaSyntaxKind where
  "Chunk \<equiv> SyntaxKind 1"

abbreviation Block :: LuaSyntaxKind where
  "Block \<equiv> SyntaxKind 2"

abbreviation EmptyStat :: LuaSyntaxKind where
  "EmptyStat \<equiv> SyntaxKind 3"

abbreviation LocalStat :: LuaSyntaxKind where
  "LocalStat \<equiv> SyntaxKind 4"

abbreviation LocalFuncStat :: LuaSyntaxKind where
  "LocalFuncStat \<equiv> SyntaxKind 5"

abbreviation IfStat :: LuaSyntaxKind where
  "IfStat \<equiv> SyntaxKind 6"

abbreviation ElseIfClauseStat :: LuaSyntaxKind where
  "ElseIfClauseStat \<equiv> SyntaxKind 7"

abbreviation ElseClauseStat :: LuaSyntaxKind where
  "ElseClauseStat \<equiv> SyntaxKind 8"

abbreviation WhileStat :: LuaSyntaxKind where
  "WhileStat \<equiv> SyntaxKind 9"

abbreviation DoStat :: LuaSyntaxKind where
  "DoStat \<equiv> SyntaxKind 10"

abbreviation ForStat :: LuaSyntaxKind where
  "ForStat \<equiv> SyntaxKind 11"

abbreviation ForRangeStat :: LuaSyntaxKind where
  "ForRangeStat \<equiv> SyntaxKind 12"

abbreviation RepeatStat :: LuaSyntaxKind where
  "RepeatStat \<equiv> SyntaxKind 13"

abbreviation FuncStat :: LuaSyntaxKind where
  "FuncStat \<equiv> SyntaxKind 14"

abbreviation LabelStat :: LuaSyntaxKind where
  "LabelStat \<equiv> SyntaxKind 15"

abbreviation BreakStat :: LuaSyntaxKind where
  "BreakStat \<equiv> SyntaxKind 16"

abbreviation ReturnStat :: LuaSyntaxKind where
  "ReturnStat \<equiv> SyntaxKind 17"

abbreviation GotoStat :: LuaSyntaxKind where
  "GotoStat \<equiv> SyntaxKind 18"

abbreviation CallExprStat :: LuaSyntaxKind where
  "CallExprStat \<equiv> SyntaxKind 19"

abbreviation AssignStat :: LuaSyntaxKind where
  "AssignStat \<equiv> SyntaxKind 20"

abbreviation GlobalStat :: LuaSyntaxKind where
  "GlobalStat \<equiv> SyntaxKind 21"

abbreviation UnknownStat :: LuaSyntaxKind where
  "UnknownStat \<equiv> SyntaxKind 22"

abbreviation ParenExpr :: LuaSyntaxKind where
  "ParenExpr \<equiv> SyntaxKind 23"

abbreviation LiteralExpr :: LuaSyntaxKind where
  "LiteralExpr \<equiv> SyntaxKind 24"

abbreviation ClosureExpr :: LuaSyntaxKind where
  "ClosureExpr \<equiv> SyntaxKind 25"

abbreviation UnaryExpr :: LuaSyntaxKind where
  "UnaryExpr \<equiv> SyntaxKind 26"

abbreviation BinaryExpr :: LuaSyntaxKind where
  "BinaryExpr \<equiv> SyntaxKind 27"

abbreviation TableArrayExpr :: LuaSyntaxKind where
  "TableArrayExpr \<equiv> SyntaxKind 28"

abbreviation TableObjectExpr :: LuaSyntaxKind where
  "TableObjectExpr \<equiv> SyntaxKind 29"

abbreviation TableEmptyExpr :: LuaSyntaxKind where
  "TableEmptyExpr \<equiv> SyntaxKind 30"

abbreviation CallExpr :: LuaSyntaxKind where
  "CallExpr \<equiv> SyntaxKind 31"

abbreviation RequireCallExpr :: LuaSyntaxKind where
  "RequireCallExpr \<equiv> SyntaxKind 32"

abbreviation ErrorCallExpr :: LuaSyntaxKind where
  "ErrorCallExpr \<equiv> SyntaxKind 33"

abbreviation AssertCallExpr :: LuaSyntaxKind where
  "AssertCallExpr \<equiv> SyntaxKind 34"

abbreviation TypeCallExpr :: LuaSyntaxKind where
  "TypeCallExpr \<equiv> SyntaxKind 35"

abbreviation SetmetatableCallExpr :: LuaSyntaxKind where
  "SetmetatableCallExpr \<equiv> SyntaxKind 36"

abbreviation IndexExpr :: LuaSyntaxKind where
  "IndexExpr \<equiv> SyntaxKind 37"

abbreviation NameExpr :: LuaSyntaxKind where
  "NameExpr \<equiv> SyntaxKind 38"

abbreviation LocalName :: LuaSyntaxKind where
  "LocalName \<equiv> SyntaxKind 39"

abbreviation ParamName :: LuaSyntaxKind where
  "ParamName \<equiv> SyntaxKind 40"

abbreviation ParamList :: LuaSyntaxKind where
  "ParamList \<equiv> SyntaxKind 41"

abbreviation CallArgList :: LuaSyntaxKind where
  "CallArgList \<equiv> SyntaxKind 42"

abbreviation TableFieldAssign :: LuaSyntaxKind where
  "TableFieldAssign \<equiv> SyntaxKind 43"

abbreviation TableFieldValue :: LuaSyntaxKind where
  "TableFieldValue \<equiv> SyntaxKind 44"

abbreviation Attribute :: LuaSyntaxKind where
  "Attribute \<equiv> SyntaxKind 45"

abbreviation Comment :: LuaSyntaxKind where
  "Comment \<equiv> SyntaxKind 46"

abbreviation DocTagClass :: LuaSyntaxKind where
  "DocTagClass \<equiv> SyntaxKind 47"

abbreviation DocTagEnum :: LuaSyntaxKind where
  "DocTagEnum \<equiv> SyntaxKind 48"

abbreviation DocTagInterface :: LuaSyntaxKind where
  "DocTagInterface \<equiv> SyntaxKind 49"

abbreviation DocTagAlias :: LuaSyntaxKind where
  "DocTagAlias \<equiv> SyntaxKind 50"

abbreviation DocTagField :: LuaSyntaxKind where
  "DocTagField \<equiv> SyntaxKind 51"

abbreviation DocTagType :: LuaSyntaxKind where
  "DocTagType \<equiv> SyntaxKind 52"

abbreviation DocTagParam :: LuaSyntaxKind where
  "DocTagParam \<equiv> SyntaxKind 53"

abbreviation DocTagReturn :: LuaSyntaxKind where
  "DocTagReturn \<equiv> SyntaxKind 54"

abbreviation DocTagGeneric :: LuaSyntaxKind where
  "DocTagGeneric \<equiv> SyntaxKind 55"

abbreviation DocTagSee :: LuaSyntaxKind where
  "DocTagSee \<equiv> SyntaxKind 56"

abbreviation DocTagDeprecated :: LuaSyntaxKind where
  "DocTagDeprecated \<equiv> SyntaxKind 57"

abbreviation DocTagCast :: LuaSyntaxKind where
  "DocTagCast \<equiv> SyntaxKind 58"

abbreviation DocTagOverload :: LuaSyntaxKind where
  "DocTagOverload \<equiv> SyntaxKind 59"

abbreviation DocTagAsync :: LuaSyntaxKind where
  "DocTagAsync \<equiv> SyntaxKind 60"

abbreviation DocTagVisibility :: LuaSyntaxKind where
  "DocTagVisibility \<equiv> SyntaxKind 61"

abbreviation DocTagMeta :: LuaSyntaxKind where
  "DocTagMeta \<equiv> SyntaxKind 62"

abbreviation DocTagOther :: LuaSyntaxKind where
  "DocTagOther \<equiv> SyntaxKind 63"

abbreviation DocTagDiagnostic :: LuaSyntaxKind where
  "DocTagDiagnostic \<equiv> SyntaxKind 64"

abbreviation DocTagVersion :: LuaSyntaxKind where
  "DocTagVersion \<equiv> SyntaxKind 65"

abbreviation DocTagAs :: LuaSyntaxKind where
  "DocTagAs \<equiv> SyntaxKind 66"

abbreviation DocTagNodiscard :: LuaSyntaxKind where
  "DocTagNodiscard \<equiv> SyntaxKind 67"

abbreviation DocTagOperator :: LuaSyntaxKind where
  "DocTagOperator \<equiv> SyntaxKind 68"

abbreviation DocTagModule :: LuaSyntaxKind where
  "DocTagModule \<equiv> SyntaxKind 69"

abbreviation DocTagMapping :: LuaSyntaxKind where
  "DocTagMapping \<equiv> SyntaxKind 70"

abbreviation DocTagNamespace :: LuaSyntaxKind where
  "DocTagNamespace \<equiv> SyntaxKind 71"

abbreviation DocTagUsing :: LuaSyntaxKind where
  "DocTagUsing \<equiv> SyntaxKind 72"

abbreviation DocTagSource :: LuaSyntaxKind where
  "DocTagSource \<equiv> SyntaxKind 73"

abbreviation DocTagReadonly :: LuaSyntaxKind where
  "DocTagReadonly \<equiv> SyntaxKind 74"

abbreviation DocTagReturnCast :: LuaSyntaxKind where
  "DocTagReturnCast \<equiv> SyntaxKind 75"

abbreviation DocTagExport :: LuaSyntaxKind where
  "DocTagExport \<equiv> SyntaxKind 76"

abbreviation DocTagLanguage :: LuaSyntaxKind where
  "DocTagLanguage \<equiv> SyntaxKind 77"

abbreviation DocTagAttribute :: LuaSyntaxKind where
  "DocTagAttribute \<equiv> SyntaxKind 78"

abbreviation DocTagAttributeUse :: LuaSyntaxKind where
  "DocTagAttributeUse \<equiv> SyntaxKind 79"

abbreviation DocTagRealm :: LuaSyntaxKind where
  "DocTagRealm \<equiv> SyntaxKind 80"

abbreviation DocTagFileparam :: LuaSyntaxKind where
  "DocTagFileparam \<equiv> SyntaxKind 81"

abbreviation DocTagOutparam :: LuaSyntaxKind where
  "DocTagOutparam \<equiv> SyntaxKind 82"

abbreviation DocTagCallGeneric :: LuaSyntaxKind where
  "DocTagCallGeneric \<equiv> SyntaxKind 83"

abbreviation DocTagSchema :: LuaSyntaxKind where
  "DocTagSchema \<equiv> SyntaxKind 84"

abbreviation TypeArray :: LuaSyntaxKind where
  "TypeArray \<equiv> SyntaxKind 85"

abbreviation TypeUnary :: LuaSyntaxKind where
  "TypeUnary \<equiv> SyntaxKind 86"

abbreviation TypeBinary :: LuaSyntaxKind where
  "TypeBinary \<equiv> SyntaxKind 87"

abbreviation TypeConditional :: LuaSyntaxKind where
  "TypeConditional \<equiv> SyntaxKind 88"

abbreviation TypeFun :: LuaSyntaxKind where
  "TypeFun \<equiv> SyntaxKind 89"

abbreviation TypeGeneric :: LuaSyntaxKind where
  "TypeGeneric \<equiv> SyntaxKind 90"

abbreviation TypeTuple :: LuaSyntaxKind where
  "TypeTuple \<equiv> SyntaxKind 91"

abbreviation TypeObject :: LuaSyntaxKind where
  "TypeObject \<equiv> SyntaxKind 92"

abbreviation TypeLiteral :: LuaSyntaxKind where
  "TypeLiteral \<equiv> SyntaxKind 93"

abbreviation TypeName :: LuaSyntaxKind where
  "TypeName \<equiv> SyntaxKind 94"

abbreviation TypeInfer :: LuaSyntaxKind where
  "TypeInfer \<equiv> SyntaxKind 95"

abbreviation TypeVariadic :: LuaSyntaxKind where
  "TypeVariadic \<equiv> SyntaxKind 96"

abbreviation TypeNullable :: LuaSyntaxKind where
  "TypeNullable \<equiv> SyntaxKind 97"

abbreviation TypeStringTemplate :: LuaSyntaxKind where
  "TypeStringTemplate \<equiv> SyntaxKind 98"

abbreviation TypeMultiLineUnion :: LuaSyntaxKind where
  "TypeMultiLineUnion \<equiv> SyntaxKind 99"

abbreviation TypeAttribute :: LuaSyntaxKind where
  "TypeAttribute \<equiv> SyntaxKind 100"

abbreviation TypeMatch :: LuaSyntaxKind where
  "TypeMatch \<equiv> SyntaxKind 101"

abbreviation TypeIndexAccess :: LuaSyntaxKind where
  "TypeIndexAccess \<equiv> SyntaxKind 102"

abbreviation TypeMapped :: LuaSyntaxKind where
  "TypeMapped \<equiv> SyntaxKind 103"

abbreviation DocObjectField :: LuaSyntaxKind where
  "DocObjectField \<equiv> SyntaxKind 104"

abbreviation DocContinueOrField :: LuaSyntaxKind where
  "DocContinueOrField \<equiv> SyntaxKind 105"

abbreviation DocTypedParameter :: LuaSyntaxKind where
  "DocTypedParameter \<equiv> SyntaxKind 106"

abbreviation DocNamedReturnType :: LuaSyntaxKind where
  "DocNamedReturnType \<equiv> SyntaxKind 107"

abbreviation DocGenericParameter :: LuaSyntaxKind where
  "DocGenericParameter \<equiv> SyntaxKind 108"

abbreviation DocGenericDeclareList :: LuaSyntaxKind where
  "DocGenericDeclareList \<equiv> SyntaxKind 109"

abbreviation DocDiagnosticNameList :: LuaSyntaxKind where
  "DocDiagnosticNameList \<equiv> SyntaxKind 110"

abbreviation DocTypeList :: LuaSyntaxKind where
  "DocTypeList \<equiv> SyntaxKind 111"

abbreviation DocTypeFlag :: LuaSyntaxKind where
  "DocTypeFlag \<equiv> SyntaxKind 112"

abbreviation DocAttributeUse :: LuaSyntaxKind where
  "DocAttributeUse \<equiv> SyntaxKind 113"

abbreviation DocAttributeCallArgList :: LuaSyntaxKind where
  "DocAttributeCallArgList \<equiv> SyntaxKind 114"

abbreviation DocOpType :: LuaSyntaxKind where
  "DocOpType \<equiv> SyntaxKind 115"

abbreviation DocEnumFieldList :: LuaSyntaxKind where
  "DocEnumFieldList \<equiv> SyntaxKind 116"

abbreviation DocMappedKey :: LuaSyntaxKind where
  "DocMappedKey \<equiv> SyntaxKind 117"

abbreviation DocEnumField :: LuaSyntaxKind where
  "DocEnumField \<equiv> SyntaxKind 118"

abbreviation DocOneLineField :: LuaSyntaxKind where
  "DocOneLineField \<equiv> SyntaxKind 119"

abbreviation DocDiagnosticCodeList :: LuaSyntaxKind where
  "DocDiagnosticCodeList \<equiv> SyntaxKind 120"

abbreviation DocDefaultValue :: LuaSyntaxKind where
  "DocDefaultValue \<equiv> SyntaxKind 121"

abbreviation DocDescription :: LuaSyntaxKind where
  "DocDescription \<equiv> SyntaxKind 122"

abbreviation DocVersion :: LuaSyntaxKind where
  "DocVersion \<equiv> SyntaxKind 123"

definition valid_syntax_kind :: "LuaSyntaxKind \<Rightarrow> bool" where
  "valid_syntax_kind k \<longleftrightarrow> syntax_discr k < 124"

section \<open>Predicates on token kinds\<close>

definition is_keyword :: "LuaTokenKind \<Rightarrow> bool" where
  "is_keyword k \<longleftrightarrow> k \<in> set
     [TkAnd, TkBreak, TkDo, TkElse, TkElseIf, TkEnd,
      TkFalse, TkFor, TkFunction, TkGoto, TkIf, TkIn,
      TkLocal, TkNil, TkNot, TkOr, TkRepeat, TkReturn,
      TkThen, TkTrue, TkUntil, TkWhile]"

definition is_assign_op :: "LuaTokenKind \<Rightarrow> bool" where
  "is_assign_op k \<longleftrightarrow> k \<in> set
     [TkAssign, TkPlusAssign, TkMinusAssign, TkStarAssign, TkSlashAssign, TkPercentAssign,
      TkCaretAssign, TkDoubleSlashAssign, TkPipeAssign, TkAmpAssign, TkShiftLeftAssign, TkShiftRightAssign]"

definition is_trivia :: "LuaTokenKind \<Rightarrow> bool" where
  "is_trivia k \<longleftrightarrow> k \<in> set
     [TkShortComment, TkLongComment, TkEndOfLine, TkWhitespace, TkShebang, TkDocContinue]"

end
