(* ===== verification/Kind_Tables.thy ===== *)
theory Kind_Tables
  imports Kinds
begin

text \<open>
  The rest of \<open>crates/glua_parser/src/kind\<close>: the raw encoding of kinds, the language levels
  and the non-standard symbol set the lexer is configured with, the operator tables the
  expression parsers are driven by, Lua version numbers and visibility names.
\<close>

unbundle bit_operations_syntax

section \<open>Raw kinds (kind/mod.rs)\<close>

datatype LuaKind = Syntax LuaSyntaxKind | Token LuaTokenKind

fun is_syntax :: "LuaKind \<Rightarrow> bool" where
  "is_syntax (Syntax _) = True"
| "is_syntax (Token _) = False"

fun is_token :: "LuaKind \<Rightarrow> bool" where
  "is_token (Token _) = True"
| "is_token (Syntax _) = False"

fun to_syntax :: "LuaKind \<Rightarrow> LuaSyntaxKind" where
  "to_syntax (Syntax k) = k"
| "to_syntax (Token _) = SkNone"

fun to_token :: "LuaKind \<Rightarrow> LuaTokenKind" where
  "to_token (Token k) = k"
| "to_token (Syntax _) = TkNone"

fun get_raw :: "LuaKind \<Rightarrow> 16 word" where
  "get_raw (Syntax k) = of_nat (syntax_discr k) OR 0x8000"
| "get_raw (Token k) = of_nat (token_discr k)"

text \<open>
  \<open>from_raw\<close> transmutes the discriminant; a value that is no variant of the enum is
  undefined behaviour in Rust, \<open>None\<close> here.
\<close>

definition from_raw :: "16 word \<Rightarrow> LuaKind option" where
  "from_raw raw =
     (if raw AND 0x8000 \<noteq> 0 then
        (let k = SyntaxKind (unat (raw AND 0x7FFF))
         in if valid_syntax_kind k then Some (Syntax k) else None)
      else
        (let k = TokenKind (unat raw)
         in if valid_token_kind k then Some (Token k) else None))"

fun valid_kind :: "LuaKind \<Rightarrow> bool" where
  "valid_kind (Syntax k) = valid_syntax_kind k"
| "valid_kind (Token k) = valid_token_kind k"

lemma small_and_high:
  fixes w :: "16 word"
  assumes "w < 0x8000"
  shows "w AND 0x8000 = 0" and "(w OR 0x8000) AND 0x7FFF = w" and "(w OR 0x8000) AND 0x8000 \<noteq> 0"
proof -
  have w: "take_bit 15 w = w"
    using assms by (simp add: take_bit_eq_mod word_mod_def unat_mod_distrib word_less_def
        flip: word_uint_eq_iff)
  have high: "\<not> bit w 15"
    by (metis w bit_take_bit_iff less_irrefl)
  have "(0x8000 :: 16 word) = push_bit 15 1" by simp
  then have m8: "bit (0x8000 :: 16 word) n \<longleftrightarrow> n = 15" for n
    by (simp only: bit_push_bit_iff bit_1_iff) auto
  have m7: "(0x7FFF :: 16 word) = mask 15"
    by (simp add: mask_eq_exp_minus_1)
  show "w AND 0x8000 = 0"
    using high by (intro bit_word_eqI) (auto simp: bit_and_iff m8 simp del: bit_numeral_word_iff)
  show "(w OR 0x8000) AND 0x7FFF = w"
    unfolding m7 by (subst (2) w [symmetric], intro bit_word_eqI)
      (auto simp: bit_simps m8 simp del: mask_numeral bit_numeral_word_iff)
  have "bit ((w OR 0x8000) AND 0x8000) 15"
    by (simp only: bit_and_iff bit_or_iff m8 HOL.simp_thms)
  then show "(w OR 0x8000) AND 0x8000 \<noteq> 0" by auto
qed

text \<open>
  C10. Encoding a kind as the 16-bit raw value stored in the tree and decoding it again
  gives the kind back, for every variant of both enums; token and node kinds never collide.
\<close>

theorem from_raw_get_raw: "valid_kind k \<Longrightarrow> from_raw (get_raw k) = Some k"
proof (cases k)
  case (Syntax s)
  assume "valid_kind k"
  then have n: "syntax_discr s < 124" by (simp add: Syntax valid_syntax_kind_def)
  then have "(of_nat (syntax_discr s) :: 16 word) < 0x8000"
    by (simp add: word_less_nat_alt unat_of_nat take_bit_nat_eq_self)
  note bits = small_and_high [OF this]
  have "unat (of_nat (syntax_discr s) :: 16 word) = syntax_discr s"
    using n by (simp add: unat_of_nat take_bit_nat_eq_self)
  then show ?thesis
    using n by (simp add: Syntax from_raw_def bits valid_syntax_kind_def Let_def)
next
  case (Token t)
  assume "valid_kind k"
  then have n: "token_discr t < 150" by (simp add: Token valid_token_kind_def)
  then have "(of_nat (token_discr t) :: 16 word) < 0x8000"
    by (simp add: word_less_nat_alt unat_of_nat take_bit_nat_eq_self)
  note bits = small_and_high [OF this]
  have "unat (of_nat (token_discr t) :: 16 word) = token_discr t"
    using n by (simp add: unat_of_nat take_bit_nat_eq_self)
  then show ?thesis
    using n by (simp add: Token from_raw_def bits valid_token_kind_def Let_def)
qed

theorem from_raw_get_raw_witness:
  "valid_kind (Syntax BinaryExpr) \<and> from_raw (get_raw (Syntax BinaryExpr)) = Some (Syntax BinaryExpr)"
proof -
  have "valid_kind (Syntax BinaryExpr)" by (simp add: valid_syntax_kind_def)
  then show ?thesis using from_raw_get_raw by blast
qed

section \<open>Language levels (kind/lua_language_level.rs)\<close>

datatype LuaLanguageLevel = Lua51 | LuaJIT | Lua52 | Lua53 | Lua54 | Lua55

text \<open>The derived \<open>Ord\<close> compares the declaration order.\<close>

primrec level_rank :: "LuaLanguageLevel \<Rightarrow> nat" where
  "level_rank Lua51 = 0"
| "level_rank LuaJIT = 1"
| "level_rank Lua52 = 2"
| "level_rank Lua53 = 3"
| "level_rank Lua54 = 4"
| "level_rank Lua55 = 5"

lemma level_rank_inject [simp]: "level_rank a = level_rank b \<longleftrightarrow> a = b"
  by (cases a; cases b) simp_all

instantiation LuaLanguageLevel :: linorder
begin

definition less_eq_LuaLanguageLevel :: "LuaLanguageLevel \<Rightarrow> LuaLanguageLevel \<Rightarrow> bool" where
  "less_eq_LuaLanguageLevel a b \<longleftrightarrow> level_rank a \<le> level_rank b"

definition less_LuaLanguageLevel :: "LuaLanguageLevel \<Rightarrow> LuaLanguageLevel \<Rightarrow> bool" where
  "less_LuaLanguageLevel a b \<longleftrightarrow> level_rank a < level_rank b"

instance
  by standard (auto simp: less_eq_LuaLanguageLevel_def less_LuaLanguageLevel_def
      simp flip: level_rank_inject)

end

primrec level_display :: "LuaLanguageLevel \<Rightarrow> string" where
  "level_display Lua51 = ''Lua 5.1''"
| "level_display Lua52 = ''Lua 5.2''"
| "level_display Lua53 = ''Lua 5.3''"
| "level_display Lua54 = ''Lua 5.4''"
| "level_display LuaJIT = ''LuaJIT''"
| "level_display Lua55 = ''Lua 5.5''"

section \<open>Non-standard symbols (kind/lua_non_std_symbol.rs)\<close>

datatype LuaNonStdSymbol = DoubleSlash | SlashStar | Backtick | PlusAssign | MinusAssign
  | StarAssign | SlashAssign | PercentAssign | CaretAssign | DoubleSlashAssign | PipeAssign
  | AmpAssign | ShiftLeftAssign | ShiftRightAssign | DoublePipe | DoubleAmp | Exclamation
  | NotEqual | Continue

text \<open>The discriminants: \<open>DoubleSlash = 1\<close>, each next variant one more.\<close>

primrec symbol_discr :: "LuaNonStdSymbol \<Rightarrow> nat" where
  "symbol_discr DoubleSlash = 1"
| "symbol_discr SlashStar = 2"
| "symbol_discr Backtick = 3"
| "symbol_discr PlusAssign = 4"
| "symbol_discr MinusAssign = 5"
| "symbol_discr StarAssign = 6"
| "symbol_discr SlashAssign = 7"
| "symbol_discr PercentAssign = 8"
| "symbol_discr CaretAssign = 9"
| "symbol_discr DoubleSlashAssign = 10"
| "symbol_discr PipeAssign = 11"
| "symbol_discr AmpAssign = 12"
| "symbol_discr ShiftLeftAssign = 13"
| "symbol_discr ShiftRightAssign = 14"
| "symbol_discr DoublePipe = 15"
| "symbol_discr DoubleAmp = 16"
| "symbol_discr Exclamation = 17"
| "symbol_discr NotEqual = 18"
| "symbol_discr Continue = 19"

type_synonym LuaNonStdSymbolSet = "64 word"

definition symbol_set_new :: LuaNonStdSymbolSet where
  "symbol_set_new = 0"

definition symbol_set_add :: "LuaNonStdSymbolSet \<Rightarrow> LuaNonStdSymbol \<Rightarrow> LuaNonStdSymbolSet" where
  "symbol_set_add s symbol = s OR push_bit (symbol_discr symbol) 1"

definition symbol_set_extends ::
  "LuaNonStdSymbolSet \<Rightarrow> LuaNonStdSymbol list \<Rightarrow> LuaNonStdSymbolSet" where
  "symbol_set_extends s other = foldl symbol_set_add s other"

definition support :: "LuaNonStdSymbolSet \<Rightarrow> LuaNonStdSymbol \<Rightarrow> bool" where
  "support s symbol \<longleftrightarrow> s AND push_bit (symbol_discr symbol) 1 \<noteq> 0"

lemma symbol_discr_inject [simp]: "symbol_discr a = symbol_discr b \<longleftrightarrow> a = b"
  by (cases a; cases b) simp_all

lemma symbol_discr_less: "symbol_discr a < 64"
  by (cases a) simp_all

lemma support_bit: "support s a \<longleftrightarrow> bit s (symbol_discr a)"
proof -
  have "s AND push_bit (symbol_discr a) 1 = (if bit s (symbol_discr a) then push_bit (symbol_discr a) 1 else 0)"
    by (rule bit_word_eqI) (auto simp: bit_simps)
  moreover have "push_bit (symbol_discr a) (1 :: 64 word) \<noteq> 0"
    using symbol_discr_less [of a] by (auto simp: bit_eq_iff [of "push_bit _ _"] bit_simps)
  ultimately show ?thesis by (simp add: support_def)
qed

lemma support_add: "support (symbol_set_add s a) b \<longleftrightarrow> b = a \<or> support s b"
  using symbol_discr_less [of b]
  by (auto simp: support_bit symbol_set_add_def bit_simps)

lemma support_new: "\<not> support symbol_set_new a"
  by (simp add: support_def symbol_set_new_def)

text \<open>
  C12. The 64-bit symbol set behaves as a set: after \<open>extends\<close> it supports exactly the
  symbols it supported before and those of the list, and no bit falls out of the word.
\<close>

theorem support_extends:
  "support (symbol_set_extends s syms) a \<longleftrightarrow> support s a \<or> a \<in> set syms"
  by (induction syms arbitrary: s) (auto simp: symbol_set_extends_def support_add)

section \<open>Operators (kind/lua_operator_kind.rs)\<close>

datatype UnaryOperator = OpNot | OpLen | OpUnm | OpBNot | UnNop

datatype BinaryOperator = OpAdd | OpSub | OpMul | OpDiv | OpIDiv | OpMod | OpPow | OpBAnd
  | OpBOr | OpBXor | OpShl | OpShr | OpConcat | OpLt | OpLe | OpGt | OpGe | OpEq | OpNe
  | OpAnd | OpOr | BinNop

record PriorityTable =
  left :: int
  right :: int

definition prio :: "int \<Rightarrow> int \<Rightarrow> PriorityTable" where
  "prio l r = \<lparr>left = l, right = r\<rparr>"

definition PRIORITY :: "PriorityTable list" where
  "PRIORITY =
    [prio 10 10, prio 10 10, prio 11 11, prio 11 11, prio 11 11, prio 11 11, prio 14 13,
     prio 6 6, prio 4 4, prio 5 5, prio 7 7, prio 7 7, prio 9 8,
     prio 3 3, prio 3 3, prio 3 3, prio 3 3, prio 3 3, prio 3 3, prio 2 2, prio 1 1]"

text \<open>\<open>*self as usize\<close>.\<close>

primrec binop_index :: "BinaryOperator \<Rightarrow> nat" where
  "binop_index OpAdd = 0"
| "binop_index OpSub = 1"
| "binop_index OpMul = 2"
| "binop_index OpDiv = 3"
| "binop_index OpIDiv = 4"
| "binop_index OpMod = 5"
| "binop_index OpPow = 6"
| "binop_index OpBAnd = 7"
| "binop_index OpBOr = 8"
| "binop_index OpBXor = 9"
| "binop_index OpShl = 10"
| "binop_index OpShr = 11"
| "binop_index OpConcat = 12"
| "binop_index OpLt = 13"
| "binop_index OpLe = 14"
| "binop_index OpGt = 15"
| "binop_index OpGe = 16"
| "binop_index OpEq = 17"
| "binop_index OpNe = 18"
| "binop_index OpAnd = 19"
| "binop_index OpOr = 20"
| "binop_index BinNop = 21"

text \<open>Indexing the table with \<open>OpNop\<close> is out of bounds: a panic.\<close>

definition get_priority :: "BinaryOperator \<Rightarrow> PriorityTable option" where
  "get_priority op =
     (if binop_index op < length PRIORITY then Some (PRIORITY ! binop_index op) else None)"

definition UNARY_PRIORITY :: int where
  "UNARY_PRIORITY = 12"

lemma get_priority_None: "get_priority op = None \<longleftrightarrow> op = BinNop"
  by (cases op) (simp_all add: get_priority_def PRIORITY_def)

section \<open>Operators of tokens (kind/mod.rs)\<close>

definition to_unary_operator :: "LuaTokenKind \<Rightarrow> UnaryOperator" where
  "to_unary_operator kind =
     (if kind = TkNot then OpNot
      else if kind = TkLen then OpLen
      else if kind = TkMinus then OpUnm
      else if kind = TkBitXor then OpBNot
      else UnNop)"

definition to_binary_operator :: "LuaTokenKind \<Rightarrow> BinaryOperator" where
  "to_binary_operator kind =
     (if kind = TkPlus then OpAdd
      else if kind = TkMinus then OpSub
      else if kind = TkMul then OpMul
      else if kind = TkMod then OpMod
      else if kind = TkPow then OpPow
      else if kind = TkDiv then OpDiv
      else if kind = TkIDiv then OpIDiv
      else if kind = TkBitAnd then OpBAnd
      else if kind = TkBitOr then OpBOr
      else if kind = TkBitXor then OpBXor
      else if kind = TkShl then OpShl
      else if kind = TkShr then OpShr
      else if kind = TkConcat then OpConcat
      else if kind = TkLt then OpLt
      else if kind = TkLe then OpLe
      else if kind = TkGt then OpGt
      else if kind = TkGe then OpGe
      else if kind = TkEq then OpEq
      else if kind = TkNe then OpNe
      else if kind = TkAnd then OpAnd
      else if kind = TkOr then OpOr
      else BinNop)"

datatype LuaTypeUnaryOperator = TypeUnNone | Keyof | Neg

datatype LuaTypeBinaryOperator = TypeBinNone | Union | Intersection | TypeIn | Extends | Add | Sub

definition TYPE_PRIORITY :: "PriorityTable list" where
  "TYPE_PRIORITY = [prio 0 0, prio 1 1, prio 2 2, prio 3 3, prio 4 4, prio 6 6, prio 6 6]"

primrec type_binop_index :: "LuaTypeBinaryOperator \<Rightarrow> nat" where
  "type_binop_index TypeBinNone = 0"
| "type_binop_index Union = 1"
| "type_binop_index Intersection = 2"
| "type_binop_index TypeIn = 3"
| "type_binop_index Extends = 4"
| "type_binop_index Add = 5"
| "type_binop_index Sub = 6"

definition type_get_priority :: "LuaTypeBinaryOperator \<Rightarrow> PriorityTable option" where
  "type_get_priority op =
     (if type_binop_index op < length TYPE_PRIORITY
      then Some (TYPE_PRIORITY ! type_binop_index op) else None)"

definition to_type_unary_operator :: "LuaTokenKind \<Rightarrow> LuaTypeUnaryOperator" where
  "to_type_unary_operator kind =
     (if kind = TkDocKeyOf then Keyof else if kind = TkMinus then Neg else TypeUnNone)"

definition to_parse_binary_operator :: "LuaTokenKind \<Rightarrow> LuaTypeBinaryOperator" where
  "to_parse_binary_operator kind =
     (if kind = TkDocOr then Union
      else if kind = TkDocAnd then Intersection
      else if kind = TkIn then TypeIn
      else if kind = TkDocExtends then Extends
      else if kind = TkPlus then Add
      else if kind = TkMinus then Sub
      else TypeBinNone)"

definition to_type_binary_operator :: "LuaTokenKind \<Rightarrow> LuaTypeBinaryOperator" where
  "to_type_binary_operator kind =
     (if kind = TkDocOr \<or> kind = TkDocContinueOr then Union
      else if kind = TkDocAnd then Intersection
      else if kind = TkIn then TypeIn
      else if kind = TkDocExtends then Extends
      else if kind = TkPlus then Add
      else if kind = TkMinus then Sub
      else TypeBinNone)"

lemma type_get_priority_total: "\<exists>t. type_get_priority op = Some t \<and> left t = right t"
  by (cases op) (simp_all add: type_get_priority_def TYPE_PRIORITY_def prio_def)

text \<open>The operators of the Lua 5.4 reference manual, from the loosest level to the tightest.\<close>

definition lua_levels :: "LuaTokenKind list list" where
  "lua_levels = [[TkOr], [TkAnd], [TkLt, TkGt, TkLe, TkGe, TkNe, TkEq], [TkBitOr], [TkBitXor], [TkBitAnd],
     [TkShl, TkShr], [TkConcat], [TkPlus, TkMinus], [TkMul, TkDiv, TkIDiv, TkMod], [TkPow]]"

definition level_of :: "LuaTokenKind \<Rightarrow> nat" where
  "level_of tk = length (takeWhile (\<lambda>tks. tk \<notin> set tks) lua_levels)"

definition right_assoc :: "LuaTokenKind \<Rightarrow> bool" where
  "right_assoc tk \<longleftrightarrow> tk = TkConcat \<or> tk = TkPow"

text \<open>
  After the operator \<open>a\<close>, the expression parser takes the operator \<open>b\<close> into the right operand of \<open>a\<close>
  when the left power of \<open>b\<close> is above the right power of \<open>a\<close>.
\<close>

definition takes_over :: "LuaTokenKind \<Rightarrow> LuaTokenKind \<Rightarrow> bool option" where
  "takes_over a b = do {
     p \<leftarrow> get_priority (to_binary_operator a);
     q \<leftarrow> get_priority (to_binary_operator b);
     Some (right p < left q)
   }"


end
