(* ===== verification/Parse_Error.thy ===== *)
theory Parse_Error
  imports Text_Range
begin

text \<open>\<open>crates/glua_parser/src/parser_error/mod.rs\<close>: the errors lexer and parser report.\<close>

datatype LuaParseErrorKind = SyntaxError | DocError

record LuaParseError =
  error_kind :: LuaParseErrorKind
  message :: rstring
  error_range :: TextRange

definition syntax_error_from :: "rstring \<Rightarrow> SourceRange \<Rightarrow> LuaParseError" where
  "syntax_error_from msg rng =
     \<lparr>error_kind = SyntaxError, message = msg, error_range = into_text_range rng\<rparr>"

definition doc_error_from :: "rstring \<Rightarrow> SourceRange \<Rightarrow> LuaParseError" where
  "doc_error_from msg rng =
     \<lparr>error_kind = DocError, message = msg, error_range = into_text_range rng\<rparr>"

end
