(* ===== verification/Lua_Lexer.thy ===== *)
theory Lua_Lexer
  imports Reader Kind_Tables Parse_Error
begin

text \<open>
  \<open>crates/glua_parser/src/lexer\<close>: the configuration, the lexer state and \<open>lua_lexer.rs\<close>. The
  arms of the one big match of \<open>LuaLexer::lex\<close> are separate definitions here, each named
  after the character it starts with; \<open>lex\<close> dispatches to them in the order of the source.

  \<open>char::is_alphabetic\<close> and \<open>is_alphanumeric\<close> consult the Unicode tables of the standard
  library outside ASCII: those tables are the parameter \<open>U\<close> of the definitions that use them.
\<close>

section \<open>Configuration (lexer_config.rs)\<close>

record LexerConfig =
  language_level :: LuaLanguageLevel
  non_std_symbols :: LuaNonStdSymbolSet

definition support_goto :: "LexerConfig \<Rightarrow> bool" where
  "support_goto c \<longleftrightarrow> language_level c \<ge> Lua52 \<or> language_level c = LuaJIT"

definition support_complex_number :: "LexerConfig \<Rightarrow> bool" where
  "support_complex_number c \<longleftrightarrow> language_level c = LuaJIT"

definition support_ll_integer :: "LexerConfig \<Rightarrow> bool" where
  "support_ll_integer c \<longleftrightarrow> language_level c = LuaJIT"

definition support_binary_integer :: "LexerConfig \<Rightarrow> bool" where
  "support_binary_integer c \<longleftrightarrow> language_level c = LuaJIT"

definition support_integer_operation :: "LexerConfig \<Rightarrow> bool" where
  "support_integer_operation c \<longleftrightarrow> False"

definition support_global_decl :: "LexerConfig \<Rightarrow> bool" where
  "support_global_decl c \<longleftrightarrow> False"

definition default_lexer_config :: LexerConfig where
  "default_lexer_config = \<lparr>language_level = LuaJIT, non_std_symbols = symbol_set_new\<rparr>"

section \<open>Tokens and lexer state (token_data.rs, mod.rs)\<close>

record LuaTokenData =
  kind :: LuaTokenKind
  token_range :: SourceRange

definition token_new :: "LuaTokenKind \<Rightarrow> SourceRange \<Rightarrow> LuaTokenData" where
  "token_new k r = \<lparr>kind = k, token_range = r\<rparr>"

datatype LexerState = Normal | StringState rchar | LongString nat | LongComment nat

record Unicode =
  alphabetic_table :: "rchar \<Rightarrow> bool"
  numeric_table :: "rchar \<Rightarrow> bool"

definition is_alphabetic :: "Unicode \<Rightarrow> rchar \<Rightarrow> bool" where
  "is_alphabetic U c \<longleftrightarrow> is_ascii_alpha c \<or> 127 < c \<and> alphabetic_table U c"

definition is_alphanumeric :: "Unicode \<Rightarrow> rchar \<Rightarrow> bool" where
  "is_alphanumeric U c \<longleftrightarrow>
     is_alphabetic U c \<or> is_ascii_digit c \<or> 127 < c \<and> numeric_table U c"

definition is_name_start :: "Unicode \<Rightarrow> rchar \<Rightarrow> bool" where
  "is_name_start U c \<longleftrightarrow> is_alphabetic U c \<or> c = ch CHR ''_''"

definition is_name_continue :: "Unicode \<Rightarrow> rchar \<Rightarrow> bool" where
  "is_name_continue U c \<longleftrightarrow> is_alphanumeric U c \<or> c = ch CHR ''_''"

record LuaLexer =
  reader :: Reader
  lexer_config :: LexerConfig
  lex_errors :: "LuaParseError list option"
  lex_state :: LexerState

section \<open>Small steps of the lexer\<close>

definition cur :: "LuaLexer \<Rightarrow> rchar" where
  "cur lx = current_ch (reader lx)"

definition bump_lx :: "LuaLexer \<Rightarrow> LuaLexer" where
  "bump_lx lx = lx\<lparr>reader := bump (reader lx)\<rparr>"

definition eat_while_lx :: "(rchar \<Rightarrow> bool) \<Rightarrow> LuaLexer \<Rightarrow> LuaLexer" where
  "eat_while_lx f lx = lx\<lparr>reader := snd (eat_while f (reader lx))\<rparr>"

definition set_state :: "LexerState \<Rightarrow> LuaLexer \<Rightarrow> LuaLexer" where
  "set_state s lx = lx\<lparr>lex_state := s\<rparr>"

definition lex_error :: "rstring \<Rightarrow> LuaLexer \<Rightarrow> LuaLexer" where
  "lex_error msg lx =
     lx\<lparr>lex_errors := map_option
          (\<lambda>es. es @ [syntax_error_from msg (current_range (reader lx))]) (lex_errors lx)\<rparr>"

definition support_non_std_symbol :: "LuaLexer \<Rightarrow> LuaNonStdSymbol \<Rightarrow> bool" where
  "support_non_std_symbol lx symbol \<longleftrightarrow> support (non_std_symbols (lexer_config lx)) symbol"

text \<open>The operators that GMod's Lua does not have are still lexed, with an error.\<close>

definition integer_operation_check :: "rstring \<Rightarrow> LuaLexer \<Rightarrow> LuaLexer" where
  "integer_operation_check msg lx =
     (if \<not> support_integer_operation (lexer_config lx) then lex_error msg lx else lx)"

definition not_newline :: "rchar \<Rightarrow> bool" where
  "not_newline c \<longleftrightarrow> c \<noteq> newline \<and> c \<noteq> carriage_return"

definition name_to_kind :: "LuaLexer \<Rightarrow> rstring \<Rightarrow> LuaTokenKind" where
  "name_to_kind lx name =
     (if name = str ''and'' then TkAnd
      else if name = str ''break'' then TkBreak
      else if name = str ''do'' then TkDo
      else if name = str ''else'' then TkElse
      else if name = str ''elseif'' then TkElseIf
      else if name = str ''end'' then TkEnd
      else if name = str ''false'' then TkFalse
      else if name = str ''for'' then TkFor
      else if name = str ''function'' then TkFunction
      else if name = str ''goto'' then
        (if support_goto (lexer_config lx) then TkGoto else TkName)
      else if name = str ''if'' then TkIf
      else if name = str ''in'' then TkIn
      else if name = str ''local'' then TkLocal
      else if name = str ''nil'' then TkNil
      else if name = str ''not'' then TkNot
      else if name = str ''or'' then TkOr
      else if name = str ''repeat'' then TkRepeat
      else if name = str ''return'' then TkReturn
      else if name = str ''then'' then TkThen
      else if name = str ''true'' then TkTrue
      else if name = str ''until'' then TkUntil
      else if name = str ''while'' then TkWhile
      else if name = str ''continue'' then
        (if support_non_std_symbol lx Continue then TkBreak else TkName)
      else TkName)"

definition lex_new_line :: "LuaLexer \<Rightarrow> LuaTokenKind \<times> LuaLexer" where
  "lex_new_line lx =
     (TkEndOfLine,
      if cur lx = newline then
        (let lx = bump_lx lx in if cur lx = carriage_return then bump_lx lx else lx)
      else if cur lx = carriage_return then
        (let lx = bump_lx lx in if cur lx = newline then bump_lx lx else lx)
      else lx)"

definition lex_white_space :: "LuaLexer \<Rightarrow> LuaTokenKind \<times> LuaLexer" where
  "lex_white_space lx =
     (TkWhitespace, eat_while_lx (\<lambda>c. c = ch CHR '' '' \<or> c = tab) lx)"

definition skip_sep :: "LuaLexer \<Rightarrow> nat \<times> LuaLexer" where
  "skip_sep lx =
     (let (n, r) = eat_when (ch CHR ''='') (reader lx) in (n, lx\<lparr>reader := r\<rparr>))"

section \<open>How far a lexer step goes\<close>

text \<open>
  After the token start is set, everything the lexer does to its reader is a sequence of
  \<open>bump\<close>s. \<open>fwd r r'\<close> says \<open>r'\<close> comes out of \<open>r\<close> that way; it gives the termination of the
  loops below, and later that tokens cover the text.
\<close>

inductive fwd :: "Reader \<Rightarrow> Reader \<Rightarrow> bool" where
  fwd_refl: "fwd r r"
| fwd_bump: "fwd r r' \<Longrightarrow> fwd r (bump r')"

declare fwd.intros [simp]

lemma fwd_trans: "fwd s t \<Longrightarrow> fwd r s \<Longrightarrow> fwd r t"
  by (induction rule: fwd.induct) simp_all

lemma fwd_bump_start: "fwd (bump r) r' \<Longrightarrow> fwd r r'"
  by (erule fwd_trans) (rule fwd.fwd_bump [OF fwd.fwd_refl])

lemma fuel_of_bump_le: "fuel_of (bump r) \<le> fuel_of r"
  using fuel_of_bump [of r] by (cases "current_ch r = EOF") (auto simp: bump_def)

lemma fwd_fuel: "fwd r r' \<Longrightarrow> fuel_of r' \<le> fuel_of r"
  by (induction rule: fwd.induct) (auto intro: le_trans fuel_of_bump_le)

lemma fwd_fuel_less: "fwd (bump r) r' \<Longrightarrow> current_ch r \<noteq> 0 \<Longrightarrow> fuel_of r' < fuel_of r"
  using fwd_fuel [of "bump r" r'] fuel_of_bump [of r] by (simp add: EOF_def)

lemma fwd_eat_while: "fwd r (snd (eat_while f r))"
proof (induction f r rule: eat_while.induct)
  case (1 f r)
  then show ?case
    by (subst eat_while.simps) (auto split: prod.splits intro: fwd_bump_start)
qed

section \<open>Strings and long brackets\<close>

text \<open>The body of \<open>lex_string\<close>: up to the quote, a line end or the end of the text.\<close>

definition string_escape :: "LuaLexer \<Rightarrow> LuaLexer" where
  "string_escape lx =
     (if cur lx = ch CHR ''z'' then
        eat_while_lx
          (\<lambda>c. c = ch CHR '' '' \<or> c = tab \<or> c = carriage_return \<or> c = newline) (bump_lx lx)
      else if cur lx = carriage_return \<or> cur lx = newline then snd (lex_new_line lx)
      else bump_lx lx)"

lemma lexer_sel [simp]:
  "reader (bump_lx lx) = bump (reader lx)"
  "reader (eat_while_lx f lx) = snd (eat_while f (reader lx))"
  "reader (set_state s lx) = reader lx"
  "reader (lex_error msg lx) = reader lx"
  "reader (integer_operation_check msg lx) = reader lx"
  "lexer_config (bump_lx lx) = lexer_config lx"
  "lexer_config (eat_while_lx f lx) = lexer_config lx"
  "lexer_config (set_state s lx) = lexer_config lx"
  "lexer_config (lex_error msg lx) = lexer_config lx"
  "lexer_config (integer_operation_check msg lx) = lexer_config lx"
  "lex_state (bump_lx lx) = lex_state lx"
  "lex_state (eat_while_lx f lx) = lex_state lx"
  "lex_state (set_state s lx) = s"
  "lex_state (lex_error msg lx) = lex_state lx"
  "lex_state (integer_operation_check msg lx) = lex_state lx"
  by (simp_all add: bump_lx_def eat_while_lx_def set_state_def lex_error_def
      integer_operation_check_def)

lemma fwd_eat_while_step [simp]: "fwd r s \<Longrightarrow> fwd r (snd (eat_while f s))"
  by (rule fwd_trans [OF fwd_eat_while])

lemma fwd_new_line [simp]: "fwd r (reader lx) \<Longrightarrow> fwd r (reader (snd (lex_new_line lx)))"
  by (auto simp: lex_new_line_def Let_def)

lemma fwd_string_escape [simp]: "fwd r (reader lx) \<Longrightarrow> fwd r (reader (string_escape lx))"
  by (auto simp: string_escape_def fwd_new_line intro: fwd_eat_while_step)

function string_body :: "rchar \<Rightarrow> LuaLexer \<Rightarrow> LuaLexer" where
  "string_body quote lx =
     (if is_eof (reader lx) \<or> cur lx = quote \<or> cur lx = newline \<or> cur lx = carriage_return
      then lx
      else if cur lx \<noteq> backslash then string_body quote (bump_lx lx)
      else string_body quote (string_escape (bump_lx lx)))"
  by pat_completeness auto
termination
  by (relation "measure (\<lambda>(_, lx). fuel_of (reader lx))")
     (auto simp: is_eof_def EOF_def cur_def intro!: fwd_fuel_less fwd_string_escape)

declare string_body.simps [simp del]

definition lex_string :: "rchar \<Rightarrow> LuaLexer \<Rightarrow> LuaTokenKind \<times> LuaLexer" where
  "lex_string quote lx =
     (let lx = string_body quote lx;
          lx = (if cur lx = quote \<or> \<not> is_eof (reader lx) then set_state Normal lx else lx)
      in if cur lx \<noteq> quote then (TkString, lex_error (str ''unfinished string'') lx)
         else (TkString, bump_lx lx))"

function long_string_body :: "nat \<Rightarrow> LuaLexer \<Rightarrow> bool \<times> LuaLexer" where
  "long_string_body sep lx =
     (if is_eof (reader lx) then (False, lx)
      else if cur lx = ch CHR '']'' then
        (let (count, lx) = skip_sep (bump_lx lx)
         in if count = sep \<and> cur lx = ch CHR '']'' then (True, bump_lx lx)
            else long_string_body sep lx)
      else long_string_body sep (bump_lx lx))"
  by pat_completeness auto
termination
proof (relation "measure (\<lambda>(_, lx). fuel_of (reader lx))", goal_cases)
  case (2 sep lx p count lx')
  then have "reader lx' = snd (eat_while (\<lambda>c. c = ch CHR ''='') (bump (reader lx)))"
    by (auto simp: skip_sep_def eat_when_def split: prod.splits)
  with 2 show ?case
    by (auto simp: is_eof_def EOF_def intro!: fwd_fuel_less fwd_eat_while_step)
qed (auto simp: is_eof_def EOF_def intro!: fwd_fuel_less)

declare long_string_body.simps [simp del]

definition lex_long_string :: "nat \<Rightarrow> LuaLexer \<Rightarrow> LuaTokenKind \<times> LuaLexer" where
  "lex_long_string sep lx =
     (let (end', lx) = long_string_body sep lx;
          lx = (if end' \<or> \<not> is_eof (reader lx) then set_state Normal lx else lx);
          lx = (if \<not> end' then lex_error (str ''unfinished long string or comment'') lx else lx)
      in (TkLongString, lx))"

section \<open>Numbers\<close>

datatype NumberState = NInt | NFloat | NHex | NHexFloat | NWithExpo | NBin

definition is_hex_digit :: "rchar \<Rightarrow> bool" where
  "is_hex_digit c \<longleftrightarrow> is_ascii_digit c \<or> (97 \<le> c \<and> c \<le> 102) \<or> (65 \<le> c \<and> c \<le> 70)"

text \<open>An exponent mark takes a sign that follows it along.\<close>

definition expo_sign :: "Reader \<Rightarrow> Reader" where
  "expo_sign r = (if next_ch r = ch CHR ''+'' \<or> next_ch r = ch CHR ''-'' then bump r else r)"

text \<open>
  One round of the loop: whether the current character belongs to the number, the state
  after it and the reader, which has skipped an exponent mark that a sign follows.
\<close>

definition number_step :: "NumberState \<Rightarrow> Reader \<Rightarrow> bool \<times> NumberState \<times> Reader" where
  "number_step state r =
     (let c = current_ch r in
      case state of
        NInt \<Rightarrow>
          if is_ascii_digit c then (True, state, r)
          else if c = ch CHR ''.'' then (True, NFloat, r)
          else if c = ch CHR ''e'' \<or> c = ch CHR ''E'' then (True, NWithExpo, expo_sign r)
          else (False, state, r)
      | NFloat \<Rightarrow>
          if is_ascii_digit c then (True, state, r)
          else if c = ch CHR ''e'' \<or> c = ch CHR ''E'' then (True, NWithExpo, expo_sign r)
          else (False, state, r)
      | NHex \<Rightarrow>
          if is_hex_digit c then (True, state, r)
          else if c = ch CHR ''.'' then (True, NHexFloat, r)
          else if c = ch CHR ''P'' \<or> c = ch CHR ''p'' then (True, NWithExpo, expo_sign r)
          else (False, state, r)
      | NHexFloat \<Rightarrow>
          if is_hex_digit c then (True, state, r)
          else if c = ch CHR ''P'' \<or> c = ch CHR ''p'' then (True, NWithExpo, expo_sign r)
          else (False, state, r)
      | NWithExpo \<Rightarrow> (is_ascii_digit c, state, r)
      | NBin \<Rightarrow> (c = ch CHR ''0'' \<or> c = ch CHR ''1'', state, r))"

lemma expo_sign_cases: "expo_sign r = r \<or> expo_sign r = bump r"
  by (simp add: expo_sign_def)

lemma number_step_reader:
  assumes "number_step state r = (cont, state', r')"
  shows "fwd r r'" and "fwd (bump r) (bump r')" and "\<not> cont \<Longrightarrow> r' = r"
proof -
  from assms have "r' = r \<or> r' = expo_sign r"
    by (auto simp: number_step_def Let_def split: NumberState.splits if_splits)
  then have "r' = r \<or> r' = bump r" using expo_sign_cases [of r] by auto
  then show "fwd r r'" "fwd (bump r) (bump r')" by auto
  show "\<not> cont \<Longrightarrow> r' = r"
    using assms by (auto simp: number_step_def Let_def split: NumberState.splits if_splits)
qed

function number_body :: "NumberState \<Rightarrow> Reader \<Rightarrow> NumberState \<times> Reader" where
  "number_body state r =
     (if is_eof r then (state, r)
      else (let (continue', state', r') = number_step state r
            in if continue' then number_body state' (bump r') else (state', r')))"
  by pat_completeness auto
termination
  by (relation "measure (\<lambda>(_, r). fuel_of r)")
     (auto simp: is_eof_def EOF_def intro!: fwd_fuel_less number_step_reader(2) [OF sym])

declare number_body.simps [simp del]

definition number_start :: "LuaLexer \<Rightarrow> NumberState \<times> LuaLexer" where
  "number_start lx =
     (let first = cur lx; lx = bump_lx lx in
      if first = ch CHR ''0'' \<and> (cur lx = ch CHR ''X'' \<or> cur lx = ch CHR ''x'')
      then (NHex, bump_lx lx)
      else if first = ch CHR ''0'' \<and> (cur lx = ch CHR ''B'' \<or> cur lx = ch CHR ''b'') \<and>
        support_binary_integer (lexer_config lx)
      then (NBin, bump_lx lx)
      else if first = ch CHR ''.'' then (NFloat, lx)
      else (NInt, lx))"

definition lex_number :: "Unicode \<Rightarrow> LuaLexer \<Rightarrow> LuaTokenKind \<times> LuaLexer" where
  "lex_number U lx =
     (let (state, lx) = number_start lx;
          (state, r) = number_body state (reader lx);
          lx = lx\<lparr>reader := r\<rparr>
      in if support_complex_number (lexer_config lx) \<and> cur lx = ch CHR ''i''
         then (TkComplex, bump_lx lx)
         else if support_ll_integer (lexer_config lx) \<and> state \<in> {NInt, NHex, NBin}
         then (TkInt, eat_while_lx (\<lambda>c. c = ch CHR ''u'' \<or> c = ch CHR ''U'' \<or>
                 c = ch CHR ''l'' \<or> c = ch CHR ''L'') lx)
         else
           (let lx = (if is_alphabetic U (cur lx)
                      then lex_error (str ''unexpected character '' @ [single_quote, cur lx, single_quote]
                             @ str '' after number literal'') lx
                      else lx)
            in (if state = NInt \<or> state = NHex then TkInt else TkFloat, lx)))"

section \<open>The arms of \<open>lex\<close>\<close>

text \<open>An operator character, and its compound assignment when that symbol is enabled.\<close>

definition op_or_assign ::
  "LuaTokenKind \<Rightarrow> LuaNonStdSymbol \<Rightarrow> LuaTokenKind \<Rightarrow> LuaLexer \<Rightarrow> LuaTokenKind \<times> LuaLexer" where
  "op_or_assign op symbol assign lx =
     (if cur lx = ch CHR ''='' \<and> support_non_std_symbol lx symbol
      then (assign, bump_lx lx) else (op, lx))"

definition lex_minus :: "LuaLexer \<Rightarrow> LuaTokenKind \<times> LuaLexer" where
  "lex_minus lx =
     (let lx = bump_lx lx in
      if cur lx = ch CHR ''='' \<and> support_non_std_symbol lx MinusAssign
      then (TkMinusAssign, bump_lx lx)
      else if cur lx \<noteq> ch CHR ''-'' then (TkMinus, lx)
      else
        (let lx = bump_lx lx in
         if cur lx = ch CHR ''['' then
           (let (sep, lx) = skip_sep (bump_lx lx) in
            if cur lx = ch CHR ''[''
            then (TkLongComment,
                  snd (lex_long_string sep (set_state (LongComment sep) (bump_lx lx))))
            else (TkShortComment, eat_while_lx not_newline lx))
         else (TkShortComment, eat_while_lx not_newline lx)))"

definition lex_left_bracket :: "LuaLexer \<Rightarrow> LuaTokenKind \<times> LuaLexer" where
  "lex_left_bracket lx =
     (let (sep, lx) = skip_sep (bump_lx lx) in
      if sep = 0 \<and> cur lx \<noteq> ch CHR ''['' then (TkLeftBracket, lx)
      else if cur lx \<noteq> ch CHR ''[''
      then (TkLongString, lex_error (str ''invalid long string delimiter'') lx)
      else lex_long_string sep (set_state (LongString sep) (bump_lx lx)))"

definition lex_assign :: "LuaLexer \<Rightarrow> LuaTokenKind \<times> LuaLexer" where
  "lex_assign lx =
     (let lx = bump_lx lx in
      if cur lx \<noteq> ch CHR ''='' then (TkAssign, lx) else (TkEq, bump_lx lx))"

definition lex_less :: "LuaLexer \<Rightarrow> LuaTokenKind \<times> LuaLexer" where
  "lex_less lx =
     (let lx = bump_lx lx in
      if cur lx = ch CHR ''='' then (TkLe, bump_lx lx)
      else if cur lx = ch CHR ''<'' then
        (let lx = bump_lx (integer_operation_check (str ''bitwise operation is not supported'') lx)
         in op_or_assign TkShl ShiftLeftAssign TkShiftLeftAssign lx)
      else (TkLt, lx))"

definition lex_greater :: "LuaLexer \<Rightarrow> LuaTokenKind \<times> LuaLexer" where
  "lex_greater lx =
     (let lx = bump_lx lx in
      if cur lx = ch CHR ''='' then (TkGe, bump_lx lx)
      else if cur lx = ch CHR ''>'' then
        (let lx = bump_lx (integer_operation_check (str ''bitwise operation is not supported'') lx)
         in op_or_assign TkShr ShiftRightAssign TkShiftRightAssign lx)
      else (TkGt, lx))"

definition lex_tilde :: "LuaLexer \<Rightarrow> LuaTokenKind \<times> LuaLexer" where
  "lex_tilde lx =
     (let lx = bump_lx lx in
      if cur lx \<noteq> ch CHR ''=''
      then (TkBitXor, integer_operation_check (str ''bitwise operation is not supported'') lx)
      else (TkNe, bump_lx lx))"

definition lex_colon :: "LuaLexer \<Rightarrow> LuaTokenKind \<times> LuaLexer" where
  "lex_colon lx =
     (let lx = bump_lx lx in
      if cur lx \<noteq> ch CHR '':'' then (TkColon, lx) else (TkDbColon, bump_lx lx))"

definition lex_quote :: "LuaLexer \<Rightarrow> LuaTokenKind \<times> LuaLexer" where
  "lex_quote lx =
     (let quote = cur lx in
      if quote = backtick \<and> \<not> support_non_std_symbol lx Backtick then (TkUnknown, bump_lx lx)
      else lex_string quote (set_state (StringState quote) (bump_lx lx)))"

definition lex_dot :: "Unicode \<Rightarrow> LuaLexer \<Rightarrow> LuaTokenKind \<times> LuaLexer" where
  "lex_dot U lx =
     (if is_ascii_digit (next_ch (reader lx)) then lex_number U lx
      else
        (let lx = bump_lx lx in
         if cur lx \<noteq> ch CHR ''.'' then (TkDot, lx)
         else
           (let lx = bump_lx lx in
            if cur lx \<noteq> ch CHR ''.'' then (TkConcat, lx) else (TkDots, bump_lx lx))))"

text \<open>The loop inside \<open>/* ... */\<close>.\<close>

function slash_star_body :: "LuaLexer \<Rightarrow> LuaTokenKind \<times> LuaLexer" where
  "slash_star_body lx =
     (if cur lx = ch CHR ''*'' then
        (let lx = bump_lx lx in
         if cur lx = ch CHR ''/'' then (TkLongComment, bump_lx lx) else slash_star_body lx)
      else if is_eof (reader lx)
      then (TkLongComment, lex_error (str ''unfinished long comment'') lx)
      else slash_star_body (bump_lx lx))"
  by pat_completeness auto
termination
  by (relation "measure (\<lambda>lx. fuel_of (reader lx))")
     (auto simp: is_eof_def EOF_def cur_def intro!: fwd_fuel_less)

declare slash_star_body.simps [simp del]

definition lex_slash :: "LuaLexer \<Rightarrow> LuaTokenKind \<times> LuaLexer" where
  "lex_slash lx =
     (let lx = bump_lx lx; current_char = cur lx in
      if current_char = ch CHR ''*'' \<and> support_non_std_symbol lx SlashStar
      then slash_star_body (bump_lx lx)
      else if current_char = ch CHR ''='' \<and> support_non_std_symbol lx SlashAssign
      then (TkSlashAssign, bump_lx lx)
      else if current_char \<noteq> ch CHR ''/'' then (TkDiv, lx)
      else if support_non_std_symbol lx DoubleSlash
      then (TkShortComment, eat_while_lx not_newline (bump_lx lx))
      else
        (let lx = bump_lx (integer_operation_check (str ''integer division is not supported'') lx)
         in op_or_assign TkIDiv DoubleSlashAssign TkDoubleSlashAssign lx))"

definition lex_exclamation :: "LuaLexer \<Rightarrow> LuaTokenKind \<times> LuaLexer" where
  "lex_exclamation lx =
     (if \<not> support_non_std_symbol lx Exclamation then (TkUnknown, bump_lx lx)
      else op_or_assign TkNot NotEqual TkNe (bump_lx lx))"

definition lex_ampersand :: "LuaLexer \<Rightarrow> LuaTokenKind \<times> LuaLexer" where
  "lex_ampersand lx =
     (let lx = bump_lx lx in
      if cur lx = ch CHR ''&'' \<and> support_non_std_symbol lx DoubleAmp then (TkAnd, bump_lx lx)
      else if cur lx = ch CHR ''='' \<and> support_non_std_symbol lx AmpAssign
      then (TkAmpAssign, bump_lx lx)
      else (TkBitAnd, integer_operation_check (str ''bitwise operation is not supported'') lx))"

definition lex_pipe :: "LuaLexer \<Rightarrow> LuaTokenKind \<times> LuaLexer" where
  "lex_pipe lx =
     (let lx = bump_lx lx in
      if cur lx = ch CHR ''|'' \<and> support_non_std_symbol lx DoublePipe then (TkOr, bump_lx lx)
      else if cur lx = ch CHR ''='' \<and> support_non_std_symbol lx PipeAssign
      then (TkPipeAssign, bump_lx lx)
      else (TkBitOr, integer_operation_check (str ''bitwise operation is not supported'') lx))"

text \<open>The arms of one character.\<close>

definition single_char_token :: "rchar \<Rightarrow> LuaTokenKind option" where
  "single_char_token c =
     (if c = ch CHR ''('' then Some TkLeftParen
      else if c = ch CHR '')'' then Some TkRightParen
      else if c = ch CHR ''{'' then Some TkLeftBrace
      else if c = ch CHR ''}'' then Some TkRightBrace
      else if c = ch CHR '']'' then Some TkRightBracket
      else if c = ch CHR '';'' then Some TkSemicolon
      else if c = ch CHR '','' then Some TkComma
      else if c = ch CHR ''@'' then Some TkAt
      else None)"

definition lex_name :: "Unicode \<Rightarrow> LuaLexer \<Rightarrow> (LuaTokenKind \<times> LuaLexer) option" where
  "lex_name U lx = do {
     let lx = eat_while_lx (is_name_continue U) (bump_lx lx);
     name \<leftarrow> current_text (reader lx);
     Some (name_to_kind lx name, lx)
   }"

text \<open>The match of \<open>lex\<close>, on a lexer whose reader has just been reset.\<close>

definition lex_match :: "Unicode \<Rightarrow> LuaLexer \<Rightarrow> (LuaTokenKind \<times> LuaLexer) option" where
  "lex_match U lx =
     (let c = cur lx in
      if c = newline \<or> c = carriage_return then Some (lex_new_line lx)
      else if c = ch CHR '' '' \<or> c = tab then Some (lex_white_space lx)
      else if c = ch CHR ''-'' then Some (lex_minus lx)
      else if c = ch CHR ''['' then Some (lex_left_bracket lx)
      else if c = ch CHR ''='' then Some (lex_assign lx)
      else if c = ch CHR ''<'' then Some (lex_less lx)
      else if c = ch CHR ''>'' then Some (lex_greater lx)
      else if c = ch CHR ''~'' then Some (lex_tilde lx)
      else if c = ch CHR '':'' then Some (lex_colon lx)
      else if c = double_quote \<or> c = single_quote \<or> c = backtick then Some (lex_quote lx)
      else if c = ch CHR ''.'' then Some (lex_dot U lx)
      else if is_ascii_digit c then Some (lex_number U lx)
      else if c = ch CHR ''/'' then Some (lex_slash lx)
      else if c = ch CHR ''*''
      then Some (op_or_assign TkMul StarAssign TkStarAssign (bump_lx lx))
      else if c = ch CHR ''+''
      then Some (op_or_assign TkPlus PlusAssign TkPlusAssign (bump_lx lx))
      else if c = ch CHR ''%''
      then Some (op_or_assign TkMod PercentAssign TkPercentAssign (bump_lx lx))
      else if c = ch CHR ''^''
      then Some (op_or_assign TkPow CaretAssign TkCaretAssign (bump_lx lx))
      else if c = ch CHR ''#'' then Some (TkLen, bump_lx lx)
      else if c = ch CHR ''!'' then Some (lex_exclamation lx)
      else if c = ch CHR ''&'' then Some (lex_ampersand lx)
      else if c = ch CHR ''|'' then Some (lex_pipe lx)
      else (case single_char_token c of
              Some k \<Rightarrow> Some (k, bump_lx lx)
            | None \<Rightarrow>
                if is_eof (reader lx) then Some (TkEof, lx)
                else if is_name_start U c then lex_name U lx
                else Some (TkUnknown, bump_lx lx)))"

definition lex :: "Unicode \<Rightarrow> LuaLexer \<Rightarrow> (LuaTokenKind \<times> LuaLexer) option" where
  "lex U lx = lex_match U (lx\<lparr>reader := reset_buff (reader lx)\<rparr>)"

end
