(* ===== verification/Lua_Tokenize.thy ===== *)
theory Lua_Tokenize
  imports Lua_Lexer
begin

text \<open>
  \<open>LuaLexer::tokenize\<close>: progress of \<open>lex\<close>, the token loop, and the contract the parser relies
  on: the tokens tile the text, in order and without gaps, up to the reader's end mark.
\<close>

section \<open>Progress of the arms\<close>

named_theorems fwd_arm \<open>reader steps of the lexer's arms\<close>

lemma skip_sep_reader [simp]:
  "reader (snd (skip_sep lx)) = snd (eat_while (\<lambda>c. c = ch CHR ''='') (reader lx))"
  by (simp add: skip_sep_def eat_when_def split: prod.split)

lemma fwd_string_body [fwd_arm]:
  "fwd r (reader lx) \<Longrightarrow> fwd r (reader (string_body quote lx))"
proof (induction quote lx rule: string_body.induct)
  case (1 quote lx)
  then show ?case by (subst string_body.simps) simp
qed

lemma fwd_lex_string [fwd_arm]:
  "fwd r (reader lx) \<Longrightarrow> fwd r (reader (snd (lex_string quote lx)))"
  by (simp add: lex_string_def Let_def fwd_arm)

lemma fwd_long_string_body [fwd_arm]:
  "fwd r (reader lx) \<Longrightarrow> fwd r (reader (snd (long_string_body sep lx)))"
proof (induction sep lx rule: long_string_body.induct)
  case (1 sep lx)
  obtain count lx' where sep: "skip_sep (bump_lx lx) = (count, lx')" by fastforce
  then have "fwd r (reader lx')"
    using "1.prems" skip_sep_reader [of "bump_lx lx"] by simp
  with "1" sep show ?case by (subst long_string_body.simps) simp
qed

lemma fwd_lex_long_string [fwd_arm]:
  "fwd r (reader lx) \<Longrightarrow> fwd r (reader (snd (lex_long_string sep lx)))"
  using fwd_long_string_body [of r lx sep]
  by (auto simp: lex_long_string_def Let_def split: prod.splits)

lemma fwd_number_body [fwd_arm]: "fwd r s \<Longrightarrow> fwd r (snd (number_body state s))"
proof (induction state s rule: number_body.induct)
  case (1 state s)
  obtain cont state' s' where step: "number_step state s = (cont, state', s')"
    by (metis prod_cases3)
  then have "fwd r s'" using "1.prems" number_step_reader(1) fwd_trans by blast
  with step "1.IH" show ?case by (subst number_body.simps) (simp add: "1.prems")
qed

lemma fwd_lex_number [fwd_arm]: "fwd (bump (reader lx)) (reader (snd (lex_number U lx)))"
proof -
  have "fwd (bump (reader lx)) (reader (snd (number_start lx)))"
    by (simp add: number_start_def Let_def)
  then have "fwd (bump (reader lx))
      (snd (number_body (fst (number_start lx)) (reader (snd (number_start lx)))))"
    by (rule fwd_number_body)
  then show ?thesis
    by (auto simp: lex_number_def Let_def split: prod.splits)
qed

lemma fwd_op_or_assign [fwd_arm]:
  "fwd r (reader lx) \<Longrightarrow> fwd r (reader (snd (op_or_assign a s b lx)))"
  by (simp add: op_or_assign_def)

lemma fwd_slash_star [fwd_arm]: "fwd r (reader lx) \<Longrightarrow> fwd r (reader (snd (slash_star_body lx)))"
proof (induction lx rule: slash_star_body.induct)
  case (1 lx)
  then show ?case by (subst slash_star_body.simps) (simp add: Let_def)
qed

lemmas simple_arm_defs = lex_assign_def lex_tilde_def lex_colon_def lex_ampersand_def
  lex_pipe_def lex_exclamation_def lex_less_def lex_greater_def Let_def

lemma fwd_simple_arms [fwd_arm]:
  "fwd (bump (reader lx)) (reader (snd (lex_assign lx)))"
  "fwd (bump (reader lx)) (reader (snd (lex_tilde lx)))"
  "fwd (bump (reader lx)) (reader (snd (lex_colon lx)))"
  "fwd (bump (reader lx)) (reader (snd (lex_ampersand lx)))"
  "fwd (bump (reader lx)) (reader (snd (lex_pipe lx)))"
  "fwd (bump (reader lx)) (reader (snd (lex_exclamation lx)))"
  "fwd (bump (reader lx)) (reader (snd (lex_less lx)))"
  "fwd (bump (reader lx)) (reader (snd (lex_greater lx)))"
  by (simp_all add: simple_arm_defs fwd_arm)

lemma fwd_lex_minus [fwd_arm]: "fwd (bump (reader lx)) (reader (snd (lex_minus lx)))"
  by (simp add: lex_minus_def Let_def fwd_arm split_def)

lemma fwd_lex_left_bracket [fwd_arm]: "fwd (bump (reader lx)) (reader (snd (lex_left_bracket lx)))"
  by (simp add: lex_left_bracket_def fwd_arm split_def Let_def)

lemma fwd_lex_quote [fwd_arm]: "fwd (bump (reader lx)) (reader (snd (lex_quote lx)))"
  by (simp add: lex_quote_def Let_def fwd_arm)

lemma fwd_lex_dot [fwd_arm]: "fwd (bump (reader lx)) (reader (snd (lex_dot U lx)))"
  by (simp add: lex_dot_def Let_def fwd_arm)

lemma fwd_lex_slash [fwd_arm]: "fwd (bump (reader lx)) (reader (snd (lex_slash lx)))"
  by (simp add: lex_slash_def Let_def fwd_arm)

lemma fwd_lex_new_line [fwd_arm]:
  "cur lx = newline \<or> cur lx = carriage_return \<Longrightarrow>
   fwd (bump (reader lx)) (reader (snd (lex_new_line lx)))"
  by (auto simp: lex_new_line_def Let_def)

lemma eat_while_first:
  "current_ch r \<noteq> 0 \<Longrightarrow> f (current_ch r) \<Longrightarrow> snd (eat_while f r) = snd (eat_while f (bump r))"
  by (subst eat_while_loop) simp

lemma fwd_lex_white_space [fwd_arm]:
  "cur lx = ch CHR '' '' \<or> cur lx = tab \<Longrightarrow>
   fwd (bump (reader lx)) (reader (snd (lex_white_space lx)))"
  by (auto simp: lex_white_space_def cur_def eat_while_first)

lemma fwd_lex_name [fwd_arm]:
  "lex_name U lx = Some (k, lx') \<Longrightarrow> fwd (bump (reader lx)) (reader lx')"
  by (auto simp: lex_name_def Let_def bind_eq_Some_conv)

section \<open>Kinds of the arms\<close>

text \<open>
  No arm produces \<open>TkEof\<close>, \<open>None\<close> or \<open>TkDocContinue\<close> (the one documentation token that the tree
  builder treats as white space).
\<close>

definition lexed_kind :: "LuaTokenKind \<Rightarrow> bool" where
  "lexed_kind k \<longleftrightarrow> k \<noteq> TkNone \<and> k \<noteq> TkEof \<and> k \<noteq> TkDocContinue"

lemma lexed_kind_discr [simp]: "lexed_kind (TokenKind n) \<longleftrightarrow> n \<noteq> 0 \<and> n \<noteq> 79 \<and> n \<noteq> 135"
  by (simp add: lexed_kind_def)

lemma lex_string_kind [simp]: "fst (lex_string q lx) = TkString"
  by (simp add: lex_string_def Let_def)

lemma lex_long_string_kind [simp]: "fst (lex_long_string sep lx) = TkLongString"
  by (simp add: lex_long_string_def Let_def split: prod.splits)

lemma slash_star_kind [simp]: "fst (slash_star_body lx) = TkLongComment"
proof (induction lx rule: slash_star_body.induct)
  case (1 lx)
  then show ?case by (subst slash_star_body.simps) (auto simp: Let_def)
qed

lemma lex_number_kind: "lexed_kind (fst (lex_number U lx))"
  by (simp add: lex_number_def Let_def split: prod.splits)

lemma name_to_kind_kind: "lexed_kind (name_to_kind lx name)"
  by (simp add: name_to_kind_def)

lemma arm_kinds:
  "lexed_kind (fst (lex_minus lx))"
  "lexed_kind (fst (lex_left_bracket lx))"
  "lexed_kind (fst (lex_quote lx))"
  "lexed_kind (fst (lex_dot U lx))"
  "lexed_kind (fst (lex_slash lx))"
  "lexed_kind (fst (lex_new_line lx))"
  "lexed_kind (fst (lex_white_space lx))"
  by (simp_all add: lex_minus_def lex_left_bracket_def lex_quote_def lex_dot_def lex_slash_def
      op_or_assign_def lex_new_line_def lex_white_space_def lex_number_kind Let_def
      split: prod.splits)

lemma simple_arm_kinds:
  "lexed_kind (fst (lex_assign lx))"
  "lexed_kind (fst (lex_tilde lx))"
  "lexed_kind (fst (lex_colon lx))"
  "lexed_kind (fst (lex_ampersand lx))"
  "lexed_kind (fst (lex_pipe lx))"
  "lexed_kind (fst (lex_exclamation lx))"
  "lexed_kind (fst (lex_less lx))"
  "lexed_kind (fst (lex_greater lx))"
  by (simp_all add: simple_arm_defs op_or_assign_def)

lemma single_char_kind: "single_char_token c = Some k \<Longrightarrow> lexed_kind k"
  by (auto simp: single_char_token_def split: if_splits)

section \<open>Progress of lex\<close>

lemma lex_match_eof: "is_eof (reader lx) \<Longrightarrow> lex_match U lx = Some (TkEof, lx)"
  by (simp add: lex_match_def is_eof_def EOF_def cur_def single_char_token_def is_ascii_digit_def)

lemma lex_match_progress:
  assumes "\<not> is_eof (reader lx)"
  shows "pred_option (\<lambda>(k, lx'). fwd (bump (reader lx)) (reader lx') \<and> lexed_kind k) (lex_match U lx)"
proof -
  have name: "pred_option (\<lambda>m. fwd (bump (reader lx)) (reader (snd m)) \<and> lexed_kind (fst m)) (lex_name U lx)"
    by (auto simp: pred_option_def lex_name_def Let_def bind_eq_Some_conv name_to_kind_kind)
  have "pred_option (\<lambda>m. fwd (bump (reader lx)) (reader (snd m)) \<and> lexed_kind (fst m)) (lex_match U lx)"
    using assms name unfolding lex_match_def Let_def
    by (simp add: fwd_arm arm_kinds simple_arm_kinds lex_number_kind op_or_assign_def
        single_char_kind split: option.split)
  then show ?thesis by (simp add: split_def)
qed

lemma lex_progress:
  assumes "lex U lx = Some (k, lx')" and "\<not> is_eof (reader lx)"
  shows "fwd (bump (reset_buff (reader lx))) (reader lx')" and "lexed_kind k"
  using lex_match_progress [of "lx\<lparr>reader := reset_buff (reader lx)\<rparr>" U] assms
  by (simp_all add: lex_def)

section \<open>The token loop\<close>

text \<open>One round of the loop: the state selects how the next token is lexed.\<close>

definition token_step :: "Unicode \<Rightarrow> LuaLexer \<Rightarrow> (LuaTokenKind \<times> LuaLexer) option" where
  "token_step U lx =
     (case lex_state lx of
        Normal \<Rightarrow> lex U lx
      | StringState quote \<Rightarrow> Some (lex_string quote lx)
      | LongString sep \<Rightarrow> Some (lex_long_string sep lx)
      | LongComment sep \<Rightarrow> Some (TkLongComment, snd (lex_long_string sep lx)))"

definition token_measure :: "LuaLexer \<Rightarrow> nat" where
  "token_measure lx = 2 * fuel_of (reader lx) + (if lex_state lx = Normal then 0 else 1)"

lemma lex_string_state:
  "\<not> is_eof (reader (string_body quote lx)) \<Longrightarrow> lex_state (snd (lex_string quote lx)) = Normal"
  by (simp add: lex_string_def Let_def)

lemma string_body_fwd_or_same:
  "\<not> is_eof (reader lx) \<Longrightarrow>
   string_body quote lx = lx \<or> fwd (bump (reader lx)) (reader (string_body quote lx))"
  by (subst (1 2) string_body.simps) (simp add: fwd_string_body)

lemma lex_string_measure:
  assumes "\<not> is_eof (reader lx)" and "lex_state lx \<noteq> Normal"
  shows "token_measure (snd (lex_string quote lx)) < token_measure lx"
proof (cases "string_body quote lx = lx")
  case True
  then show ?thesis using assms fuel_of_bump_le [of "reader lx"]
    by (auto simp: lex_string_def Let_def token_measure_def)
next
  case False
  with string_body_fwd_or_same [OF assms(1)]
  have "fwd (bump (reader lx)) (reader (string_body quote lx))" by blast
  then have "fwd (bump (reader lx)) (reader (snd (lex_string quote lx)))"
    by (simp add: lex_string_def Let_def)
  from fwd_fuel_less [OF this] assms show ?thesis
    by (auto simp: token_measure_def is_eof_def EOF_def)
qed

lemma long_string_body_fwd:
  "\<not> is_eof (reader lx) \<Longrightarrow> fwd (bump (reader lx)) (reader (snd (long_string_body sep lx)))"
  by (subst long_string_body.simps) (simp add: fwd_long_string_body split_def Let_def)

lemma lex_long_string_fwd:
  assumes "\<not> is_eof (reader lx)"
  shows "fwd (bump (reader lx)) (reader (snd (lex_long_string sep lx)))"
  using long_string_body_fwd [OF assms, of sep]
  by (auto simp: lex_long_string_def Let_def split: prod.splits)

lemma fwd_token_measure:
  "fwd (bump (reader lx)) (reader lx') \<Longrightarrow> \<not> is_eof (reader lx) \<Longrightarrow> lex_state lx \<noteq> Normal \<Longrightarrow>
   token_measure lx' < token_measure lx"
  using fwd_fuel_less [of "reader lx" "reader lx'"]
  by (auto simp: token_measure_def is_eof_def EOF_def)

text \<open>\<open>lex\<close> may leave the normal state, but only by reading a character.\<close>

lemma lex_measure:
  assumes "lex U lx = Some (k, lx')" and "\<not> is_eof (reader lx)" and "lex_state lx = Normal"
  shows "token_measure lx' < token_measure lx"
proof -
  have "fuel_of (reader lx') < fuel_of (reset_buff (reader lx))"
    using lex_progress(1) [OF assms(1,2)] assms(2)
    by (intro fwd_fuel_less) (auto simp: is_eof_def EOF_def)
  with assms(3) show ?thesis by (simp add: token_measure_def)
qed

lemma token_step_measure:
  assumes "token_step U lx = Some (k, lx')" and "\<not> is_eof (reader lx)"
  shows "token_measure lx' < token_measure lx"
proof (cases "lex_state lx")
  case Normal
  with assms lex_measure show ?thesis by (simp add: token_step_def)
next
  case (StringState quote)
  with assms lex_string_measure [OF assms(2), of quote] show ?thesis
    by (auto simp: token_step_def)
next
  case (LongString sep)
  with assms fwd_token_measure [OF lex_long_string_fwd [OF assms(2), of sep] assms(2)]
  show ?thesis by (auto simp: token_step_def)
next
  case (LongComment sep)
  with assms fwd_token_measure [OF lex_long_string_fwd [OF assms(2), of sep] assms(2)]
  show ?thesis by (auto simp: token_step_def)
qed

function tokenize_loop :: "Unicode \<Rightarrow> LuaLexer \<Rightarrow> (LuaTokenData list \<times> LuaLexer) option" where
  "tokenize_loop U lx =
     (if is_eof (reader lx) then Some ([], lx)
      else do {
        (k, lx') \<leftarrow> token_step U lx;
        if k = TkEof then Some ([], lx')
        else do {
          (tokens, lx'') \<leftarrow> tokenize_loop U lx';
          Some (token_new k (current_range (reader lx')) # tokens, lx'')
        }
      })"
  by pat_completeness auto
termination
  by (relation "measure (\<lambda>(_, lx). token_measure lx)") (auto dest: token_step_measure)

declare tokenize_loop.simps [simp del]

definition tokenize :: "Unicode \<Rightarrow> LuaLexer \<Rightarrow> (LuaTokenData list \<times> LuaLexer) option" where
  "tokenize U lx =
     (if lex_state lx = Normal \<and> cur lx = ch CHR ''#'' then
        (let lx = eat_while_lx not_newline lx;
             shebang = token_new TkShebang (current_range (reader lx))
         in do { (tokens, lx) \<leftarrow> tokenize_loop U lx; Some (shebang # tokens, lx) })
      else tokenize_loop U lx)"

definition new_with_state ::
  "Reader \<Rightarrow> LexerState \<Rightarrow> LexerConfig \<Rightarrow> LuaParseError list option \<Rightarrow> LuaLexer" where
  "new_with_state r state config errs =
     \<lparr>reader = r, lexer_config = config, lex_errors = errs, lex_state = state\<rparr>"

definition lexer_new :: "Reader \<Rightarrow> LexerConfig \<Rightarrow> LuaParseError list option \<Rightarrow> LuaLexer" where
  "lexer_new r config errs = new_with_state r Normal config errs"

text \<open>\<open>continue_with_new_reader\<close> asserts that the previous reader is exhausted.\<close>

definition continue_with_new_reader ::
  "Unicode \<Rightarrow> Reader \<Rightarrow> LuaLexer \<Rightarrow> (LuaTokenData list \<times> LuaLexer) option" where
  "continue_with_new_reader U r lx =
     (if is_eof (reader lx) then tokenize U (lx\<lparr>reader := r\<rparr>) else None)"

end
