(* ===== verification/Lexer_Tiling.thy ===== *)
theory Lexer_Tiling
  imports Lua_Tokenize
begin

text \<open>
  The contract of the lexer: on every text and configuration it returns (no panic, no
  endless loop), its tokens are non-empty, adjacent and cover the text up to the first
  code point 0, and none of them has the kind \<open>TkEof\<close> or \<open>None\<close>.
\<close>

section \<open>What a run of bumps reads\<close>

lemma fwd_valid_range: "fwd r r' \<Longrightarrow> valid_range r' = valid_range r"
  by (induction rule: fwd.induct) simp_all

lemma fwd_reading:
  assumes "fwd r r'" and "reading r before tok rest"
  shows "\<exists>pre rest'. rest = pre @ rest' \<and> 0 \<notin> set pre \<and> reading r' before (tok @ pre) rest'"
  using assms
proof (induction rule: fwd.induct)
  case (fwd_refl r)
  then show ?case by (intro exI [of _ "[]"] exI [of _ rest]) simp
next
  case (fwd_bump r r')
  then obtain pre rest' where pre: "rest = pre @ rest'" "0 \<notin> set pre"
    and rd: "reading r' before (tok @ pre) rest'" by blast
  show ?case
  proof (cases "is_eof r'")
    case True
    with pre rd show ?thesis by (metis bump_eof)
  next
    case False
    from reading_bump [OF rd this] obtain c rest'' where
      "rest' = c # rest''" "c = current_ch r'" "reading (bump r') before (tok @ pre @ [c]) rest''"
      by auto
    with pre False show ?thesis
      by (intro exI [of _ "pre @ [c]"] exI [of _ rest'']) (auto simp: is_eof_def EOF_def)
  qed
qed

lemma fwd_bump_reading:
  assumes "fwd (bump r) r'" and "reading r before tok rest" and "\<not> is_eof r"
  shows "\<exists>pre rest'. rest = pre @ rest' \<and> pre \<noteq> [] \<and> 0 \<notin> set pre \<and>
    reading r' before (tok @ pre) rest'"
proof -
  from reading_bump [OF assms(2,3)] obtain c rest1 where c: "rest = c # rest1" "c = current_ch r"
    and rd: "reading (bump r) before (tok @ [c]) rest1" by blast
  from fwd_reading [OF assms(1) rd] obtain pre rest' where
    "rest1 = pre @ rest'" "0 \<notin> set pre" "reading r' before ((tok @ [c]) @ pre) rest'" by blast
  with c assms(3) show ?thesis
    by (intro exI [of _ "c # pre"] exI [of _ rest']) (auto simp: is_eof_def EOF_def)
qed

section \<open>The state between tokens\<close>

lemma lex_string_settles:
  "lex_state (snd (lex_string q lx)) = Normal \<or> is_eof (reader (snd (lex_string q lx)))"
  by (auto simp: lex_string_def Let_def)

lemma lex_long_string_settles:
  "lex_state (snd (lex_long_string sep lx)) = Normal \<or> is_eof (reader (snd (lex_long_string sep lx)))"
  by (simp add: lex_long_string_def Let_def split_def)

lemma skip_sep_state [simp]: "lex_state (snd (skip_sep lx)) = lex_state lx"
  by (simp add: skip_sep_def split: prod.split)

lemma slash_star_state: "lex_state (snd (slash_star_body lx)) = lex_state lx"
proof (induction lx rule: slash_star_body.induct)
  case (1 lx)
  then show ?case by (subst slash_star_body.simps) (auto simp: Let_def)
qed

lemma lex_number_state: "lex_state (snd (lex_number U lx)) = lex_state lx"
proof -
  obtain state lx1 where start: "number_start lx = (state, lx1)" by fastforce
  then have "lex_state lx1 = lex_state lx"
    by (auto simp: number_start_def Let_def split: if_splits)
  moreover obtain state' r where "number_body state (reader lx1) = (state', r)" by fastforce
  ultimately show ?thesis using start by (simp add: lex_number_def Let_def)
qed

lemma lex_slash_state: "lex_state (snd (lex_slash lx)) = lex_state lx"
  by (simp add: lex_slash_def op_or_assign_def slash_star_state Let_def)

lemma arm_states:
  "lex_state (snd (lex_new_line lx)) = lex_state lx"
  "lex_state (snd (lex_white_space lx)) = lex_state lx"
  "lex_state (snd (lex_dot U lx)) = lex_state lx"
  "lex_state (snd (op_or_assign a s b lx)) = lex_state lx"
  by (simp_all add: lex_new_line_def lex_white_space_def lex_dot_def op_or_assign_def
      lex_number_state Let_def)

lemma simple_arm_states:
  "lex_state (snd (lex_assign lx)) = lex_state lx"
  "lex_state (snd (lex_tilde lx)) = lex_state lx"
  "lex_state (snd (lex_colon lx)) = lex_state lx"
  "lex_state (snd (lex_ampersand lx)) = lex_state lx"
  "lex_state (snd (lex_pipe lx)) = lex_state lx"
  "lex_state (snd (lex_exclamation lx)) = lex_state lx"
  "lex_state (snd (lex_less lx)) = lex_state lx"
  "lex_state (snd (lex_greater lx)) = lex_state lx"
  by (simp_all add: simple_arm_defs op_or_assign_def)

lemma lex_minus_settles:
  "lex_state lx = Normal \<Longrightarrow>
   lex_state (snd (lex_minus lx)) = Normal \<or> is_eof (reader (snd (lex_minus lx)))"
  using lex_long_string_settles by (auto simp: lex_minus_def Let_def split_def)

lemma lex_left_bracket_settles:
  "lex_state lx = Normal \<Longrightarrow>
   lex_state (snd (lex_left_bracket lx)) = Normal \<or> is_eof (reader (snd (lex_left_bracket lx)))"
  using lex_long_string_settles by (auto simp: lex_left_bracket_def split_def Let_def)

lemma lex_quote_settles:
  "lex_state lx = Normal \<Longrightarrow>
   lex_state (snd (lex_quote lx)) = Normal \<or> is_eof (reader (snd (lex_quote lx)))"
  using lex_string_settles by (auto simp: lex_quote_def Let_def)

lemma lex_name_state: "lex_name U lx = Some m \<Longrightarrow> lex_state (snd m) = lex_state lx"
  by (auto simp: lex_name_def Let_def bind_eq_Some_conv)

lemmas settles = lex_minus_settles lex_left_bracket_settles lex_quote_settles

lemma lex_match_settles:
  assumes "lex_state lx = Normal"
  shows "pred_option (\<lambda>m. lex_state (snd m) = Normal \<or> is_eof (reader (snd m))) (lex_match U lx)"
proof -
  have "pred_option (\<lambda>m. lex_state (snd m) = Normal \<or> is_eof (reader (snd m))) (lex_name U lx)"
    using lex_name_state assms by (auto simp: pred_option_def)
  with assms settles [OF assms] show ?thesis
    unfolding lex_match_def Let_def
    by (simp add: arm_states simple_arm_states lex_number_state lex_slash_state split: option.split)
qed

section \<open>One token\<close>

lemma lex_match_returns:
  assumes "reading (reader lx) before [] rest"
  shows "\<exists>m. lex_match U lx = Some m"
proof -
  let ?lx = "eat_while_lx (is_name_continue U) (bump_lx lx)"
  have "fwd (reader lx) (reader ?lx)" by simp
  from fwd_reading [OF this assms] obtain tok rest' where "reading (reader ?lx) before tok rest'"
    by auto
  then have "\<exists>m. lex_name U lx = Some m"
    by (simp add: lex_name_def Let_def reading_current_text)
  then show ?thesis
    by (auto simp: lex_match_def Let_def split: option.split)
qed

text \<open>
  \<open>token_reads lx k lx' p\<close>: from \<open>lx\<close> the lexer reads one token of kind \<open>k\<close> and text \<open>p\<close>.
\<close>

lemma lex_reads:
  assumes "reading (reader lx) before tok rest" and "\<not> is_eof (reader lx)" and "lex_state lx = Normal"
  shows "\<exists>k lx' p rest'. lex U lx = Some (k, lx') \<and> lexed_kind k \<and> rest = p @ rest' \<and> p \<noteq> [] \<and>
    0 \<notin> set p \<and> reading (reader lx') (before @ tok) p rest' \<and>
    valid_range (reader lx') = valid_range (reader lx) \<and>
    (lex_state lx' = Normal \<or> is_eof (reader lx'))"
proof -
  let ?lx = "lx\<lparr>reader := reset_buff (reader lx)\<rparr>"
  have rd: "reading (reader ?lx) (before @ tok) [] rest"
    using reading_reset [OF assms(1)] by simp
  from lex_match_returns [OF this] obtain k lx' where lex: "lex U lx = Some (k, lx')"
    by (force simp: lex_def)
  from lex_progress [OF this assms(2)] have fw: "fwd (bump (reader ?lx)) (reader lx')"
    and k: "lexed_kind k" by simp_all
  from fwd_bump_reading [OF fw rd] assms(2) obtain p rest' where
    "rest = p @ rest'" "p \<noteq> []" "0 \<notin> set p" "reading (reader lx') (before @ tok) p rest'"
    by auto
  moreover have "lex_state lx' = Normal \<or> is_eof (reader lx')"
    using lex_match_settles [of ?lx U] assms(3) lex by (simp add: lex_def)
  moreover have "valid_range (reader lx') = valid_range (reader lx)"
    using fwd_valid_range [OF fw] by simp
  ultimately show ?thesis using lex k by blast
qed

section \<open>All tokens\<close>

text \<open>The tokens have the texts \<open>ps\<close> and lie one after the other from byte \<open>a\<close> on.\<close>

fun token_tiles :: "nat \<Rightarrow> LuaTokenData list \<Rightarrow> rstring list \<Rightarrow> bool" where
  "token_tiles a [] [] = True"
| "token_tiles a (t # ts) (p # ps) =
     (token_range t = new_range a (blen p) \<and> token_tiles (a + blen p) ts ps)"
| "token_tiles a _ _ = False"

lemma takeWhile_prefix: "0 \<notin> set p \<Longrightarrow> takeWhile (\<lambda>c. c \<noteq> 0) (p @ q) = p @ takeWhile (\<lambda>c. c \<noteq> (0::nat)) q"
  by (induction p) auto

lemma tokenize_loop_tiles:
  assumes "reading (reader lx) before tok rest" and "lex_state lx = Normal \<or> is_eof (reader lx)"
  shows "\<exists>toks lx' ps. tokenize_loop U lx = Some (toks, lx') \<and>
    token_tiles (start_offset (valid_range (reader lx)) + blen (before @ tok)) toks ps \<and>
    concat ps = takeWhile (\<lambda>c. c \<noteq> 0) rest \<and> [] \<notin> set ps \<and> list_all (\<lambda>t. lexed_kind (kind t)) toks"
  using assms
proof (induction U lx arbitrary: before tok rest rule: tokenize_loop.induct)
  case (1 U lx)
  show ?case
  proof (cases "is_eof (reader lx)")
    case True
    with "1.prems"(1) have "hd0 rest = 0" by (simp add: reading_is_eof)
    then have "takeWhile (\<lambda>c. c \<noteq> 0) rest = []" by (cases rest) auto
    with True show ?thesis
      by (intro exI [of _ "[]"] exI [of _ lx]) (simp add: tokenize_loop.simps)
  next
    case False
    with "1.prems" have normal: "lex_state lx = Normal" by simp
    from lex_reads [OF "1.prems"(1) False normal, of U] obtain k lx' p rest' where
      lex: "lex U lx = Some (k, lx')" and k: "lexed_kind k" and rest: "rest = p @ rest'"
      and p: "p \<noteq> []" "0 \<notin> set p" and rd: "reading (reader lx') (before @ tok) p rest'"
      and vr: "valid_range (reader lx') = valid_range (reader lx)"
      and settled: "lex_state lx' = Normal \<or> is_eof (reader lx')" by blast
    have step: "token_step U lx = Some (k, lx')" using lex normal by (simp add: token_step_def)
    from k have "k \<noteq> TkEof" by (simp add: lexed_kind_def)
    from "1.IH" [OF False step refl this rd settled] obtain toks lx'' ps where
      loop: "tokenize_loop U lx' = Some (toks, lx'')"
      and tiles: "token_tiles (start_offset (valid_range (reader lx)) + blen (before @ tok) + blen p) toks ps"
      and ps: "concat ps = takeWhile (\<lambda>c. c \<noteq> 0) rest'" "[] \<notin> set ps"
        "list_all (\<lambda>t. lexed_kind (kind t)) toks"
      by (auto simp: vr add.assoc)
    let ?t = "token_new k (current_range (reader lx'))"
    have "tokenize_loop U lx = Some (?t # toks, lx'')"
      using False step loop \<open>k \<noteq> TkEof\<close> by (simp add: tokenize_loop.simps [of U lx])
    moreover have "token_tiles (start_offset (valid_range (reader lx)) + blen (before @ tok)) (?t # toks) (p # ps)"
      using tiles reading_current_range [OF rd] by (simp add: vr token_new_def)
    moreover have "concat (p # ps) = takeWhile (\<lambda>c. c \<noteq> 0) rest"
      using ps(1) takeWhile_prefix [OF p(2)] by (simp add: rest)
    ultimately show ?thesis using ps p k
      by (intro exI [of _ "?t # toks"] exI [of _ lx''] exI [of _ "p # ps"]) (auto simp: token_new_def)
  qed
qed

lemma tokenize_tiles_ex:
  "\<exists>toks lx' ps. tokenize U (lexer_new (reader_new src) cfg errs) = Some (toks, lx') \<and>
    token_tiles 0 toks ps \<and> concat ps = takeWhile (\<lambda>c. c \<noteq> 0) src \<and> [] \<notin> set ps \<and>
    list_all (\<lambda>t. lexed_kind (kind t)) toks"
proof -
  let ?lx = "lexer_new (reader_new src) cfg errs"
  have rd: "reading (reader ?lx) [] [] src" and vr: "start_offset (valid_range (reader ?lx)) = 0"
    and st: "lex_state ?lx = Normal"
    using reading_new [of src]
    by (simp_all add: lexer_new_def new_with_state_def reader_new_def new_with_range_def)
  show ?thesis
  proof (cases "cur ?lx = ch CHR ''#''")
    case False
    then show ?thesis using tokenize_loop_tiles [OF rd, of U] st vr by (simp add: tokenize_def)
  next
    case True
    let ?lx' = "eat_while_lx not_newline ?lx"
    have "fwd (bump (reader ?lx)) (reader ?lx')"
      using True eat_while_first [of "reader ?lx" not_newline]
      by (simp add: cur_def not_newline_def)
    from fwd_bump_reading [OF this rd] True obtain p rest' where
      src: "src = p @ rest'" and p: "p \<noteq> []" "0 \<notin> set p" and rd': "reading (reader ?lx') [] p rest'"
      by (auto simp: is_eof_def EOF_def cur_def)
    have vr': "start_offset (valid_range (reader ?lx')) = 0" using vr by simp
    from tokenize_loop_tiles [OF rd', of U] st vr' obtain toks lx'' ps where
      loop: "tokenize_loop U ?lx' = Some (toks, lx'')" and tiles: "token_tiles (blen p) toks ps"
      and ps: "concat ps = takeWhile (\<lambda>c. c \<noteq> 0) rest'" "[] \<notin> set ps"
        "list_all (\<lambda>t. lexed_kind (kind t)) toks"
      by auto
    let ?t = "token_new TkShebang (current_range (reader ?lx'))"
    have "tokenize U ?lx = Some (?t # toks, lx'')"
      using True loop st by (simp add: tokenize_def Let_def)
    moreover have "token_tiles 0 (?t # toks) (p # ps)"
      using tiles reading_current_range [OF rd'] vr' by (simp add: token_new_def)
    moreover have "concat (p # ps) = takeWhile (\<lambda>c. c \<noteq> 0) src"
      using ps(1) takeWhile_prefix [OF p(2)] by (simp add: src)
    ultimately show ?thesis using ps p
      by (intro exI [of _ "?t # toks"] exI [of _ lx''] exI [of _ "p # ps"]) (auto simp: token_new_def)
  qed
qed

section \<open>The interface to the parser\<close>

text \<open>The text of a token, as the tree builder slices it out of the source.\<close>

definition token_text :: "rstring \<Rightarrow> LuaTokenData \<Rightarrow> rstring option" where
  "token_text src t = slice src (start_offset (token_range t)) (end_offset (token_range t))"

lemma token_tiles_texts:
  "token_tiles (blen before) toks ps \<Longrightarrow>
   map (token_text (before @ concat ps @ rest)) toks = map Some ps"
proof (induction ps arbitrary: before toks)
  case Nil
  then show ?case by (cases toks) simp_all
next
  case (Cons p ps)
  then obtain t ts where toks: "toks = t # ts" and t: "token_range t = new_range (blen before) (blen p)"
    and ts: "token_tiles (blen (before @ p)) ts ps" by (cases toks) auto
  have "token_text (before @ p @ concat ps @ rest) t = Some p"
    by (simp add: token_text_def t slice_append)
  with Cons.IH [OF ts] toks show ?case by simp
qed

lemma token_tiles_length: "token_tiles a toks ps \<Longrightarrow> length toks = length ps"
  by (induction a toks ps rule: token_tiles.induct) auto

lemma token_tiles_start: "token_tiles a toks ps \<Longrightarrow> t \<in> set toks \<Longrightarrow> a \<le> start_offset (token_range t)"
  by (induction a toks ps rule: token_tiles.induct) fastforce+

lemma token_tiles_sorted:
  "token_tiles a toks ps \<Longrightarrow>
   sorted_wrt (\<lambda>s t. end_offset (token_range s) \<le> start_offset (token_range t)) toks"
proof (induction a toks ps rule: token_tiles.induct)
  case (2 a t ts p ps)
  then show ?case using token_tiles_start [of "a + blen p" ts ps] by auto
qed auto

text \<open>
  What the parser relies on. A token source returns on every text; its tokens tile the
  text up to the end mark, and their kinds are kinds of real tokens.
\<close>

locale token_source =
  fixes lexf :: "rstring \<Rightarrow> LuaTokenData list option"
  assumes tiles: "\<exists>toks ps. lexf src = Some toks \<and> token_tiles 0 toks ps \<and>
      concat ps = takeWhile (\<lambda>c. c \<noteq> 0) src \<and> [] \<notin> set ps \<and> list_all (\<lambda>t. lexed_kind (kind t)) toks"
begin

lemma returns: "\<exists>toks. lexf src = Some toks"
  using tiles [of src] by blast

lemma kinds: "lexf src = Some toks \<Longrightarrow> t \<in> set toks \<Longrightarrow> lexed_kind (kind t)"
  using tiles [of src] by (auto simp: list_all_iff)

lemma texts:
  assumes "lexf src = Some toks"
  shows "\<exists>ps. map (token_text src) toks = map Some ps \<and> concat ps = takeWhile (\<lambda>c. c \<noteq> 0) src \<and> [] \<notin> set ps"
proof -
  from tiles [of src] assms obtain ps where ps: "token_tiles 0 toks ps"
    "concat ps = takeWhile (\<lambda>c. c \<noteq> 0) src" "[] \<notin> set ps" by auto
  with token_tiles_texts [of "[]" toks ps "dropWhile (\<lambda>c. c \<noteq> 0) src"] show ?thesis
    by auto
qed

lemma sorted:
  "lexf src = Some toks \<Longrightarrow>
   sorted_wrt (\<lambda>s t. end_offset (token_range s) \<le> start_offset (token_range t)) toks"
  using tiles [of src] token_tiles_sorted by auto

end

definition lua_tokens :: "Unicode \<Rightarrow> LexerConfig \<Rightarrow> rstring \<Rightarrow> LuaTokenData list option" where
  "lua_tokens U cfg src = map_option fst (tokenize U (lexer_new (reader_new src) cfg (Some [])))"

interpretation lx: token_source "lua_tokens U cfg" for U cfg
proof
  fix src
  from tokenize_tiles_ex [of U src cfg "Some []"] obtain toks lx' ps where
    "tokenize U (lexer_new (reader_new src) cfg (Some [])) = Some (toks, lx')"
    "token_tiles 0 toks ps" "concat ps = takeWhile (\<lambda>c. c \<noteq> 0) src" "[] \<notin> set ps"
    "list_all (\<lambda>t. lexed_kind (kind t)) toks" by blast
  then show "\<exists>toks ps. lua_tokens U cfg src = Some toks \<and> token_tiles 0 toks ps \<and>
      concat ps = takeWhile (\<lambda>c. c \<noteq> 0) src \<and> [] \<notin> set ps \<and> list_all (\<lambda>t. lexed_kind (kind t)) toks"
    by (auto simp: lua_tokens_def)
qed

text \<open>
  C8. The lexer is total and lossless: on every text and every configuration
  \<open>LuaLexer::tokenize\<close> returns, its tokens are non-empty, and their texts, concatenated in
  order, are exactly the source up to its first code point 0.
\<close>

theorem lexer_lossless:
  "\<exists>toks ps. lua_tokens U cfg src = Some toks \<and> map (token_text src) toks = map Some ps \<and>
     concat ps = takeWhile (\<lambda>c. c \<noteq> 0) src \<and> [] \<notin> set ps"
  using lx.returns lx.texts by meson

end
