(* ===== verification/Doc_Lexer.thy ===== *)
theory Doc_Lexer
  imports Lexer_Tiling
begin

text \<open>
  \<open>crates/glua_parser/src/lexer/lua_doc_lexer.rs\<close>: the lexer of documentation comments. It runs
  over one comment token of the Lua lexer at a time; the state, set by the doc parser,
  selects how the next piece of the comment is read. The functions of the source take the
  reader out of the lexer and work on it; here they take and return a reader.
\<close>

section \<open>State\<close>

datatype LuaDocLexerState =
    DInit | DTag | DNormal | DFieldStart | DDescription | DLongDescription | DTrivia | DSee
  | DVersion | DSource | DNormalDescription | DCastExpr | DAttributeUse | DMapped | DExtends

record LuaDocLexer =
  doc_text :: rstring
  origin_token_kind :: LuaTokenKind
  doc_state :: LuaDocLexerState
  doc_reader :: "Reader option"

definition doc_lexer_new :: "rstring \<Rightarrow> LuaDocLexer" where
  "doc_lexer_new src =
     \<lparr>doc_text = src, origin_token_kind = TkNone, doc_state = DInit, doc_reader = None\<rparr>"

definition doc_is_invalid :: "LuaDocLexer \<Rightarrow> bool" where
  "doc_is_invalid lx = (case doc_reader lx of Some r \<Rightarrow> is_eof r | None \<Rightarrow> True)"

definition doc_reset :: "LuaTokenKind \<Rightarrow> SourceRange \<Rightarrow> LuaDocLexer \<Rightarrow> LuaDocLexer option" where
  "doc_reset k rng lx = do {
     piece \<leftarrow> slice (doc_text lx) (start_offset rng) (end_offset rng);
     r \<leftarrow> new_with_range piece rng;
     Some (lx\<lparr>doc_reader := Some r, origin_token_kind := k\<rparr>)
   }"

section \<open>Words\<close>

definition is_doc_whitespace :: "rchar \<Rightarrow> bool" where
  "is_doc_whitespace c \<longleftrightarrow> c = ch CHR '' '' \<or> c = tab \<or> c = carriage_return \<or> c = newline"

definition to_tag :: "rstring \<Rightarrow> LuaTokenKind" where
  "to_tag s =
     (if s = str ''class'' then TkTagClass
      else if s = str ''enum'' then TkTagEnum
      else if s = str ''interface'' then TkTagInterface
      else if s = str ''alias'' then TkTagAlias
      else if s = str ''module'' then TkTagModule
      else if s = str ''field'' then TkTagField
      else if s = str ''type'' then TkTagType
      else if s = str ''param'' then TkTagParam
      else if s = str ''return'' then TkTagReturn
      else if s = str ''return_cast'' then TkTagReturnCast
      else if s = str ''generic'' then TkTagGeneric
      else if s = str ''see'' then TkTagSee
      else if s = str ''overload'' then TkTagOverload
      else if s = str ''async'' then TkTagAsync
      else if s = str ''cast'' then TkTagCast
      else if s = str ''deprecated'' then TkTagDeprecated
      else if s = str ''private'' \<or> s = str ''protected'' \<or> s = str ''public'' \<or>
        s = str ''package'' \<or> s = str ''internal'' then TkTagVisibility
      else if s = str ''readonly'' then TkTagReadonly
      else if s = str ''diagnostic'' then TkTagDiagnostic
      else if s = str ''meta'' then TkTagMeta
      else if s = str ''version'' then TkTagVersion
      else if s = str ''as'' then TkTagAs
      else if s = str ''nodiscard'' then TkTagNodiscard
      else if s = str ''operator'' then TkTagOperator
      else if s = str ''mapping'' then TkTagMapping
      else if s = str ''namespace'' then TkTagNamespace
      else if s = str ''using'' then TkTagUsing
      else if s = str ''source'' then TkTagSource
      else if s = str ''export'' then TkTagExport
      else if s = str ''language'' then TkLanguage
      else if s = str ''attribute'' then TkTagAttribute
      else if s = str ''schema'' then TKTagSchema
      else if s = str ''realm'' then TkTagRealm
      else if s = str ''fileparam'' then TkTagFileparam
      else if s = str ''outparam'' then TkTagOutparam
      else TkTagOther)"

definition to_modification_or_name :: "rstring \<Rightarrow> LuaTokenKind" where
  "to_modification_or_name s =
     (if s = str ''private'' \<or> s = str ''protected'' \<or> s = str ''public'' \<or> s = str ''package''
      then TkDocVisibility
      else if s = str ''readonly'' then TkDocReadonly
      else TkName)"

definition to_token_or_name :: "rstring \<Rightarrow> LuaTokenKind" where
  "to_token_or_name s =
     (if s = str ''true'' then TkTrue
      else if s = str ''false'' then TkFalse
      else if s = str ''keyof'' then TkDocKeyOf
      else if s = str ''extends'' then TkDocExtends
      else if s = str ''as'' then TkDocAs
      else if s = str ''in'' then TkIn
      else if s = str ''and'' then TkAnd
      else if s = str ''or'' then TkOr
      else if s = str ''else'' then TkDocElse
      else TkName)"

definition name_joint :: "rchar \<Rightarrow> bool" where
  "name_joint c \<longleftrightarrow> c = ch CHR ''.'' \<or> c = ch CHR ''-'' \<or> c = ch CHR ''*''"

text \<open>The loop of \<open>read_doc_name\<close>; the flag is \<open>str_tpl\<close>.\<close>

function name_body :: "Unicode \<Rightarrow> bool \<Rightarrow> Reader \<Rightarrow> bool \<times> Reader" where
  "name_body U str_tpl r =
     (if is_eof r then (str_tpl, r)
      else if is_name_continue U (current_ch r) then name_body U str_tpl (bump r)
      else if name_joint (current_ch r) then
        (if name_joint (next_ch r) then (str_tpl, r) else name_body U str_tpl (bump r))
      else if current_ch r = backtick then name_body U True (bump r)
      else (str_tpl, r))"
  by pat_completeness auto
termination
  by (relation "measure (\<lambda>(_, _, r). fuel_of r)") (auto simp: is_eof_def fuel_of_bump)

declare name_body.simps [simp del]

definition read_doc_name :: "Unicode \<Rightarrow> Reader \<Rightarrow> (rstring \<times> bool \<times> Reader) option" where
  "read_doc_name U r = do {
     let (str_tpl, r) = name_body U False (bump r);
     name \<leftarrow> current_text r;
     Some (name, str_tpl, r)
   }"

definition is_source_continue :: "Unicode \<Rightarrow> rchar \<Rightarrow> bool" where
  "is_source_continue U c \<longleftrightarrow> is_name_continue U c \<or> c = ch CHR ''.'' \<or> c = ch CHR ''-'' \<or>
     c = ch CHR ''/'' \<or> c = ch CHR '' '' \<or> c = ch CHR '':'' \<or> c = ch CHR ''#'' \<or> c = backslash"

text \<open>\<open>reader.eat_while(f)\<close> where the count is not used.\<close>

definition skip_while :: "(rchar \<Rightarrow> bool) \<Rightarrow> Reader \<Rightarrow> Reader" where
  "skip_while f r = snd (eat_while f r)"

text \<open>The exponent of a number, at its letter.\<close>

definition doc_exponent :: "Reader \<Rightarrow> Reader" where
  "doc_exponent r =
     (let r = bump r;
          r = (if current_ch r = ch CHR ''+'' \<or> current_ch r = ch CHR ''-'' then bump r else r)
      in skip_while is_ascii_digit r)"

definition is_exponent_mark :: "rchar \<Rightarrow> bool" where
  "is_exponent_mark c \<longleftrightarrow> c = ch CHR ''e'' \<or> c = ch CHR ''E''"

definition lex_doc_number :: "Reader \<Rightarrow> LuaTokenKind \<times> Reader" where
  "lex_doc_number r =
     (if current_ch r = ch CHR ''0'' \<and> (next_ch r = ch CHR ''x'' \<or> next_ch r = ch CHR ''X'')
      then (TkInt, skip_while is_hex_digit (bump (bump r)))
      else
        (let r = skip_while is_ascii_digit r in
         if current_ch r = ch CHR ''.'' \<and> is_ascii_digit (next_ch r) then
           (let r = skip_while is_ascii_digit (bump r) in
            (TkFloat, if is_exponent_mark (current_ch r) then doc_exponent r else r))
         else if is_exponent_mark (current_ch r) then (TkFloat, doc_exponent r)
         else (TkInt, r)))"

section \<open>Starts of comments\<close>

text \<open>After two dashes: the bracket of a long comment, or the start of a plain comment.\<close>

definition two_dashes :: "LuaTokenKind \<Rightarrow> Reader \<Rightarrow> LuaTokenKind \<times> Reader" where
  "two_dashes origin r =
     (if origin = TkLongComment then
        (let r = bump (snd (eat_when (ch CHR ''='') (bump r))) in
         if current_ch r = ch CHR ''@'' then (TkDocLongStart, bump r) else (TkLongCommentStart, r))
      else (TkNormalStart, r))"

text \<open>After \<open>---|\<close>: the optional mark of luals.\<close>

definition continue_or :: "Reader \<Rightarrow> LuaTokenKind \<times> Reader" where
  "continue_or r =
     (let r = bump r in
      (TkDocContinueOr,
       if current_ch r = ch CHR ''+'' \<or> current_ch r = ch CHR ''>'' then bump r else r))"

text \<open>
  A \<open>-\<close> at the start of the comment. Only in descriptions does \<open>---|\<close> continue a union.
\<close>

definition dash_start :: "bool \<Rightarrow> LuaTokenKind \<Rightarrow> Reader \<Rightarrow> LuaTokenKind \<times> Reader" where
  "dash_start unions origin r =
     (let (count, r) = consume_char_n_times (ch CHR ''-'') 3 r in
      if count = 2 then two_dashes origin r
      else if count = 3 then
        (let r = skip_while is_doc_whitespace r in
         if current_ch r = ch CHR ''@'' then (TkDocStart, bump r)
         else if unions \<and> current_ch r = ch CHR ''|'' then continue_or r
         else (TkNormalStart, r))
      else (TKDocTriviaStart, skip_while (\<lambda>_. True) r))"

definition slash_start :: "Reader \<Rightarrow> LuaTokenKind \<times> Reader" where
  "slash_start r =
     (let (count, r) = consume_char_n_times (ch CHR ''/'') 3 r in
      (if 2 \<le> count then TkNormalStart else TKNonStdComment, r))"

definition lex_init :: "LuaTokenKind \<Rightarrow> Reader \<Rightarrow> LuaTokenKind \<times> Reader" where
  "lex_init origin r =
     (if current_ch r = ch CHR ''-'' \<and> is_start_of_line r then dash_start False origin r
      else if current_ch r = ch CHR ''/'' \<and> is_start_of_line r then slash_start r
      else (TkDocTrivia, skip_while (\<lambda>_. True) r))"

section \<open>The states of the lexer\<close>

definition doc_white_space :: "Reader \<Rightarrow> LuaTokenKind \<times> Reader" where
  "doc_white_space r = (TkWhitespace, skip_while is_doc_whitespace r)"

text \<open>\<open>lex_tag\<close> also returns the state it leaves the lexer in.\<close>

definition lex_tag :: "Unicode \<Rightarrow> Reader \<Rightarrow> (LuaTokenKind \<times> LuaDocLexerState \<times> Reader) option" where
  "lex_tag U r =
     (if is_doc_whitespace (current_ch r) then Some (TkWhitespace, DTag, skip_while is_doc_whitespace r)
      else if is_name_start U (current_ch r) then do {
        let r = skip_while (is_name_continue U) (bump r);
        name \<leftarrow> current_text r;
        Some (to_tag name, DTag, r)
      }
      else if current_ch r = ch CHR ''['' then Some (TkDocAttributeUse, DAttributeUse, bump r)
      else if current_ch r = ch CHR ''<'' then Some (TkCallGeneric, DTag, bump r)
      else Some (TkDocTrivia, DTag, skip_while (\<lambda>_. True) r))"

definition doc_char_token :: "rchar \<Rightarrow> LuaTokenKind option" where
  "doc_char_token c =
     (if c = ch CHR '':'' then Some TkColon
      else if c = ch CHR '','' then Some TkComma
      else if c = ch CHR '';'' then Some TkSemicolon
      else if c = ch CHR ''('' then Some TkLeftParen
      else if c = ch CHR '')'' then Some TkRightParen
      else if c = ch CHR ''['' then Some TkLeftBracket
      else if c = ch CHR ''{'' then Some TkLeftBrace
      else if c = ch CHR ''}'' then Some TkRightBrace
      else if c = ch CHR ''<'' then Some TkLt
      else if c = ch CHR ''>'' then Some TkGt
      else if c = ch CHR ''|'' then Some TkDocOr
      else if c = ch CHR ''&'' then Some TkDocAnd
      else if c = ch CHR ''?'' then Some TkDocQuestion
      else if c = ch CHR ''='' then Some TkDocMatch
      else if c = ch CHR ''+'' then Some TkPlus
      else None)"

definition normal_dot :: "Reader \<Rightarrow> LuaTokenKind \<times> Reader" where
  "normal_dot r =
     (let r = bump r in
      if current_ch r = ch CHR ''.'' \<and> next_ch r = ch CHR ''.'' then (TkDots, bump (bump r))
      else (TkDot, r))"

definition normal_bracket :: "LuaTokenKind \<Rightarrow> Reader \<Rightarrow> LuaTokenKind \<times> Reader" where
  "normal_bracket origin r =
     (let r = bump r in
      if origin = TkLongComment \<and> current_ch r = ch CHR ''=''
      then (TkLongCommentEnd, bump (snd (eat_when (ch CHR ''='') r)))
      else if origin = TkLongComment \<and> current_ch r = ch CHR '']'' then (TkLongCommentEnd, bump r)
      else (TkRightBracket, r))"

definition normal_dash :: "Reader \<Rightarrow> LuaTokenKind \<times> Reader" where
  "normal_dash r =
     (let (count, r) = eat_when (ch CHR ''-'') r in
      if count = 1 then (TkMinus, r)
      else if count = 3 then
        (let r = skip_while is_doc_whitespace r in
         if current_ch r = ch CHR ''@'' then (TkDocStart, bump r)
         else if current_ch r = ch CHR ''|'' then continue_or r
         else (TkDocContinue, r))
      else (TkDocTrivia, r))"

definition normal_at :: "Reader \<Rightarrow> LuaTokenKind \<times> Reader" where
  "normal_at r =
     (let r = bump r in
      if current_ch r = ch CHR ''['' then (TkDocAttributeUse, bump r)
      else (TkDocDetail, skip_while (\<lambda>_. True) r))"

definition quoted_string :: "Reader \<Rightarrow> LuaTokenKind \<times> Reader" where
  "quoted_string r =
     (let c = current_ch r; r = skip_while (\<lambda>x. x \<noteq> c) (bump r) in
      (TkString, if current_ch r = c then bump r else r))"

definition is_quote :: "rchar \<Rightarrow> bool" where
  "is_quote c \<longleftrightarrow> c = double_quote \<or> c = single_quote"

definition lex_normal :: "Unicode \<Rightarrow> LuaTokenKind \<Rightarrow> Reader \<Rightarrow> (LuaTokenKind \<times> Reader) option" where
  "lex_normal U origin r =
     (let c = current_ch r in
      if is_doc_whitespace c then Some (doc_white_space r)
      else if c = ch CHR ''.'' then Some (normal_dot r)
      else if c = ch CHR '']'' then Some (normal_bracket origin r)
      else if c = ch CHR ''-'' then Some (normal_dash r)
      else if c = ch CHR ''#'' then Some (TkDocDetail, skip_while (\<lambda>_. True) r)
      else if c = ch CHR ''@'' then Some (normal_at r)
      else (case doc_char_token c of
              Some k \<Rightarrow> Some (k, bump r)
            | None \<Rightarrow>
                if is_ascii_digit c then Some (lex_doc_number r)
                else if is_quote c then Some (quoted_string r)
                else if is_name_start U c \<or> c = backtick then do {
                  (name, str_tpl, r) \<leftarrow> read_doc_name U r;
                  Some (if str_tpl then TkStringTemplateType else to_token_or_name name, r)
                }
                else Some (TkDocTrivia, skip_while (\<lambda>_. True) r)))"

text \<open>The states that only read names in their own way and leave the rest to \<open>lex_normal\<close>.\<close>

definition name_or ::
  "Unicode \<Rightarrow> (rstring \<Rightarrow> LuaTokenKind) \<Rightarrow> Reader \<Rightarrow> (LuaTokenKind \<times> Reader) option
     \<Rightarrow> (LuaTokenKind \<times> Reader) option" where
  "name_or U kind_of r other =
     (if is_name_start U (current_ch r) then do {
        (name, _, r) \<leftarrow> read_doc_name U r;
        Some (kind_of name, r)
      }
      else other)"

definition lex_field_start :: "Unicode \<Rightarrow> LuaTokenKind \<Rightarrow> Reader \<Rightarrow> (LuaTokenKind \<times> Reader) option" where
  "lex_field_start U origin r = name_or U to_modification_or_name r (lex_normal U origin r)"

definition lex_description :: "LuaTokenKind \<Rightarrow> Reader \<Rightarrow> LuaTokenKind \<times> Reader" where
  "lex_description origin r =
     (if is_doc_whitespace (current_ch r) then doc_white_space r
      else if current_ch r = ch CHR ''-'' \<and> is_start_of_line r then dash_start True origin r
      else (TkDocDetail, skip_while (\<lambda>_. True) r))"

text \<open>
  \<open>while reader.get_current_end_pos() < end_pos { reader.bump(); }\<close>; \<open>bump\<close> does not move at
  the end mark, so a position behind one is never reached.
\<close>

partial_function (option) bump_to :: "nat \<Rightarrow> Reader \<Rightarrow> Reader option" where
  "bump_to end_pos r =
     (if get_current_end_pos r < end_pos then bump_to end_pos (bump r) else Some r)"

definition closing_count :: "rstring \<Rightarrow> nat" where
  "closing_count s = length (takeWhile (\<lambda>c. c = ch CHR '']'' \<or> c = ch CHR ''='') (rev s))"

definition lex_long_description :: "Reader \<Rightarrow> (LuaTokenKind \<times> Reader) option" where
  "lex_long_description r =
     (let end_pos = blen (rtext r) - closing_count (rtext r) in
      if get_current_end_pos r < end_pos then do {
        r \<leftarrow> bump_to end_pos r;
        Some (TkDocDetail, r)
      }
      else Some (TkDocTrivia, skip_while (\<lambda>_. True) r))"

definition lex_trivia :: "Reader \<Rightarrow> LuaTokenKind \<times> Reader" where
  "lex_trivia r = (TkDocTrivia, skip_while (\<lambda>_. True) r)"

definition lex_see :: "Reader \<Rightarrow> LuaTokenKind \<times> Reader" where
  "lex_see r =
     (if current_ch r = ch CHR '' '' \<or> current_ch r = tab then doc_white_space r
      else (TkDocSeeContent, skip_while (\<lambda>_. True) r))"

definition relation_token :: "LuaTokenKind \<Rightarrow> LuaTokenKind \<Rightarrow> Reader \<Rightarrow> LuaTokenKind \<times> Reader" where
  "relation_token strict weak r =
     (let r = bump r in if current_ch r = ch CHR ''='' then (weak, bump r) else (strict, r))"

definition lex_version :: "Unicode \<Rightarrow> LuaTokenKind \<Rightarrow> Reader \<Rightarrow> (LuaTokenKind \<times> Reader) option" where
  "lex_version U origin r =
     (let c = current_ch r in
      if c = ch CHR '','' then Some (TkComma, bump r)
      else if c = ch CHR ''>'' then Some (relation_token TkGt TkGe r)
      else if c = ch CHR ''<'' then Some (relation_token TkLt TkLe r)
      else if is_doc_whitespace c then Some (doc_white_space r)
      else if is_ascii_digit c
      then Some (TkDocVersionNumber, skip_while (\<lambda>x. is_ascii_digit x \<or> x = ch CHR ''.'') r)
      else name_or U (\<lambda>name. if name = str ''JIT'' then TkDocVersionNumber else TkName) r
             (lex_normal U origin r))"

definition lex_source :: "Unicode \<Rightarrow> LuaTokenKind \<Rightarrow> Reader \<Rightarrow> (LuaTokenKind \<times> Reader) option" where
  "lex_source U origin r =
     (let c = current_ch r in
      if is_doc_whitespace c then Some (doc_white_space r)
      else if is_name_start U c then Some (TKDocPath, skip_while (is_source_continue U) (bump r))
      else if is_quote c then
        (let r = skip_while (\<lambda>x. \<not> is_quote x) (bump r) in
         Some (TKDocPath, if is_quote (current_ch r) then bump r else r))
      else lex_normal U origin r)"

definition region_kind :: "rstring \<Rightarrow> LuaTokenKind option" where
  "region_kind s =
     (if s = str ''region'' \<or> s = str ''#region'' then Some TkDocRegion
      else if s = str ''endregion'' \<or> s = str ''#endregion'' then Some TkDocEndRegion
      else None)"

definition lex_normal_description :: "LuaTokenKind \<Rightarrow> Reader \<Rightarrow> (LuaTokenKind \<times> Reader) option" where
  "lex_normal_description origin r =
     (let c = current_ch r in
      if is_doc_whitespace c then Some (doc_white_space r)
      else if is_ascii_alpha c \<or> c = ch CHR ''#'' then do {
        let r = (if current_ch r = ch CHR ''#'' then bump r else r);
        let r = skip_while is_ascii_alpha r;
        word \<leftarrow> current_text r;
        Some (case region_kind word of
                Some k \<Rightarrow> (k, r)
              | None \<Rightarrow> (TkDocDetail, skip_while (\<lambda>_. True) r))
      }
      else if c = ch CHR ''-'' \<and> is_start_of_line r then Some (dash_start False origin r)
      else if c = ch CHR ''/'' \<and> is_start_of_line r then Some (slash_start r)
      else Some (TkDocDetail, skip_while (\<lambda>_. True) r))"

definition lex_cast_expr :: "Unicode \<Rightarrow> LuaTokenKind \<Rightarrow> Reader \<Rightarrow> (LuaTokenKind \<times> Reader) option" where
  "lex_cast_expr U origin r =
     (let c = current_ch r in
      if is_doc_whitespace c then Some (doc_white_space r)
      else if c = ch CHR ''.'' then Some (TkDot, bump r)
      else if is_name_start U c then Some (TkName, skip_while (is_name_continue U) (bump r))
      else lex_normal U origin r)"

definition attribute_char :: "rchar \<Rightarrow> LuaTokenKind option" where
  "attribute_char c =
     (if c = ch CHR ''('' then Some TkLeftParen
      else if c = ch CHR '')'' then Some TkRightParen
      else if c = ch CHR '','' then Some TkComma
      else if c = ch CHR '']'' then Some TkRightBracket
      else None)"

definition attribute_word :: "rstring \<Rightarrow> LuaTokenKind" where
  "attribute_word s =
     (if s = str ''nil'' then TkNil
      else if s = str ''true'' then TkTrue
      else if s = str ''false'' then TkFalse
      else TkName)"

definition lex_attribute_use :: "Unicode \<Rightarrow> Reader \<Rightarrow> (LuaTokenKind \<times> Reader) option" where
  "lex_attribute_use U r =
     (let c = current_ch r in
      if is_doc_whitespace c then Some (doc_white_space r)
      else (case attribute_char c of
              Some k \<Rightarrow> Some (k, bump r)
            | None \<Rightarrow>
                if is_quote c then Some (quoted_string r)
                else if is_ascii_digit c then Some (lex_doc_number r)
                else if is_name_start U c then do {
                  let r = skip_while (is_name_continue U) (bump r);
                  name \<leftarrow> current_text r;
                  Some (attribute_word name, r)
                }
                else Some (TkDocTrivia, bump r)))"

definition lex_mapped :: "Unicode \<Rightarrow> LuaTokenKind \<Rightarrow> Reader \<Rightarrow> (LuaTokenKind \<times> Reader) option" where
  "lex_mapped U origin r =
     (if is_doc_whitespace (current_ch r) then Some (doc_white_space r)
      else name_or U (\<lambda>name. if name = str ''readonly'' then TkDocReadonly else TkName) r
             (lex_normal U origin r))"

definition extends_word :: "rstring \<Rightarrow> LuaTokenKind" where
  "extends_word s =
     (if s = str ''true'' then TkTrue
      else if s = str ''false'' then TkFalse
      else if s = str ''nil'' then TkNil
      else if s = str ''new'' then TkDocNew
      else TkName)"

definition lex_extends :: "Unicode \<Rightarrow> LuaTokenKind \<Rightarrow> Reader \<Rightarrow> (LuaTokenKind \<times> Reader) option" where
  "lex_extends U origin r =
     (if is_doc_whitespace (current_ch r) then Some (doc_white_space r)
      else name_or U extends_word r (lex_normal U origin r))"

text \<open>The match of \<open>lex\<close> on the state.\<close>

definition doc_lex_match ::
  "Unicode \<Rightarrow> LuaTokenKind \<Rightarrow> LuaDocLexerState \<Rightarrow> Reader \<Rightarrow> (LuaTokenKind \<times> LuaDocLexerState \<times> Reader) option" where
  "doc_lex_match U origin state r =
     (let keep = map_option (\<lambda>(k, r). (k, state, r)) in
      case state of
        DInit \<Rightarrow> keep (Some (lex_init origin r))
      | DTag \<Rightarrow> lex_tag U r
      | DNormal \<Rightarrow> keep (lex_normal U origin r)
      | DFieldStart \<Rightarrow> keep (lex_field_start U origin r)
      | DDescription \<Rightarrow> keep (Some (lex_description origin r))
      | DLongDescription \<Rightarrow> keep (lex_long_description r)
      | DTrivia \<Rightarrow> keep (Some (lex_trivia r))
      | DSee \<Rightarrow> keep (Some (lex_see r))
      | DVersion \<Rightarrow> keep (lex_version U origin r)
      | DSource \<Rightarrow> keep (lex_source U origin r)
      | DNormalDescription \<Rightarrow> keep (lex_normal_description origin r)
      | DCastExpr \<Rightarrow> keep (lex_cast_expr U origin r)
      | DAttributeUse \<Rightarrow> keep (lex_attribute_use U r)
      | DMapped \<Rightarrow> keep (lex_mapped U origin r)
      | DExtends \<Rightarrow> keep (lex_extends U origin r))"

definition doc_lex :: "Unicode \<Rightarrow> LuaDocLexer \<Rightarrow> (LuaTokenKind \<times> LuaDocLexer) option" where
  "doc_lex U lx = do {
     r \<leftarrow> doc_reader lx;
     let r = reset_buff r;
     if is_eof r then Some (TkEof, lx\<lparr>doc_reader := Some r\<rparr>)
     else do {
       (k, state, r) \<leftarrow> doc_lex_match U (origin_token_kind lx) (doc_state lx) r;
       Some (k, lx\<lparr>doc_reader := Some r, doc_state := state\<rparr>)
     }
   }"

definition doc_token_range :: "LuaDocLexer \<Rightarrow> SourceRange option" where
  "doc_token_range lx = map_option current_range (doc_reader lx)"

end
