(* ===== verification/Marker.thy ===== *)
theory Marker
  imports Kinds Parse_Error
begin

text \<open>
  \<open>crates/glua_parser/src/parser/marker.rs\<close>: the parser does not build a tree, it appends
  events to a list. A marker is the index of a \<open>NodeStart\<close> event; completing it appends a
  \<open>NodeEnd\<close>, and \<open>precede\<close> wraps a finished node by pointing its start at a later start event.

  The trait \<open>MarkerEventContainer\<close> (an event list and a mark level, which both parsers
  implement) is the record \<open>marks\<close>: the operations work on every extension of it.
\<close>

section \<open>Events\<close>

datatype MarkEvent =
    NodeStart LuaSyntaxKind nat
  | EatToken LuaTokenKind SourceRange
  | NodeEnd
  | Trivia

definition none_event :: MarkEvent where
  "none_event = NodeStart SkNone 0"

record marks =
  events :: "MarkEvent list"
  mark_level :: nat

definition push_event :: "MarkEvent \<Rightarrow> 'a marks_scheme \<Rightarrow> 'a marks_scheme" where
  "push_event e p = p\<lparr>events := events p @ [e]\<rparr>"

section \<open>Markers\<close>

datatype Marker = Marker (position: nat)

record CompleteMarker =
  cm_start :: nat
  cm_kind :: LuaSyntaxKind

definition mark :: "LuaSyntaxKind \<Rightarrow> 'a marks_scheme \<Rightarrow> Marker \<times> 'a marks_scheme" where
  "mark k p =
     (Marker (length (events p)),
      p\<lparr>events := events p @ [NodeStart k 0], mark_level := mark_level p + 1\<rparr>)"

text \<open>The level is a \<open>usize\<close>: decrementing it at 0 panics.\<close>

definition push_node_end :: "'a marks_scheme \<Rightarrow> 'a marks_scheme option" where
  "push_node_end p =
     (if mark_level p = 0 then None
      else Some (p\<lparr>events := events p @ [NodeEnd], mark_level := mark_level p - 1\<rparr>))"

text \<open>
  The updates of one event all panic when the index is out of range or the event is no
  \<open>NodeStart\<close>.
\<close>

definition start_at :: "MarkEvent list \<Rightarrow> nat \<Rightarrow> (LuaSyntaxKind \<times> nat) option" where
  "start_at es i =
     (if i < length es then (case es ! i of NodeStart k q \<Rightarrow> Some (k, q) | _ \<Rightarrow> None) else None)"

definition set_kind :: "Marker \<Rightarrow> LuaSyntaxKind \<Rightarrow> 'a marks_scheme \<Rightarrow> 'a marks_scheme option" where
  "set_kind m k p = do {
     (_, parent) \<leftarrow> start_at (events p) (position m);
     Some (p\<lparr>events := (events p)[position m := NodeStart k parent]\<rparr>)
   }"

definition complete :: "Marker \<Rightarrow> 'a marks_scheme \<Rightarrow> (CompleteMarker \<times> 'a marks_scheme) option" where
  "complete m p = do {
     (k, parent) \<leftarrow> start_at (events p) (position m);
     if length (events p) = position m + 1 then
       Some (\<lparr>cm_start = 0, cm_kind = SkNone\<rparr>,
             p\<lparr>events := (events p)[position m := NodeStart SkNone parent]\<rparr>)
     else do {
       p' \<leftarrow> push_node_end p;
       Some (\<lparr>cm_start = position m, cm_kind = k\<rparr>, p')
     }
   }"

definition undo :: "Marker \<Rightarrow> 'a marks_scheme \<Rightarrow> (CompleteMarker \<times> 'a marks_scheme) option" where
  "undo m p = do {
     (_, parent) \<leftarrow> start_at (events p) (position m);
     Some (\<lparr>cm_start = position m, cm_kind = SkNone\<rparr>,
           p\<lparr>events := (events p)[position m := NodeStart SkNone parent]\<rparr>)
   }"

definition precede ::
  "CompleteMarker \<Rightarrow> LuaSyntaxKind \<Rightarrow> 'a marks_scheme \<Rightarrow> (Marker \<times> 'a marks_scheme) option" where
  "precede cm k p =
     (let (m, p) = mark k p in
      do {
        (k', _) \<leftarrow> start_at (events p) (cm_start cm);
        let p = p\<lparr>events := (events p)[cm_start cm := NodeStart k' (position m)]\<rparr>;
        Some (m, push_event Trivia p)
      })"

definition empty_marker :: CompleteMarker where
  "empty_marker = \<lparr>cm_start = 0, cm_kind = SkNone\<rparr>"

definition is_invalid :: "CompleteMarker \<Rightarrow> bool" where
  "is_invalid cm \<longleftrightarrow> cm_kind cm = SkNone"

end
