(* ===== verification/Lua_Parser.thy ===== *)
theory Lua_Parser
  imports Marker Lexer_Tiling
begin

text \<open>
  \<open>crates/glua_parser/src/parser/lua_parser.rs\<close> and \<open>parser_config.rs\<close>: the parser state, its
  token cursor, and the treatment of trivia (white space, line ends, comments) between
  tokens. Comments are handed to the documentation parser (\<open>LuaDocParser::parse\<close>) when the
  configuration asks for it; that parser is the argument \<open>dp\<close> of the definitions here.
\<close>

section \<open>Configuration\<close>

datatype SpecialFunction = SpNone | SpRequire | SpError | SpAssert | SpType | SpSetmetaatable

record ParserConfig =
  level :: LuaLanguageLevel
  cfg_lexer :: LexerConfig
  special_like :: "rstring \<rightharpoonup> SpecialFunction"
  enable_emmylua_doc :: bool

definition config_new ::
  "LuaLanguageLevel \<Rightarrow> (rstring \<rightharpoonup> SpecialFunction) \<Rightarrow> LuaNonStdSymbolSet \<Rightarrow> bool \<Rightarrow> ParserConfig" where
  "config_new lvl special symbols doc =
     \<lparr>level = lvl, cfg_lexer = \<lparr>language_level = lvl, non_std_symbols = symbols\<rparr>,
      special_like = special, enable_emmylua_doc = doc\<rparr>"

definition with_level :: "LuaLanguageLevel \<Rightarrow> ParserConfig" where
  "with_level lvl = config_new lvl Map.empty symbol_set_new True"

definition default_config :: ParserConfig where
  "default_config = with_level LuaJIT"

definition support_local_attrib :: "ParserConfig \<Rightarrow> bool" where
  "support_local_attrib c \<longleftrightarrow> False"

definition support_emmylua_doc :: "ParserConfig \<Rightarrow> bool" where
  "support_emmylua_doc c \<longleftrightarrow> enable_emmylua_doc c"

definition support_named_var_args :: "ParserConfig \<Rightarrow> bool" where
  "support_named_var_args c \<longleftrightarrow> False"

definition get_special_function :: "ParserConfig \<Rightarrow> rstring \<Rightarrow> SpecialFunction" where
  "get_special_function c name =
     (if name = str ''require'' then SpRequire
      else if name = str ''error'' then SpError
      else if name = str ''assert'' then SpAssert
      else if name = str ''type'' then SpType
      else if name = str ''setmetatable'' then SpSetmetaatable
      else (case special_like c name of Some f \<Rightarrow> f | None \<Rightarrow> SpNone))"

section \<open>Parser state\<close>

record LuaParser = marks +
  origin_text :: rstring
  tokens :: "LuaTokenData list"
  token_index :: nat
  current_token :: LuaTokenKind
  parse_config :: ParserConfig
  errors :: "LuaParseError list"

type_synonym doc_parser = "LuaTokenData list \<Rightarrow> LuaParser \<Rightarrow> LuaParser option"

definition is_trivia_kind :: "LuaTokenKind \<Rightarrow> bool" where
  "is_trivia_kind k \<longleftrightarrow>
     k \<in> set [TkShortComment, TkLongComment, TkEndOfLine, TkWhitespace, TkShebang]"

definition is_invalid_kind :: "LuaTokenKind \<Rightarrow> bool" where
  "is_invalid_kind k \<longleftrightarrow>
     k \<in> set [TkNone, TkEof, TkWhitespace, TkShebang, TkEndOfLine, TkShortComment, TkLongComment]"

definition push_error :: "string \<Rightarrow> SourceRange \<Rightarrow> LuaParser \<Rightarrow> LuaParser" where
  "push_error msg rng p = p\<lparr>errors := errors p @ [syntax_error_from (str msg) rng]\<rparr>"

definition has_error :: "LuaParser \<Rightarrow> bool" where
  "has_error p \<longleftrightarrow> errors p \<noteq> []"

text \<open>\<open>self.events.push(MarkEvent::EatToken { .. })\<close>\<close>

definition eat :: "LuaTokenData \<Rightarrow> LuaParser \<Rightarrow> LuaParser" where
  "eat t p = push_event (EatToken (kind t) (token_range t)) p"

definition current_token_range :: "LuaParser \<Rightarrow> SourceRange" where
  "current_token_range p =
     (if token_index p \<ge> length (tokens p) then
        (if tokens p = [] then EMPTY
         else token_range (tokens p ! (length (tokens p) - 1)))
      else token_range (tokens p ! token_index p))"

text \<open>The search for the token before the cursor that is no trivia.\<close>

fun prev_index_from :: "LuaTokenData list \<Rightarrow> nat \<Rightarrow> nat" where
  "prev_index_from ts 0 = 0"
| "prev_index_from ts (Suc i) =
     (if is_trivia_kind (kind (ts ! Suc i)) then prev_index_from ts i else Suc i)"

definition previous_token_range :: "LuaParser \<Rightarrow> SourceRange" where
  "previous_token_range p =
     (if token_index p = 0 \<or> tokens p = [] then EMPTY
      else
        (let prev_index = prev_index_from (tokens p) (token_index p - 1) in
         if prev_index < length (tokens p) \<and> \<not> is_trivia_kind (kind (tokens p ! prev_index))
         then token_range (tokens p ! prev_index)
         else if prev_index = 0 then token_range (tokens p ! 0)
         else EMPTY))"

definition current_token_text :: "LuaParser \<Rightarrow> rstring option" where
  "current_token_text p =
     (if token_index p < length (tokens p)
      then token_text (origin_text p) (tokens p ! token_index p) else None)"

definition set_current_token_kind :: "LuaTokenKind \<Rightarrow> LuaParser \<Rightarrow> LuaParser" where
  "set_current_token_kind k p =
     (if token_index p < length (tokens p)
      then p\<lparr>tokens := (tokens p)[token_index p := (tokens p ! token_index p)\<lparr>kind := k\<rparr>],
             current_token := k\<rparr>
      else p)"

section \<open>Trivia\<close>

function skip_trivia :: "LuaTokenData list \<Rightarrow> nat \<Rightarrow> nat" where
  "skip_trivia ts index =
     (if index < length ts \<and> is_trivia_kind (kind (ts ! index))
      then skip_trivia ts (index + 1) else index)"
  by pat_completeness auto
termination
  by (relation "measure (\<lambda>(ts, i). length ts - i)") auto

declare skip_trivia.simps [simp del]

text \<open>
  \<open>comment_tail\<close> is the index where the run of white space and line ends at the end of a
  comment group starts (the reverse loop of \<open>parse_comments\<close>).
\<close>

definition comment_tail :: "LuaTokenData list \<Rightarrow> nat" where
  "comment_tail ts =
     length ts - length (takeWhile (\<lambda>t. kind t = TkWhitespace \<or> kind t = TkEndOfLine) (rev ts))"

definition parse_comments :: "doc_parser \<Rightarrow> LuaTokenData list \<Rightarrow> LuaParser \<Rightarrow> LuaParser option" where
  "parse_comments dp comment_tokens p =
     (if \<not> support_emmylua_doc (parse_config p) then Some (fold eat comment_tokens p)
      else do {
        let trivia_token_start = comment_tail comment_tokens;
        p \<leftarrow> dp (take trivia_token_start comment_tokens) p;
        Some (fold eat (drop trivia_token_start comment_tokens) p)
      })"

text \<open>
  Whether the comment that ends the line before token \<open>i\<close> follows code on that line:
  \<open>inline_from ts n\<close> looks at the tokens \<open>n - 1, n - 2, ...\<close>.
\<close>

fun inline_from :: "LuaTokenData list \<Rightarrow> nat \<Rightarrow> bool" where
  "inline_from ts 0 = False"
| "inline_from ts (Suc i) =
     (if kind (ts ! i) = TkEndOfLine then False
      else if kind (ts ! i) = TkWhitespace then inline_from ts i
      else True)"

text \<open>One token of \<open>parse_trivia_tokens\<close>; the state is the line count and the open comment group.\<close>

definition trivia_step ::
  "doc_parser \<Rightarrow> nat \<Rightarrow> nat \<times> LuaTokenData list \<times> LuaParser
     \<Rightarrow> (nat \<times> LuaTokenData list \<times> LuaParser) option" where
  "trivia_step dp i s =
     (case s of (line_count, doc_tokens, p) \<Rightarrow>
      if length (tokens p) \<le> i then None
      else
        (let token = tokens p ! i in
         if kind token = TkShortComment \<or> kind token = TkLongComment
         then Some (0, doc_tokens @ [token], p)
         else if kind token = TkEndOfLine then
           (let line_count = line_count + 1;
                p = (if doc_tokens = [] then eat token p else p);
                doc_tokens = (if doc_tokens = [] then [] else doc_tokens @ [token])
            in if line_count > 1 \<and> doc_tokens \<noteq> [] then do {
                 p \<leftarrow> parse_comments dp doc_tokens p;
                 Some (line_count, [], p)
               }
               else if length doc_tokens = 2 \<and> i \<ge> 2 then
                 (if inline_from (tokens p) (i - 1) then do {
                    p \<leftarrow> parse_comments dp doc_tokens p;
                    Some (line_count, [], p)
                  }
                  else Some (line_count, doc_tokens, p))
               else Some (line_count, doc_tokens, p))
         else if kind token = TkShebang \<or> kind token = TkWhitespace then
           (if doc_tokens = [] then Some (line_count, [], eat token p)
            else Some (line_count, doc_tokens @ [token], p))
         else
           (if doc_tokens \<noteq> [] then do {
              p \<leftarrow> parse_comments dp doc_tokens p;
              Some (line_count, [], p)
            }
            else Some (line_count, [], p))))"

fun trivia_loop ::
  "doc_parser \<Rightarrow> nat list \<Rightarrow> nat \<times> LuaTokenData list \<times> LuaParser
     \<Rightarrow> (nat \<times> LuaTokenData list \<times> LuaParser) option" where
  "trivia_loop dp [] s = Some s"
| "trivia_loop dp (i # is) s = do { s \<leftarrow> trivia_step dp i s; trivia_loop dp is s }"

definition parse_trivia_tokens :: "doc_parser \<Rightarrow> nat \<Rightarrow> LuaParser \<Rightarrow> LuaParser option" where
  "parse_trivia_tokens dp next_index p = do {
     (_, doc_tokens, p) \<leftarrow> trivia_loop dp [token_index p ..< next_index] (0, [], p);
     if doc_tokens \<noteq> [] then parse_comments dp doc_tokens p else Some p
   }"

section \<open>The token cursor\<close>

definition pbump :: "doc_parser \<Rightarrow> LuaParser \<Rightarrow> LuaParser option" where
  "pbump dp p = do {
     let p = (if \<not> is_invalid_kind (current_token p) \<and> token_index p < length (tokens p)
              then eat (tokens p ! token_index p) p else p);
     let next_index = skip_trivia (tokens p) (token_index p + 1);
     p \<leftarrow> parse_trivia_tokens dp next_index p;
     let p = p\<lparr>token_index := next_index\<rparr>;
     Some (p\<lparr>current_token :=
       (if token_index p \<ge> length (tokens p) then TkEof
        else kind (tokens p ! token_index p))\<rparr>)
   }"

definition peek_next_token :: "LuaParser \<Rightarrow> LuaTokenKind" where
  "peek_next_token p =
     (let next_index = skip_trivia (tokens p) (token_index p + 1) in
      if next_index \<ge> length (tokens p) then TkNone else kind (tokens p ! next_index))"

definition init :: "doc_parser \<Rightarrow> LuaParser \<Rightarrow> LuaParser option" where
  "init dp p =
     (let p = p\<lparr>current_token := (if tokens p = [] then TkEof else kind (tokens p ! 0))\<rparr> in
      if is_trivia_kind (current_token p) then pbump dp p else Some p)"

end
