(* ===== verification/Grammar_Base.thy ===== *)
theory Grammar_Base
  imports Lua_Parser
begin

text \<open>
  \<open>crates/glua_parser/src/grammar/mod.rs\<close> and the helpers of \<open>grammar/lua/mod.rs\<close>: results, the
  stack guard, and the steps every grammar function is made of.

  Recursion. \<open>parse_sub_expr\<close> and \<open>parse_block\<close> are the two functions through which the grammar
  recurses, and the two that ask \<open>parser_stack_exhausted\<close> first. Every grammar function takes
  an environment \<open>E\<close> that holds these two (the calls one level deeper) and the documentation
  parser; the theory of the statements ties the knot.
\<close>

section \<open>Results and the stack guard (grammar/mod.rs)\<close>

datatype ParseFailReason = FailEof | UnexpectedToken

datatype 'a res = Ok 'a | Err ParseFailReason

type_synonym ParseResult = "CompleteMarker res"

text \<open>\<open>stacker::remaining_stack()\<close> is the argument: the bytes left, or \<open>None\<close> when unknown.\<close>

definition parser_stack_exhausted :: "nat option \<Rightarrow> bool" where
  "parser_stack_exhausted remaining_stack =
     (case remaining_stack of Some remaining \<Rightarrow> remaining < 256 * 1024 | None \<Rightarrow> True)"

record env =
  doc_parse :: doc_parser
  sub_expr :: "int \<Rightarrow> LuaParser \<Rightarrow> (ParseResult \<times> LuaParser) option"
  block :: "LuaParser \<Rightarrow> (ParseResult \<times> LuaParser) option"

section \<open>Steps\<close>

text \<open>
  \<open>p.mark\<close> and \<open>p.push_error\<close> as runs, so that a grammar function is one sequence of binds.
\<close>

definition mark_p :: "LuaSyntaxKind \<Rightarrow> LuaParser \<Rightarrow> (Marker \<times> LuaParser) option" where
  "mark_p k p = Some (mark k p)"

definition report :: "string \<Rightarrow> SourceRange \<Rightarrow> LuaParser \<Rightarrow> LuaParser option" where
  "report msg rng p = Some (push_error msg rng p)"

abbreviation bump_p :: "env \<Rightarrow> LuaParser \<Rightarrow> LuaParser option" where
  "bump_p E p \<equiv> pbump (doc_parse E) p"

definition quoted :: "string \<Rightarrow> string" where
  "quoted s = [CHR 0x27] @ s @ [CHR 0x27]"

section \<open>Helpers (grammar/lua/mod.rs)\<close>

definition expect_token :: "env \<Rightarrow> LuaTokenKind \<Rightarrow> LuaParser \<Rightarrow> (unit res \<times> LuaParser) option" where
  "expect_token E token p =
     (if current_token p = token then do { p \<leftarrow> bump_p E p; Some (Ok (), p) }
      else if current_token p = TkEof then Some (Err FailEof, p)
      else Some (Err UnexpectedToken, p))"

definition if_token_bump :: "env \<Rightarrow> LuaTokenKind \<Rightarrow> LuaParser \<Rightarrow> (bool \<times> LuaParser) option" where
  "if_token_bump E token p =
     (if current_token p = token then do { p \<leftarrow> bump_p E p; Some (True, p) }
      else Some (False, p))"

definition is_statement_start_token :: "LuaTokenKind \<Rightarrow> bool" where
  "is_statement_start_token token \<longleftrightarrow>
     token \<in> set [TkLocal, TkFunction, TkIf, TkFor, TkWhile, TkDo, TkName, TkReturn, TkBreak]"

text \<open>
  \<open>while !matches!(p.current_token(), ...) { p.bump(); }\<close>: the recovery loops. Every stop set
  of the grammar contains \<open>TkEof\<close>.
\<close>

partial_function (option) bump_until :: "env \<Rightarrow> (LuaTokenKind \<Rightarrow> bool) \<Rightarrow> LuaParser \<Rightarrow> LuaParser option" where
  "bump_until E stop p =
     (if stop (current_token p) then Some p
      else do { p \<leftarrow> bump_p E p; bump_until E stop p })"

declare bump_until.simps [code]

end
