(* ===== verification/Doc_Parser.thy ===== *)
theory Doc_Parser
  imports Doc_Lexer Grammar_Base
begin

text \<open>
  \<open>crates/glua_parser/src/parser/lua_doc_parser.rs\<close>: the cursor of the documentation parser. It runs
  over the comment tokens that \<open>LuaParser::parse_comments\<close> hands it, splits each of them with
  the documentation lexer, and pushes its events into the list of the Lua parser.
\<close>

section \<open>State\<close>

datatype LuaDocParserState = PNormal | PMapped | PExtends

record LuaDocParser =
  lua_parser :: LuaParser
  comment_tokens :: "LuaTokenData list"
  dlexer :: LuaDocLexer
  dtoken :: LuaTokenKind
  drange :: SourceRange
  origin_token_index :: nat
  dstate :: LuaDocParserState

text \<open>The trait \<open>MarkerEventContainer\<close>: events and mark level are those of the Lua parser.\<close>

definition devents :: "LuaDocParser \<Rightarrow> MarkEvent list" where
  "devents d = events (lua_parser d)"

definition push_token :: "LuaTokenKind \<Rightarrow> SourceRange \<Rightarrow> LuaDocParser \<Rightarrow> LuaDocParser" where
  "push_token k rng d = d\<lparr>lua_parser := push_event (EatToken k rng) (lua_parser d)\<rparr>"

definition dmark :: "LuaSyntaxKind \<Rightarrow> LuaDocParser \<Rightarrow> Marker \<times> LuaDocParser" where
  "dmark k d = (let (m, p) = mark k (lua_parser d) in (m, d\<lparr>lua_parser := p\<rparr>))"

definition dset_kind :: "Marker \<Rightarrow> LuaSyntaxKind \<Rightarrow> LuaDocParser \<Rightarrow> LuaDocParser option" where
  "dset_kind m k d = do { p \<leftarrow> set_kind m k (lua_parser d); Some (d\<lparr>lua_parser := p\<rparr>) }"

definition dcomplete :: "Marker \<Rightarrow> LuaDocParser \<Rightarrow> (CompleteMarker \<times> LuaDocParser) option" where
  "dcomplete m d = do { (cm, p) \<leftarrow> complete m (lua_parser d); Some (cm, d\<lparr>lua_parser := p\<rparr>) }"

definition dundo :: "Marker \<Rightarrow> LuaDocParser \<Rightarrow> LuaDocParser option" where
  "dundo m d = do { (_, p) \<leftarrow> undo m (lua_parser d); Some (d\<lparr>lua_parser := p\<rparr>) }"

definition dprecede :: "CompleteMarker \<Rightarrow> LuaSyntaxKind \<Rightarrow> LuaDocParser \<Rightarrow> (Marker \<times> LuaDocParser) option" where
  "dprecede cm k d = do { (m, p) \<leftarrow> precede cm k (lua_parser d); Some (m, d\<lparr>lua_parser := p\<rparr>) }"

definition dpush_node_end :: "LuaDocParser \<Rightarrow> LuaDocParser option" where
  "dpush_node_end d = do { p \<leftarrow> push_node_end (lua_parser d); Some (d\<lparr>lua_parser := p\<rparr>) }"

definition dpush_error :: "LuaParseError \<Rightarrow> LuaDocParser \<Rightarrow> LuaDocParser" where
  "dpush_error e d = d\<lparr>lua_parser := (lua_parser d)\<lparr>errors := errors (lua_parser d) @ [e]\<rparr>\<rparr>"

definition dis_invalid_kind :: "LuaTokenKind \<Rightarrow> bool" where
  "dis_invalid_kind k \<longleftrightarrow> k = TkNone \<or> k = TkEof"

section \<open>Reading tokens\<close>

definition is_space_token :: "LuaTokenKind \<Rightarrow> bool" where
  "is_space_token k \<longleftrightarrow> k \<in> set [TkEndOfLine, TkWhitespace, TkShebang]"

text \<open>
  The loop of \<open>lex_token\<close>: at the end of a comment token it moves to the next one, and passes
  the white space between comments through.
\<close>

partial_function (option) lex_token :: "Unicode \<Rightarrow> LuaDocParser \<Rightarrow> (LuaTokenData \<times> LuaDocParser) option" where
  "lex_token U d =
     (if doc_is_invalid (dlexer d) then
        (let next_origin_index =
               (if origin_token_index d = 0 \<and> dtoken d = TkNone then 0 else origin_token_index d + 1) in
         if length (comment_tokens d) \<le> next_origin_index
         then Some (token_new TkEof (new_range (end_offset (drange d)) 0), d)
         else
           (let next_origin_token = comment_tokens d ! next_origin_index;
                d = d\<lparr>origin_token_index := next_origin_index\<rparr> in
            if is_space_token (kind next_origin_token) then Some (next_origin_token, d)
            else do {
              lx \<leftarrow> doc_reset (kind next_origin_token) (token_range next_origin_token) (dlexer d);
              (k, lx) \<leftarrow> doc_lex U lx;
              let d = d\<lparr>dlexer := lx\<rparr>;
              if k = TkEof then lex_token U d
              else do { rng \<leftarrow> doc_token_range lx; Some (token_new k rng, d) }
            }))
      else do {
        (k, lx) \<leftarrow> doc_lex U (dlexer d);
        let d = d\<lparr>dlexer := lx\<rparr>;
        if k = TkEof then lex_token U d
        else do { rng \<leftarrow> doc_token_range lx; Some (token_new k rng, d) }
      })"

declare lex_token.simps [code]

text \<open>\<open>self.current_token = token.kind\<close>, and the range unless it is empty.\<close>

definition take_token :: "LuaTokenData \<Rightarrow> LuaDocParser \<Rightarrow> LuaDocParser" where
  "take_token t d =
     d\<lparr>dtoken := kind t, drange := (if is_empty (token_range t) then drange d else token_range t)\<rparr>"

definition eat_current_and_lex_next :: "Unicode \<Rightarrow> LuaDocParser \<Rightarrow> LuaDocParser option" where
  "eat_current_and_lex_next U d = do {
     (t, d) \<leftarrow> lex_token U (push_token (dtoken d) (drange d) d);
     Some (take_token t d)
   }"

text \<open>The tokens that are eaten between two significant ones, by lexer state.\<close>

definition skipped_between :: "LuaDocLexerState \<Rightarrow> LuaTokenKind \<Rightarrow> bool" where
  "skipped_between state k =
     (case state of
        DNormal \<Rightarrow> k \<in> set [TkDocContinue, TkEndOfLine, TkWhitespace]
      | DVersion \<Rightarrow> k \<in> set [TkDocContinue, TkEndOfLine, TkWhitespace]
      | DMapped \<Rightarrow> k \<in> set [TkDocContinue, TkEndOfLine, TkWhitespace]
      | DExtends \<Rightarrow> k \<in> set [TkDocContinue, TkEndOfLine, TkWhitespace]
      | DFieldStart \<Rightarrow> k = TkWhitespace
      | DSee \<Rightarrow> k = TkWhitespace
      | DSource \<Rightarrow> k = TkWhitespace
      | DAttributeUse \<Rightarrow> k = TkWhitespace
      | DCastExpr \<Rightarrow> k = TkWhitespace
      | DInit \<Rightarrow> k \<in> set [TkEndOfLine, TkWhitespace]
      | _ \<Rightarrow> False)"

text \<open>
  The match of \<open>calc_next_current_token\<close> is on the state before the loop: \<open>skipped\<close> is its branch.
\<close>

partial_function (option) eat_between ::
  "Unicode \<Rightarrow> (LuaTokenKind \<Rightarrow> bool) \<Rightarrow> LuaDocParser \<Rightarrow> LuaDocParser option" where
  "eat_between U skipped d =
     (if skipped (dtoken d) then do {
        d \<leftarrow> eat_current_and_lex_next U d;
        eat_between U skipped d
      }
      else Some d)"

declare eat_between.simps [code]

definition calc_next_current_token :: "Unicode \<Rightarrow> LuaDocParser \<Rightarrow> LuaDocParser option" where
  "calc_next_current_token U d = do {
     (t, d) \<leftarrow> lex_token U d;
     let d = d\<lparr>dtoken := kind t, drange := token_range t\<rparr>;
     if dtoken d = TkEof then Some d
     else eat_between U (skipped_between (doc_state (dlexer d))) d
   }"

definition dbump :: "Unicode \<Rightarrow> LuaDocParser \<Rightarrow> LuaDocParser option" where
  "dbump U d =
     calc_next_current_token U
       (if dis_invalid_kind (dtoken d) then d else push_token (dtoken d) (drange d) d)"

definition dinit :: "Unicode \<Rightarrow> LuaDocParser \<Rightarrow> LuaDocParser option" where
  "dinit U d = (if comment_tokens d = [] then Some d else dbump U d)"

definition dtoken_text :: "LuaDocParser \<Rightarrow> rstring option" where
  "dtoken_text d =
     slice (origin_text (lua_parser d)) (start_offset (drange d)) (end_offset (drange d))"

section \<open>Changing the lexer state\<close>

text \<open>
  The rest of the current comment token, from the current piece on; the subtraction
  underflows when the piece does not start inside that token.
\<close>

definition reset_to_current :: "LuaDocParser \<Rightarrow> LuaDocParser option" where
  "reset_to_current d =
     (if length (comment_tokens d) \<le> origin_token_index d then None
      else
        (let origin = comment_tokens d ! origin_token_index d;
             stop = end_offset (token_range origin) in
         if stop < start_offset (drange d) then None
         else do {
           lx \<leftarrow> doc_reset (kind origin) (new_range (start_offset (drange d)) (stop - start_offset (drange d)))
                  (dlexer d);
           Some (d\<lparr>dlexer := lx\<rparr>)
         }))"

definition with_lexer_state :: "LuaDocLexerState \<Rightarrow> LuaDocParser \<Rightarrow> LuaDocParser" where
  "with_lexer_state state d = d\<lparr>dlexer := (dlexer d)\<lparr>doc_state := state\<rparr>\<rparr>"

definition re_calc_detail :: "Unicode \<Rightarrow> LuaDocParser \<Rightarrow> LuaDocParser option" where
  "re_calc_detail U d =
     (let d = d\<lparr>dtoken := TkDocDetail\<rparr> in
      if doc_is_invalid (dlexer d) then Some d
      else do {
        d \<leftarrow> reset_to_current (d\<lparr>dtoken := TkNone\<rparr>);
        dbump U (with_lexer_state DDescription d)
      })"

definition re_calc_cast_type :: "Unicode \<Rightarrow> LuaDocParser \<Rightarrow> LuaDocParser option" where
  "re_calc_cast_type U d =
     (if doc_is_invalid (dlexer d) then Some d
      else do {
        d \<leftarrow> reset_to_current d;
        (t, d) \<leftarrow> lex_token U (with_lexer_state DNormal d);
        Some (take_token t d)
      })"

definition keeps_description :: "LuaTokenKind \<Rightarrow> bool" where
  "keeps_description k \<longleftrightarrow>
     k \<in> set [TkWhitespace, TkEndOfLine, TkEof, TkDocContinueOr, TkNormalStart, TkLongCommentStart,
       TkDocStart, TkDocLongStart, TkLongCommentEnd]"

definition set_lexer_state :: "Unicode \<Rightarrow> LuaDocLexerState \<Rightarrow> LuaDocParser \<Rightarrow> LuaDocParser option" where
  "set_lexer_state U state d = do {
     d \<leftarrow> (case state of
             DDescription \<Rightarrow> if keeps_description (dtoken d) then Some d else re_calc_detail U d
           | DTrivia \<Rightarrow>
               if dtoken d \<in> set [TkWhitespace, TkEndOfLine, TkEof, TkDocContinueOr] then Some d
               else Some (d\<lparr>dtoken := TkDocTrivia\<rparr>)
           | DNormal \<Rightarrow>
               if doc_state (dlexer d) = DCastExpr then re_calc_cast_type U d else Some d
           | _ \<Rightarrow> Some d);
     Some (with_lexer_state state d)
   }"

definition bump_to_end :: "Unicode \<Rightarrow> LuaDocParser \<Rightarrow> LuaDocParser option" where
  "bump_to_end U d = do {
     d \<leftarrow> set_lexer_state U DTrivia d;
     d \<leftarrow> eat_current_and_lex_next U d;
     d \<leftarrow> set_lexer_state U DInit d;
     dbump U d
   }"

section \<open>Results\<close>

text \<open>
  \<open>DocParseResult\<close> and the operator \<open>?\<close>: the error is a value; it is reported only where the
  source pushes it.
\<close>

datatype 'a dres = DOk 'a | DErr LuaParseError

type_synonym 'a doc_run = "('a dres \<times> LuaDocParser) option"

definition attempt :: "'a doc_run \<Rightarrow> ('a \<Rightarrow> LuaDocParser \<Rightarrow> 'b doc_run) \<Rightarrow> 'b doc_run" where
  "attempt m f = do {
     (r, d) \<leftarrow> m;
     case r of DOk x \<Rightarrow> f x d | DErr e \<Rightarrow> Some (DErr e, d)
   }"

definition fail_at :: "string \<Rightarrow> LuaDocParser \<Rightarrow> 'a doc_run" where
  "fail_at msg d = Some (DErr (doc_error_from (str msg) (drange d)), d)"

definition finish :: "Marker \<Rightarrow> LuaDocParser \<Rightarrow> CompleteMarker doc_run" where
  "finish m d = do { (cm, d) \<leftarrow> dcomplete m d; Some (DOk cm, d) }"

definition expected_message :: "LuaTokenKind \<Rightarrow> LuaTokenKind \<Rightarrow> string" where
  "expected_message token current =
     ''expected '' @ token_kind_display token @ '', but get '' @ token_kind_display current"

definition dexpect_token :: "Unicode \<Rightarrow> LuaTokenKind \<Rightarrow> LuaDocParser \<Rightarrow> unit doc_run" where
  "dexpect_token U token d =
     (if dtoken d = token then do { d \<leftarrow> dbump U d; Some (DOk (), d) }
      else Some (DErr (syntax_error_from (str (expected_message token (dtoken d))) (drange d)), d))"

definition dif_token_bump :: "Unicode \<Rightarrow> LuaTokenKind \<Rightarrow> LuaDocParser \<Rightarrow> LuaDocParser option" where
  "dif_token_bump U token d = (if dtoken d = token then dbump U d else Some d)"

definition description_token :: "LuaTokenKind \<Rightarrow> bool" where
  "description_token k \<longleftrightarrow>
     k \<in> set [TkDocDetail, TkEndOfLine, TkWhitespace, TkDocContinue, TkNormalStart]"

partial_function (option) dbump_while ::
  "Unicode \<Rightarrow> (LuaTokenKind \<Rightarrow> bool) \<Rightarrow> LuaDocParser \<Rightarrow> LuaDocParser option" where
  "dbump_while U cont d =
     (if cont (dtoken d) then do { d \<leftarrow> dbump U d; dbump_while U cont d } else Some d)"

declare dbump_while.simps [code]

definition parse_description :: "Unicode \<Rightarrow> LuaDocParser \<Rightarrow> LuaDocParser option" where
  "parse_description U d =
     (let (m, d) = dmark DocDescription d in do {
        d \<leftarrow> dbump_while U (\<lambda>k. description_token k \<or> k = TkDocMatch) d;
        (_, d) \<leftarrow> dcomplete m d;
        Some d
      })"

end
