(* ===== verification/Doc_Tiling.thy ===== *)
theory Doc_Tiling
  imports Doc_Lexer
begin

text \<open>
  The contract of the documentation lexer: in every state, one call of \<open>lex\<close> before the end of
  the comment returns, reads at least one character, and produces the kind of a real token.
\<close>

section \<open>Progress of the arms\<close>

lemma skip_while_fwd [simp]: "fwd r s \<Longrightarrow> fwd r (skip_while f s)"
  by (simp add: skip_while_def)

lemma skip_while_first:
  "current_ch r \<noteq> 0 \<Longrightarrow> f (current_ch r) \<Longrightarrow> fwd (bump r) (skip_while f r)"
  by (simp add: skip_while_def eat_while_first)

lemma eat_when_fwd [simp]: "fwd r s \<Longrightarrow> fwd r (snd (eat_when c s))"
  by (simp add: eat_when_def)

lemma eat_when_first: "current_ch r = c \<Longrightarrow> c \<noteq> 0 \<Longrightarrow> fwd (bump r) (snd (eat_when c r))"
  by (simp add: eat_when_def eat_while_first)

lemma consume_n_times_fwd: "fwd r s \<Longrightarrow> fwd r (snd (consume_n_times f n s))"
proof (induction f n s rule: consume_n_times.induct)
  case (1 f n s)
  then show ?case by (subst consume_n_times.simps) (auto split: prod.splits)
qed

lemma consume_first:
  assumes "current_ch r = c" and "c \<noteq> 0" and "0 < n"
  shows "fwd (bump r) (snd (consume_char_n_times c n r))"
proof -
  have "snd (consume_n_times (\<lambda>x. x = c) n r) = snd (consume_n_times (\<lambda>x. x = c) (n - 1) (bump r))"
    using assms by (subst consume_n_times.simps) (simp add: is_eof_def EOF_def split: prod.split)
  then show ?thesis using consume_n_times_fwd [of "bump r" "bump r"] by (simp add: consume_char_n_times_def)
qed

lemma name_body_fwd: "fwd r s \<Longrightarrow> fwd r (snd (name_body U b s))"
proof (induction U b s rule: name_body.induct)
  case (1 U b s)
  then show ?case by (subst name_body.simps) auto
qed

lemma read_doc_name_ok:
  assumes "reading r before [] rest"
  shows "\<exists>name tpl r'. read_doc_name U r = Some (name, tpl, r') \<and> fwd (bump r) r'"
proof -
  obtain tpl r' where nb: "name_body U False (bump r) = (tpl, r')" by fastforce
  then have fw: "fwd (bump r) r'" using name_body_fwd [of "bump r" "bump r" U False] by simp
  from fwd_reading [OF fwd_bump_start [OF fw] assms] obtain tok rest' where "reading r' before tok rest'" by auto
  with nb fw show ?thesis by (simp add: read_doc_name_def reading_current_text)
qed

lemma doc_exponent_fwd [simp]: "fwd r s \<Longrightarrow> fwd r (doc_exponent s)"
  by (simp add: doc_exponent_def Let_def)

lemma lex_doc_number_fwd:
  assumes "is_ascii_digit (current_ch r)"
  shows "fwd (bump r) (snd (lex_doc_number r))" "fst (lex_doc_number r) \<in> {TkInt, TkFloat}"
proof -
  have "fwd (bump r) (skip_while is_ascii_digit r)"
    using assms by (intro skip_while_first) (auto simp: is_ascii_digit_def)
  then show "fwd (bump r) (snd (lex_doc_number r))" by (simp add: lex_doc_number_def Let_def)
qed (simp add: lex_doc_number_def Let_def)

text \<open>The kinds that the lexer gives to pieces of a comment.\<close>

definition piece_kind :: "LuaTokenKind \<Rightarrow> bool" where
  "piece_kind k \<longleftrightarrow> k \<noteq> TkNone \<and> k \<noteq> TkEof"

definition progress :: "Reader \<Rightarrow> LuaTokenKind \<times> Reader \<Rightarrow> bool" where
  "progress r m \<longleftrightarrow> fwd (bump r) (snd m) \<and> piece_kind (fst m)"

named_theorems doc_arm \<open>progress of the arms of the documentation lexer\<close>

lemma piece_kind_discr [simp]: "piece_kind (TokenKind n) \<longleftrightarrow> n \<noteq> 0 \<and> n \<noteq> 79"
  by (simp add: piece_kind_def)

lemma progress_pair [simp]: "progress r (k, s) \<longleftrightarrow> fwd (bump r) s \<and> piece_kind k"
  by (simp add: progress_def)

lemma progress_all [doc_arm]: "current_ch r \<noteq> 0 \<Longrightarrow> fwd (bump r) (skip_while (\<lambda>_. True) r)"
  by (rule skip_while_first) simp_all

lemma progress_number [doc_arm]: "is_ascii_digit (current_ch r) \<Longrightarrow> progress r (lex_doc_number r)"
  using lex_doc_number_fwd [of r] by (auto simp: progress_def)

lemma progress_space [doc_arm]: "is_doc_whitespace (current_ch r) \<Longrightarrow> progress r (doc_white_space r)"
  by (auto simp: doc_white_space_def is_doc_whitespace_def intro!: skip_while_first)

lemma start_kinds [simp]: "piece_kind (fst (two_dashes origin s))" "piece_kind (fst (continue_or s))"
  by (simp_all add: two_dashes_def continue_or_def Let_def)

lemma start_fwd [simp]: "fwd r s \<Longrightarrow> fwd r (snd (two_dashes origin s))" "fwd r s \<Longrightarrow> fwd r (snd (continue_or s))"
  by (simp_all add: two_dashes_def continue_or_def Let_def)

lemma progress_dash [doc_arm]:
  assumes "current_ch r = ch CHR ''-''"
  shows "progress r (dash_start unions origin r)"
proof -
  obtain n s where c: "consume_char_n_times (ch CHR ''-'') 3 r = (n, s)" by fastforce
  have "fwd (bump r) s" using consume_first [OF assms, of 3] c by simp
  with c show ?thesis by (simp add: dash_start_def Let_def progress_def)
qed

lemma progress_slash [doc_arm]:
  assumes "current_ch r = ch CHR ''/''"
  shows "progress r (slash_start r)"
proof -
  obtain n s where c: "consume_char_n_times (ch CHR ''/'') 3 r = (n, s)" by fastforce
  have "fwd (bump r) s" using consume_first [OF assms, of 3] c by simp
  with c show ?thesis by (simp add: slash_start_def)
qed

lemma progress_dash_run [doc_arm]:
  assumes "current_ch r = ch CHR ''-''"
  shows "progress r (normal_dash r)"
proof -
  obtain n s where c: "eat_when (ch CHR ''-'') r = (n, s)" by fastforce
  have "fwd (bump r) s" using eat_when_first [OF assms] c by simp
  with c show ?thesis by (simp add: normal_dash_def Let_def progress_def)
qed

lemma progress_small [doc_arm]:
  "progress r (normal_dot r)" "progress r (normal_bracket origin r)" "progress r (normal_at r)"
  "progress r (quoted_string r)"
  "piece_kind strict \<Longrightarrow> piece_kind weak \<Longrightarrow> progress r (relation_token strict weak r)"
  by (simp_all add: normal_dot_def normal_bracket_def normal_at_def quoted_string_def relation_token_def Let_def)

lemma progress_char [doc_arm]:
  "doc_char_token c = Some k \<Longrightarrow> piece_kind k" "attribute_char c = Some k \<Longrightarrow> piece_kind k"
  by (auto simp: doc_char_token_def attribute_char_def split: if_splits)

lemma word_kinds [doc_arm]:
  "piece_kind (to_tag s)" "piece_kind (to_modification_or_name s)" "piece_kind (to_token_or_name s)"
  "piece_kind (attribute_word s)" "piece_kind (extends_word s)" "region_kind s = Some k \<Longrightarrow> piece_kind k"
  by (auto simp: to_tag_def to_modification_or_name_def to_token_or_name_def attribute_word_def
      extends_word_def region_kind_def split: if_splits)

section \<open>Progress of the states\<close>

lemma lex_normal_progress [doc_arm]:
  assumes "reading r before [] rest" and "current_ch r \<noteq> 0"
  shows "wp (lex_normal U origin r) (progress r)"
  using read_doc_name_ok [OF assms(1), of U] assms(2)
  by (auto simp: lex_normal_def Let_def wp_def doc_arm split: option.split)

lemma name_or_progress [doc_arm]:
  assumes "reading r before [] rest" and "\<And>s. piece_kind (f s)" and "wp other (progress r)"
  shows "wp (name_or U f r other) (progress r)"
  using read_doc_name_ok [OF assms(1), of U] assms(2,3) by (auto simp: name_or_def wp_def)

lemma wp_intro: "m = Some x \<Longrightarrow> Q x \<Longrightarrow> wp m Q"
  by simp

text \<open>The loop of \<open>lex_long_description\<close> ends: there is no end mark inside a comment.\<close>

lemma bump_to_ok:
  "reading r before tok rest \<Longrightarrow> 0 \<notin> set rest \<Longrightarrow> end_pos \<le> blen (before @ tok @ rest) \<Longrightarrow>
   \<exists>r'. bump_to end_pos r = Some r' \<and> fwd r r'"
proof (induction rest arbitrary: r tok)
  case Nil
  then have "\<not> get_current_end_pos r < end_pos"
    by (simp add: reading_def reader_at_def get_current_end_pos_def)
  then show ?case by (simp add: bump_to.simps)
next
  case (Cons c rest)
  then have "\<not> is_eof r" by (simp add: reading_is_eof)
  from reading_bump [OF Cons.prems(1) this] have "reading (bump r) before (tok @ [c]) rest" by auto
  from Cons.IH [OF this] Cons.prems obtain r' where "bump_to end_pos (bump r) = Some r'" "fwd (bump r) r'" by auto
  then show ?case
    by (cases "get_current_end_pos r < end_pos") (auto simp: bump_to.simps [of end_pos r] intro: fwd_bump_start)
qed

lemma lex_long_description_progress [doc_arm]:
  assumes rd: "reading r before [] rest" and "0 \<notin> set rest" and "current_ch r \<noteq> 0"
  shows "wp (lex_long_description r) (progress r)"
proof -
  let ?stop = "blen (rtext r) - closing_count (rtext r)"
  show ?thesis
  proof (cases "get_current_end_pos r < ?stop")
    case True
    have "\<not> is_eof r" using assms(3) by (simp add: is_eof_def EOF_def)
    from reading_bump [OF rd this] obtain c rest' where
      c: "rest = c # rest'" "reading (bump r) before [c] rest'" by auto
    have "rtext r = before @ rest" using rd by (simp add: reading_def reader_at_def)
    with c assms(2) obtain r' where "bump_to ?stop (bump r) = Some r'" "fwd (bump r) r'"
      using bump_to_ok [OF c(2), of ?stop] by auto
    with True show ?thesis by (simp add: lex_long_description_def bump_to.simps [of _ r])
  next
    case False
    with assms(3) show ?thesis by (simp add: lex_long_description_def doc_arm)
  qed
qed

lemma current_text_ok:
  assumes "reading r before [] rest" and "fwd r r'"
  shows "\<exists>t. current_text r' = Some t"
  using fwd_reading [OF assms(2,1)] reading_current_text by fastforce

lemma lex_simple_progress [doc_arm]:
  assumes "current_ch r \<noteq> 0"
  shows "progress r (lex_init origin r)" "progress r (lex_description origin r)"
    "progress r (lex_trivia r)" "progress r (lex_see r)"
  using assms by (auto simp: lex_init_def lex_description_def lex_trivia_def lex_see_def doc_arm is_doc_whitespace_def)

lemma lex_normal_description_progress [doc_arm]:
  assumes rd: "reading r before [] rest" and "current_ch r \<noteq> 0"
  shows "wp (lex_normal_description origin r) (progress r)"
proof (cases "is_ascii_alpha (current_ch r) \<or> current_ch r = ch CHR ''#''")
  case True
  let ?s = "skip_while is_ascii_alpha (if current_ch r = ch CHR ''#'' then bump r else r)"
  have fw: "fwd (bump r) ?s" using True assms(2) by (auto intro: skip_while_first)
  from current_text_ok [OF rd fwd_bump_start [OF fw]] obtain t where "current_text ?s = Some t" by blast
  with fw assms(2) True show ?thesis
    by (auto simp: lex_normal_description_def Let_def doc_arm split: option.split)
next
  case False
  with assms(2) show ?thesis by (auto simp: lex_normal_description_def Let_def doc_arm)
qed

lemma lex_attribute_use_progress [doc_arm]:
  assumes rd: "reading r before [] rest" and "current_ch r \<noteq> 0"
  shows "wp (lex_attribute_use U r) (progress r)"
proof -
  from current_text_ok [OF rd, of "skip_while (is_name_continue U) (bump r)"] obtain t where
    "current_text (skip_while (is_name_continue U) (bump r)) = Some t" by auto
  with assms(2) show ?thesis by (auto simp: lex_attribute_use_def Let_def doc_arm split: option.split)
qed

lemma lex_other_progress [doc_arm]:
  assumes rd: "reading r before [] rest" and "current_ch r \<noteq> 0"
  shows "wp (lex_field_start U origin r) (progress r)" "wp (lex_version U origin r) (progress r)"
    "wp (lex_source U origin r) (progress r)" "wp (lex_cast_expr U origin r) (progress r)"
    "wp (lex_mapped U origin r) (progress r)" "wp (lex_extends U origin r) (progress r)"
proof -
  note normal = lex_normal_progress [OF assms, of U origin]
  note name = name_or_progress [OF rd _ normal, of _ U]
  have "is_ascii_digit (current_ch r) \<Longrightarrow>
      fwd (bump r) (skip_while (\<lambda>x. is_ascii_digit x \<or> x = ch CHR ''.'') r)"
    using assms(2) by (intro skip_while_first) simp_all
  with name [of "\<lambda>name. if name = str ''JIT'' then TkDocVersionNumber else TkName"]
  show "wp (lex_version U origin r) (progress r)"
    by (simp add: lex_version_def Let_def doc_arm)
  show "wp (lex_field_start U origin r) (progress r)" by (simp add: lex_field_start_def name doc_arm)
  show "wp (lex_source U origin r) (progress r)" "wp (lex_cast_expr U origin r) (progress r)"
    using normal by (simp_all add: lex_source_def lex_cast_expr_def Let_def doc_arm)
  show "wp (lex_mapped U origin r) (progress r)" "wp (lex_extends U origin r) (progress r)"
    using name by (simp_all add: lex_mapped_def lex_extends_def doc_arm)
qed

lemma lex_tag_progress:
  assumes rd: "reading r before [] rest" and "current_ch r \<noteq> 0"
  shows "wp (lex_tag U r) (\<lambda>(k, _, s). progress r (k, s))"
proof -
  from current_text_ok [OF rd, of "skip_while (is_name_continue U) (bump r)"] obtain t where
    "current_text (skip_while (is_name_continue U) (bump r)) = Some t" by auto
  with assms(2) show ?thesis
    using progress_space [of r] by (auto simp: lex_tag_def Let_def doc_arm doc_white_space_def)
qed

lemma doc_lex_match_progress:
  assumes rd: "reading r before [] rest" and "0 \<notin> set rest" and "\<not> is_eof r"
  shows "wp (doc_lex_match U origin state r) (\<lambda>(k, _, s). progress r (k, s))"
proof -
  have ch: "current_ch r \<noteq> 0" using assms(3) by (simp add: is_eof_def EOF_def)
  have keep: "wp (map_option (\<lambda>(k, s). (k, st, s)) m) (\<lambda>(k, _, s). progress r (k, s))" if "wp m (progress r)" for m st
    using that by (cases m) auto
  have tag: "wp (lex_tag U r) (\<lambda>(k, _, s). progress r (k, s))" by (rule lex_tag_progress [OF rd ch])
  show ?thesis
    by (cases state; hypsubst; simp only: doc_lex_match_def Let_def LuaDocLexerState.case; (rule tag | rule keep))
      (use lex_normal_progress [OF rd ch] lex_long_description_progress [OF rd assms(2) ch]
        lex_normal_description_progress [OF rd ch] lex_attribute_use_progress [OF rd ch]
        lex_other_progress [OF rd ch] lex_simple_progress [OF ch] in \<open>simp_all add: wp_Some\<close>)
qed

end
