(* ===== verification/Parser_Inv.thy ===== *)
theory Parser_Inv
  imports Grammar_Base
begin

text \<open>
  The invariant of the parser state and the relation between the states before and after a
  grammar function, with the rules for the primitive steps. Everything here is about
  configurations without documentation parsing, where comments are eaten as plain tokens.
\<close>

section \<open>Event lists\<close>

text \<open>The tokens that the events consume, in order.\<close>

fun eaten :: "MarkEvent list \<Rightarrow> (LuaTokenKind \<times> SourceRange) list" where
  "eaten [] = []"
| "eaten (EatToken k r # es) = (k, r) # eaten es"
| "eaten (_ # es) = eaten es"

text \<open>
  \<open>walk d es\<close> follows the nesting depth through the events, from depth \<open>d\<close>; it fails at an end
  event that has no start. \<open>closed\<close> lists are the well bracketed ones.
\<close>

fun walk :: "nat \<Rightarrow> MarkEvent list \<Rightarrow> nat option" where
  "walk d [] = Some d"
| "walk d (NodeStart k q # es) = walk (if k = SkNone then d else d + 1) es"
| "walk d (NodeEnd # es) = (if d = 0 then None else walk (d - 1) es)"
| "walk d (_ # es) = walk d es"

definition closed :: "MarkEvent list \<Rightarrow> bool" where
  "closed es \<longleftrightarrow> walk 0 es = Some 0"

text \<open>
  The kinds of nodes that the Lua grammar makes besides blocks; the tree builder treats all of
  them alike.
\<close>

definition plain :: "LuaSyntaxKind \<Rightarrow> bool" where
  "plain k \<longleftrightarrow> k \<notin> set [SkNone, Block, Chunk, Comment, TypeMultiLineUnion, DocDescription]"

text \<open>What later steps keep of an event: everything but the kind and the parent of a start.\<close>

fun sim :: "MarkEvent \<Rightarrow> MarkEvent \<Rightarrow> bool" where
  "sim (NodeStart k q) e = (case e of
      NodeStart k' q' \<Rightarrow> (k = SkNone \<longleftrightarrow> k' = SkNone) \<and> (k = Block \<longleftrightarrow> k' = Block) \<and> (plain k \<longleftrightarrow> plain k')
    | _ \<Rightarrow> False)"
| "sim e e' \<longleftrightarrow> e = e'"

text \<open>
  \<open>solid\<close>: apart from trivia, the last event is a token or the end of a node. A block may only
  start there: a block takes the trivia before it inside, and must find something of its
  parent's own in front of them.
\<close>

definition skippable :: "MarkEvent \<Rightarrow> bool" where
  "skippable e = (case e of
      Trivia \<Rightarrow> True
    | NodeStart k _ \<Rightarrow> k = SkNone
    | EatToken k _ \<Rightarrow> k \<in> set [TkWhitespace, TkEndOfLine, TkDocContinue]
    | NodeEnd \<Rightarrow> False)"

definition solid_event :: "MarkEvent \<Rightarrow> bool" where
  "solid_event e = (case e of EatToken _ _ \<Rightarrow> True | NodeEnd \<Rightarrow> True | _ \<Rightarrow> False)"

definition solid :: "MarkEvent list \<Rightarrow> bool" where
  "solid es = (case dropWhile skippable (rev es) of [] \<Rightarrow> False | e # _ \<Rightarrow> solid_event e)"

definition is_start :: "MarkEvent \<Rightarrow> bool" where
  "is_start e = (case e of NodeStart k _ \<Rightarrow> plain k | _ \<Rightarrow> False)"

text \<open>
  Parent links point forward to starts of real nodes, no two to the same; blocks have none and
  start after something solid.
\<close>

definition parent_of :: "MarkEvent list \<Rightarrow> nat \<Rightarrow> nat" where
  "parent_of es i = (if i < length es then (case es ! i of NodeStart _ q \<Rightarrow> q | _ \<Rightarrow> 0) else 0)"

definition links :: "MarkEvent list \<Rightarrow> bool" where
  "links es \<longleftrightarrow>
     (\<forall>i. parent_of es i \<noteq> 0 \<longrightarrow> i < parent_of es i \<and> Suc (parent_of es i) < length es \<and>
        is_start (es ! parent_of es i) \<and> is_start (es ! i)) \<and>
     (\<forall>i j. parent_of es i \<noteq> 0 \<longrightarrow> parent_of es i = parent_of es j \<longrightarrow> i = j)"

definition kinds_ok :: "MarkEvent list \<Rightarrow> bool" where
  "kinds_ok es \<longleftrightarrow> (\<forall>k q. NodeStart k q \<in> set es \<longrightarrow> k = SkNone \<or> k = Block \<or> plain k)"

definition blocks_ok :: "MarkEvent list \<Rightarrow> bool" where
  "blocks_ok es \<longleftrightarrow> (\<forall>i q. i < length es \<longrightarrow> es ! i = NodeStart Block q \<longrightarrow> i = 0 \<or> solid (take i es))"

definition ends_ok :: "MarkEvent list \<Rightarrow> bool" where
  "ends_ok es \<longleftrightarrow> (\<forall>i. i < length es \<longrightarrow> es ! i = NodeEnd \<longrightarrow> eaten (take i es) \<noteq> [])"

lemma eaten_append [simp]: "eaten (xs @ ys) = eaten xs @ eaten ys"
  by (induction xs rule: eaten.induct) simp_all

lemma walk_append: "walk d (xs @ ys) = do { d' \<leftarrow> walk d xs; walk d' ys }"
  by (induction d xs rule: walk.induct) simp_all

lemma walk_add: "walk d es = Some d' \<Longrightarrow> walk (d + c) es = Some (d' + c)"
proof (induction d es arbitrary: d' rule: walk.induct)
  case (3 d es)
  then show ?case by (cases d) auto
qed (auto split: if_splits)

lemma closed_walk: "closed es \<Longrightarrow> walk d es = Some d"
  using walk_add [of 0 es 0 d] by (simp add: closed_def)

lemma closed_Nil [simp]: "closed []"
  by (simp add: closed_def)

lemma closed_append: "closed xs \<Longrightarrow> closed ys \<Longrightarrow> closed (xs @ ys)"
  by (simp add: closed_def walk_append)

lemma closed_bracket: "k \<noteq> SkNone \<Longrightarrow> closed es \<Longrightarrow> closed (NodeStart k q # es @ [NodeEnd])"
  using closed_walk [of es 1] by (simp add: closed_def walk_append)

lemma closed_tokens [simp]: "closed (map (\<lambda>t. EatToken (f t) (g t)) ts)"
  by (induction ts) (simp_all add: closed_def)

lemma sim_refl [simp]: "sim e e"
  by (cases e) simp_all

lemma sim_trans: "sim a b \<Longrightarrow> sim b c \<Longrightarrow> sim a c"
  by (cases a; cases b) (auto split: MarkEvent.splits)

lemma sims_refl [simp]: "list_all2 sim es es"
  by (simp add: list.rel_refl)

lemma sims_trans: "list_all2 sim xs ys \<Longrightarrow> list_all2 sim ys zs \<Longrightarrow> list_all2 sim xs zs"
  by (rule list_all2_trans [OF sim_trans])

lemma sims_update:
  "i < length es \<Longrightarrow> sim (es ! i) e \<Longrightarrow> list_all2 sim es (es[i := e])"
  by (simp add: list_all2_conv_all_nth nth_list_update)

lemma sim_start: "sim (NodeStart k q) e \<Longrightarrow> \<exists>k' q'. e = NodeStart k' q'"
  by (cases e) simp_all

lemma sims_eaten: "list_all2 sim xs ys \<Longrightarrow> eaten ys = eaten xs"
proof (induction rule: list_all2_induct)
  case (Cons x xs y ys)
  then show ?case by (cases x; cases y) simp_all
qed simp

lemma sims_walk: "list_all2 sim xs ys \<Longrightarrow> walk d ys = walk d xs"
proof (induction arbitrary: d rule: list_all2_induct)
  case (Cons x xs y ys)
  then show ?case by (cases x; cases y) simp_all
qed simp

lemma sims_closed: "list_all2 sim xs ys \<Longrightarrow> closed ys = closed xs"
  by (simp add: closed_def sims_walk)

lemma sim_skippable: "sim a b \<Longrightarrow> skippable b = skippable a"
  by (cases a; cases b) (simp_all add: skippable_def)

lemma sim_solid_event: "sim a b \<Longrightarrow> solid_event b = solid_event a"
  by (cases a; cases b) (simp_all add: solid_event_def)

lemma sim_is_start: "sim a b \<Longrightarrow> is_start b = is_start a"
  by (cases a; cases b) (auto simp: is_start_def)

lemma sims_solid: "list_all2 sim xs ys \<Longrightarrow> solid ys = solid xs"
proof (induction xs arbitrary: ys rule: rev_induct)
  case (snoc x xs)
  then obtain ys' y where ys: "ys = ys' @ [y]" "list_all2 sim xs ys'" "sim x y"
    by (auto simp: list_all2_append1 list_all2_Cons1)
  with snoc.IH [of ys'] show ?case
    by (simp add: solid_def sim_skippable sim_solid_event)
qed simp

lemma solid_Nil [simp]: "\<not> solid []"
  by (simp add: solid_def)

lemma solid_snoc: "solid (es @ [e]) = (if skippable e then solid es else solid_event e)"
  by (simp add: solid_def)

lemma solid_snoc_end [simp]: "solid (es @ [NodeEnd])"
  by (simp add: solid_snoc skippable_def solid_event_def)

lemma solid_snoc_token: "solid es \<Longrightarrow> solid (es @ [EatToken k r])"
  by (simp add: solid_snoc solid_event_def)

lemma solid_snoc_word [simp]:
  "k \<notin> {TkWhitespace, TkEndOfLine, TkDocContinue} \<Longrightarrow> solid (es @ [EatToken k r])"
  by (simp add: solid_snoc skippable_def solid_event_def)

lemma solid_tokens: "solid es \<Longrightarrow> solid (es @ map (\<lambda>t. EatToken (f t) (g t)) ts)"
  by (induction ts arbitrary: es) (auto dest: solid_snoc_token simp flip: append.assoc append_Cons [of _ "[]"],
      metis append.assoc append_Cons append_Nil solid_snoc_token)

lemma not_solid_start [simp]: "k \<noteq> SkNone \<Longrightarrow> \<not> solid (es @ [NodeStart k q])"
  by (simp add: solid_snoc skippable_def solid_event_def)

lemma solid_ends_eaten: "solid es \<Longrightarrow> ends_ok es \<Longrightarrow> eaten es \<noteq> []"
proof (induction es rule: rev_induct)
  case (snoc e es)
  have ends: "ends_ok es" using snoc.prems(2)
    by (auto simp: ends_ok_def nth_append split: if_splits dest: spec [of _ _])
  show ?case
  proof (cases e)
    case NodeEnd
    with snoc.prems(2) show ?thesis by (auto simp: ends_ok_def nth_append dest: spec [of _ "length es"])
  qed (use snoc ends in \<open>auto simp: solid_snoc skippable_def solid_event_def split: if_splits\<close>)
qed simp

section \<open>Well-formed event lists\<close>

definition wf_events :: "MarkEvent list \<Rightarrow> bool" where
  "wf_events es \<longleftrightarrow> links es \<and> blocks_ok es \<and> kinds_ok es"

lemma linksD:
  assumes "links es" and "parent_of es i \<noteq> 0"
  shows "i < parent_of es i" "Suc (parent_of es i) < length es" "is_start (es ! parent_of es i)"
    "is_start (es ! i)" "parent_of es i = parent_of es j \<Longrightarrow> i = j"
  using assms unfolding links_def by blast+

lemma linksI:
  assumes "\<And>i. parent_of es i \<noteq> 0 \<Longrightarrow> i < parent_of es i \<and> Suc (parent_of es i) < length es \<and>
      is_start (es ! parent_of es i) \<and> is_start (es ! i)"
    and "\<And>i j. parent_of es i \<noteq> 0 \<Longrightarrow> parent_of es i = parent_of es j \<Longrightarrow> i = j"
  shows "links es"
  unfolding links_def using assms by blast

lemma parent_of_snoc:
  "parent_of (es @ [e]) i = (if i = length es then (case e of NodeStart _ q \<Rightarrow> q | _ \<Rightarrow> 0) else parent_of es i)"
  by (auto simp: parent_of_def nth_append)

lemma links_snoc:
  assumes "links es" and "\<And>k q. e = NodeStart k q \<Longrightarrow> q = 0"
  shows "links (es @ [e])"
proof -
  have par: "parent_of (es @ [e]) i = (if i = length es then 0 else parent_of es i)" for i
    using assms(2) by (auto simp: parent_of_snoc split: MarkEvent.split)
  show ?thesis
  proof (rule linksI)
    fix i assume "parent_of (es @ [e]) i \<noteq> 0"
    then have ne: "parent_of es i \<noteq> 0" "i \<noteq> length es" by (simp_all add: par split: if_splits)
    note d = linksD(1-4) [OF assms(1) ne(1)]
    from ne d show "i < parent_of (es @ [e]) i \<and> Suc (parent_of (es @ [e]) i) < length (es @ [e]) \<and>
        is_start ((es @ [e]) ! parent_of (es @ [e]) i) \<and> is_start ((es @ [e]) ! i)"
      by (simp add: par nth_append)
  next
    fix i j assume "parent_of (es @ [e]) i \<noteq> 0" "parent_of (es @ [e]) i = parent_of (es @ [e]) j"
    then show "i = j" using linksD(5) [OF assms(1), of i j] by (simp add: par split: if_splits)
  qed
qed

lemma blocks_ok_snoc:
  "blocks_ok es \<Longrightarrow> (\<And>q. e = NodeStart Block q \<Longrightarrow> es = [] \<or> solid es) \<Longrightarrow> blocks_ok (es @ [e])"
  unfolding blocks_ok_def
  by (intro allI impI, simp only: nth_append length_append list.size take_append)
    (auto split: if_splits simp: less_Suc_eq)

lemma wf_events_snoc:
  "wf_events es \<Longrightarrow> (\<And>k q. e = NodeStart k q \<Longrightarrow> q = 0 \<and> (plain k \<or> k = Block) \<and>
     (k = Block \<longrightarrow> es = [] \<or> solid es)) \<Longrightarrow> wf_events (es @ [e])"
  unfolding wf_events_def by (auto intro: links_snoc blocks_ok_snoc simp: kinds_ok_def)

lemma ends_ok_snoc:
  "ends_ok es \<Longrightarrow> (e = NodeEnd \<Longrightarrow> eaten es \<noteq> []) \<Longrightarrow> ends_ok (es @ [e])"
  unfolding ends_ok_def
  by (intro allI impI, simp only: nth_append length_append list.size take_append)
    (auto split: if_splits simp: less_Suc_eq)

lemma sims_nth: "list_all2 sim xs ys \<Longrightarrow> i < length ys \<Longrightarrow> sim (xs ! i) (ys ! i)"
  by (simp add: list_all2_conv_all_nth)

lemma sim_block: "sim a (NodeStart Block q) \<Longrightarrow> \<exists>q'. a = NodeStart Block q'"
  by (cases a) auto

lemma sim_end: "sim a NodeEnd \<Longrightarrow> a = NodeEnd"
  by (cases a) auto

lemma sims_blocks_ok: "list_all2 sim xs ys \<Longrightarrow> blocks_ok xs \<Longrightarrow> blocks_ok ys"
  unfolding blocks_ok_def
proof (intro allI impI)
  fix i q
  assume sims: "list_all2 sim xs ys" and i: "i < length ys" and block: "ys ! i = NodeStart Block q"
    and ok: "\<forall>i q. i < length xs \<longrightarrow> xs ! i = NodeStart Block q \<longrightarrow> i = 0 \<or> solid (take i xs)"
  from sims_nth [OF sims i] block obtain q' where "xs ! i = NodeStart Block q'"
    using sim_block by force
  with ok i list_all2_lengthD [OF sims] have "i = 0 \<or> solid (take i xs)" by auto
  then show "i = 0 \<or> solid (take i ys)"
    using sims_solid [OF list_all2_takeI [OF sims]] by blast
qed

lemma sims_ends_ok: "list_all2 sim xs ys \<Longrightarrow> ends_ok xs \<Longrightarrow> ends_ok ys"
  unfolding ends_ok_def
proof (intro allI impI)
  fix i
  assume sims: "list_all2 sim xs ys" and i: "i < length ys" "ys ! i = NodeEnd"
    and ok: "\<forall>i. i < length xs \<longrightarrow> xs ! i = NodeEnd \<longrightarrow> eaten (take i xs) \<noteq> []"
  from sims_nth [OF sims i(1)] i(2) have "xs ! i = NodeEnd" using sim_end by force
  with ok i list_all2_lengthD [OF sims] have "eaten (take i xs) \<noteq> []" by auto
  then show "eaten (take i ys) \<noteq> []" by (simp add: sims_eaten [OF list_all2_takeI [OF sims]])
qed

lemma sims_kinds_ok: "list_all2 sim xs ys \<Longrightarrow> kinds_ok xs \<Longrightarrow> kinds_ok ys"
proof (induction rule: list_all2_induct)
  case (Cons x xs y ys)
  then show ?case by (cases x; cases y) (auto simp: kinds_ok_def)
qed simp

lemma parent_of_update:
  "i < length es \<Longrightarrow> parent_of (es[i := NodeStart k q]) j = (if j = i then q else parent_of es j)"
  by (simp add: parent_of_def)

lemma parent_of_start: "i < length es \<Longrightarrow> es ! i = NodeStart k q \<Longrightarrow> parent_of es i = q"
  by (simp add: parent_of_def)

lemma is_start_update:
  "is_start (es ! i) = is_start e \<Longrightarrow> i < length es \<Longrightarrow> is_start (es[i := e] ! j) = is_start (es ! j)"
  by (cases "j = i") auto

lemma links_set_kind:
  assumes "links es" and "i < length es" and "es ! i = NodeStart k q" and "plain k" "plain k'"
  shows "links (es[i := NodeStart k' q])"
proof -
  have par: "parent_of (es[i := NodeStart k' q]) j = parent_of es j" for j
    using assms(2,3) parent_of_start [OF assms(2,3)] by (simp add: parent_of_update)
  have start: "is_start (es[i := NodeStart k' q] ! j) = is_start (es ! j)" for j
    using assms by (intro is_start_update) (simp_all add: is_start_def)
  show ?thesis using assms(1) unfolding links_def par start by simp
qed

lemma links_precede:
  assumes "links es" and "i < length es" and "es ! i = NodeStart k q" and "plain k" "plain k'"
  shows "links (es[i := NodeStart k (length es)] @ [NodeStart k' 0, Trivia])" (is "links ?es")
proof -
  have par: "parent_of ?es j = (if j = i then length es else parent_of es j)" for j
  proof -
    have "?es = (es[i := NodeStart k (length es)] @ [NodeStart k' 0]) @ [Trivia]" by simp
    then show ?thesis using assms(2)
      by (simp only: parent_of_snoc) (auto simp: parent_of_update parent_of_def)
  qed
  have bound: "j < length es" "parent_of es j < length es" if "parent_of es j \<noteq> 0" for j
    using linksD(1,2) [OF assms(1) that] by simp_all
  have start: "is_start (?es ! j) = is_start (es ! j)" if "j < length es" for j
    using that assms is_start_update [of es i "NodeStart k (length es)" j]
    by (simp add: nth_append is_start_def)
  show ?thesis
  proof (rule linksI)
    fix j assume ne: "parent_of ?es j \<noteq> 0"
    show "j < parent_of ?es j \<and> Suc (parent_of ?es j) < length ?es \<and>
        is_start (?es ! parent_of ?es j) \<and> is_start (?es ! j)"
    proof (cases "j = i")
      case True
      with assms show ?thesis by (simp add: par is_start_def nth_append)
    next
      case False
      with ne have ne': "parent_of es j \<noteq> 0" by (simp add: par)
      note d = linksD(1-4) [OF assms(1) ne'] and b = bound [OF ne']
      from d b start [of j] start [of "parent_of es j"] False show ?thesis by (simp add: par)
    qed
  next
    fix j l
    assume "parent_of ?es j \<noteq> 0" "parent_of ?es j = parent_of ?es l"
    then show "j = l"
      using linksD(5) [OF assms(1), of j l] bound [of j] bound [of l] assms(2)
      by (simp add: par split: if_splits)
  qed
qed

lemma links_erase_last:
  assumes "links (es @ [NodeStart k q])"
  shows "links (es @ [NodeStart SkNone q])"
proof -
  let ?a = "es @ [NodeStart k q]" and ?b = "es @ [NodeStart SkNone q]"
  have par: "parent_of ?b i = parent_of ?a i" for i by (simp add: parent_of_snoc)
  have "parent_of ?a (length es) = 0"
  proof (rule ccontr)
    assume "parent_of ?a (length es) \<noteq> 0"
    from linksD(1,2) [OF assms this] show False by simp
  qed
  moreover have "i < length ?a" if "parent_of ?a i \<noteq> 0" for i
    using that by (simp add: parent_of_def split: if_splits)
  ultimately have "i < length es" if "parent_of ?a i \<noteq> 0" for i
    using that by (metis length_append_singleton less_antisym)
  then have "is_start (?b ! i) = is_start (?a ! i)" "is_start (?b ! parent_of ?a i) = is_start (?a ! parent_of ?a i)"
    if "parent_of ?a i \<noteq> 0" for i
    using that linksD(2) [OF assms that] by (simp_all add: nth_append)
  with assms show ?thesis unfolding links_def par by auto
qed

lemma kinds_ok_erase_last: "kinds_ok (es @ [NodeStart k q]) \<Longrightarrow> kinds_ok (es @ [NodeStart SkNone q])"
  by (auto simp: kinds_ok_def)

lemma blocks_ok_erase_last: "blocks_ok (es @ [NodeStart k q]) \<Longrightarrow> blocks_ok (es @ [NodeStart SkNone q])"
  unfolding blocks_ok_def by (auto simp: nth_append less_Suc_eq split: if_splits)

lemma ends_ok_butlast: "ends_ok (es @ [e]) \<Longrightarrow> ends_ok es"
  unfolding ends_ok_def by (auto simp: nth_append split: if_splits dest: spec [of _ _])

lemma wf_events_tokens:
  "wf_events es \<Longrightarrow> wf_events (es @ map (\<lambda>t. EatToken (f t) (g t)) ts)"
proof (induction ts rule: rev_induct)
  case (snoc t ts)
  then show ?case using wf_events_snoc [OF snoc.IH, of "EatToken (f t) (g t)"] by simp
qed simp

lemma ends_ok_tokens:
  "ends_ok es \<Longrightarrow> ends_ok (es @ map (\<lambda>t. EatToken (f t) (g t)) ts)"
proof (induction ts rule: rev_induct)
  case (snoc t ts)
  then show ?case using ends_ok_snoc [OF snoc.IH, of "EatToken (f t) (g t)"] by simp
qed simp

section \<open>Parser states\<close>

abbreviation clean :: "LuaParser \<Rightarrow> bool" where
  "clean p \<equiv> errors p = []"

definition left_tokens :: "LuaParser \<Rightarrow> nat" where
  "left_tokens p = length (tokens p) - token_index p"

definition token_pair :: "LuaTokenData \<Rightarrow> LuaTokenKind \<times> SourceRange" where
  "token_pair t = (kind t, token_range t)"

text \<open>What holds of the tokens of every parser: the lexer's kinds, and ranges inside the text.\<close>

definition tokens_ok :: "LuaParser \<Rightarrow> bool" where
  "tokens_ok p \<longleftrightarrow>
     (\<forall>t\<in>set (tokens p). lexed_kind (kind t) \<and> token_text (origin_text p) t \<noteq> None) \<and>
     \<not> enable_emmylua_doc (parse_config p)"

definition cursor_ok :: "LuaParser \<Rightarrow> bool" where
  "cursor_ok p \<longleftrightarrow>
     token_index p \<le> length (tokens p) \<and>
     (if token_index p < length (tokens p)
      then current_token p = kind (tokens p ! token_index p) \<and>
        \<not> is_trivia_kind (kind (tokens p ! token_index p))
      else current_token p = TkEof)"

definition good :: "LuaParser \<Rightarrow> bool" where
  "good p \<longleftrightarrow> tokens_ok p \<and> cursor_ok p \<and>
     eaten (events p) = map token_pair (take (token_index p) (tokens p)) \<and>
     wf_events (events p) \<and> events p \<noteq> [] \<and> (clean p \<longrightarrow> ends_ok (events p))"

definition same_input :: "LuaParser \<Rightarrow> LuaParser \<Rightarrow> bool" where
  "same_input p p' \<longleftrightarrow> tokens p' = tokens p \<and> origin_text p' = origin_text p \<and>
     parse_config p' = parse_config p"

text \<open>
  \<open>runs p p'\<close>: what every grammar function keeps between its start and its return. The events
  grow; in a run without errors what is added is well bracketed.
\<close>

definition extends :: "LuaParser \<Rightarrow> LuaParser \<Rightarrow> bool" where
  "extends p p' \<longleftrightarrow> (\<exists>es1 es2. events p' = es1 @ es2 \<and> list_all2 sim (events p) es1 \<and>
     (clean p' \<longrightarrow> closed es2))"

definition runs :: "LuaParser \<Rightarrow> LuaParser \<Rightarrow> bool" where
  "runs p p' \<longleftrightarrow> same_input p p' \<and> token_index p \<le> token_index p' \<and>
     (\<exists>xs. errors p' = errors p @ xs) \<and> mark_level p \<le> mark_level p' \<and>
     extends p p' \<and> (solid (events p) \<longrightarrow> solid (events p'))"

lemma extends_refl [simp]: "extends p p"
  unfolding extends_def by (rule exI [of _ "events p"]) (auto intro!: exI [of _ "[]"])

lemma extends_trans:
  assumes "extends p q" "extends q r" and "clean r \<longrightarrow> clean q"
  shows "extends p r"
proof -
  from assms(1) obtain a b where ab: "events q = a @ b" "list_all2 sim (events p) a" "clean q \<longrightarrow> closed b"
    unfolding extends_def by blast
  from assms(2) obtain c d where cd: "events r = c @ d" "list_all2 sim (a @ b) c" "clean r \<longrightarrow> closed d"
    unfolding extends_def ab by blast
  from cd(2) obtain c1 c2 where c: "c = c1 @ c2" "list_all2 sim a c1" "list_all2 sim b c2"
    by (auto simp: list_all2_append1)
  have "clean r \<longrightarrow> closed (c2 @ d)"
    using assms(3) ab(3) cd(3) sims_closed [OF c(3)] by (auto intro: closed_append)
  with cd(1) c ab(2) show ?thesis
    unfolding extends_def by (metis append.assoc sims_trans)
qed

lemma runs_refl [simp]: "runs p p"
  by (simp add: runs_def same_input_def)

lemma runs_trans: "runs p q \<Longrightarrow> runs q r \<Longrightarrow> runs p r"
  unfolding runs_def using extends_trans [of p q r]
  by (auto simp: same_input_def)

lemma runs_tokens: "runs p p' \<Longrightarrow> tokens p' = tokens p"
  by (simp add: runs_def same_input_def)

lemma runs_left: "runs p p' \<Longrightarrow> left_tokens p' \<le> left_tokens p"
  by (auto simp: runs_def same_input_def left_tokens_def)

lemma runs_clean: "runs p p' \<Longrightarrow> clean p' \<Longrightarrow> clean p"
  by (auto simp: runs_def)

lemma runs_solid: "runs p p' \<Longrightarrow> solid (events p) \<Longrightarrow> solid (events p')"
  by (simp add: runs_def)

lemma runs_level: "runs p p' \<Longrightarrow> mark_level p \<le> mark_level p'"
  by (simp add: runs_def)

lemma runs_grow: "runs p p' \<Longrightarrow> length (events p) \<le> length (events p')"
  by (auto simp: runs_def extends_def dest: list_all2_lengthD)

lemma good_bound: "good p \<Longrightarrow> token_index p \<le> length (tokens p)"
  by (simp add: good_def cursor_ok_def)

lemma good_eof: "good p \<Longrightarrow> token_index p = length (tokens p) \<Longrightarrow> current_token p = TkEof"
  by (simp add: good_def cursor_ok_def)

lemma good_current:
  assumes "good p" and "token_index p < length (tokens p)"
  shows "current_token p = kind (tokens p ! token_index p)" and "\<not> is_trivia_kind (current_token p)"
    and "lexed_kind (current_token p)"
proof -
  have cur: "cursor_ok p" using assms(1) by (simp add: good_def)
  then show eq: "current_token p = kind (tokens p ! token_index p)"
    using assms(2) by (simp add: cursor_ok_def)
  with cur show "\<not> is_trivia_kind (current_token p)"
    using assms(2) by (simp add: cursor_ok_def)
  from assms have "lexed_kind (kind (tokens p ! token_index p))"
    using nth_mem [OF assms(2)] unfolding good_def tokens_ok_def by blast
  with eq show "lexed_kind (current_token p)" by simp
qed

lemma good_left:
  assumes "good p"
  shows "left_tokens p = 0 \<longleftrightarrow> current_token p = TkEof"
proof (cases "token_index p < length (tokens p)")
  case True
  then have "current_token p \<noteq> TkEof" using good_current(3) [OF assms] by (simp add: lexed_kind_def)
  with True show ?thesis by (simp add: left_tokens_def)
next
  case False
  with good_bound [OF assms] have "token_index p = length (tokens p)" by simp
  with good_eof [OF assms] show ?thesis by (simp add: left_tokens_def)
qed

section \<open>The token cursor without documentation parsing\<close>

definition tok_event :: "LuaTokenData \<Rightarrow> MarkEvent" where
  "tok_event t = EatToken (kind t) (token_range t)"

lemma eat_event: "eat t p = p\<lparr>events := events p @ [tok_event t]\<rparr>"
  by (simp add: eat_def push_event_def tok_event_def)

lemma fold_eat: "fold eat ts p = p\<lparr>events := events p @ map tok_event ts\<rparr>"
  by (induction ts arbitrary: p) (simp_all add: eat_event)

lemma skip_trivia_le: "i \<le> skip_trivia ts i"
proof (induction ts i rule: skip_trivia.induct)
  case (1 ts i)
  then show ?case by (auto simp: skip_trivia.simps [of ts i])
qed

lemma skip_trivia_between: "i \<le> j \<Longrightarrow> j < skip_trivia ts i \<Longrightarrow> is_trivia_kind (kind (ts ! j))"
proof (induction ts i rule: skip_trivia.induct)
  case (1 ts i)
  show ?case
  proof (cases "i < length ts \<and> is_trivia_kind (kind (ts ! i))")
    case True
    with 1 show ?thesis by (cases "j = i") (auto simp: skip_trivia.simps [of ts i])
  next
    case False
    then have "skip_trivia ts i = i" by (simp only: skip_trivia.simps [of ts i] if_False)
    with 1 show ?thesis by simp
  qed
qed

lemma skip_trivia_bound: "i \<le> length ts \<Longrightarrow> skip_trivia ts i \<le> length ts"
proof (induction ts i rule: skip_trivia.induct)
  case (1 ts i)
  then show ?case by (simp add: skip_trivia.simps [of ts i])
qed

lemma skip_trivia_stop:
  "skip_trivia ts i < length ts \<Longrightarrow> \<not> is_trivia_kind (kind (ts ! skip_trivia ts i))"
proof (induction ts i rule: skip_trivia.induct)
  case (1 ts i)
  then show ?case by (cases "i < length ts \<and> is_trivia_kind (kind (ts ! i))")
      (auto simp: skip_trivia.simps [of ts i])
qed

lemma parse_comments_off:
  "\<not> enable_emmylua_doc (parse_config p) \<Longrightarrow>
   parse_comments dp ts p = Some (p\<lparr>events := events p @ map tok_event ts\<rparr>)"
  by (simp add: parse_comments_def support_emmylua_doc_def fold_eat)

definition trivia_events :: "LuaTokenData list \<Rightarrow> MarkEvent list" where
  "trivia_events ts = map tok_event (filter (\<lambda>t. is_trivia_kind (kind t)) ts)"

lemma trivia_step_off:
  assumes "\<not> enable_emmylua_doc (parse_config p)" and "i < length (tokens p)"
  shows "\<exists>lc' doc' es'. trivia_step dp i (lc, doc, p) = Some (lc', doc', p\<lparr>events := es'\<rparr>) \<and>
    es' @ map tok_event doc' = events p @ map tok_event doc @ trivia_events [tokens p ! i]"
  using assms
  by (simp add: trivia_step_def trivia_events_def parse_comments_off eat_event is_trivia_kind_def Let_def)

lemma trivia_loop_off:
  assumes "\<not> enable_emmylua_doc (parse_config p)" and "\<forall>i\<in>set is. i < length (tokens p)"
  shows "\<exists>lc' doc' es'. trivia_loop dp is (lc, doc, p) = Some (lc', doc', p\<lparr>events := es'\<rparr>) \<and>
    es' @ map tok_event doc' = events p @ map tok_event doc @ trivia_events (map ((!) (tokens p)) is)"
  using assms
proof (induction "is" arbitrary: lc doc p)
  case Nil
  show ?case by (auto simp: trivia_events_def intro!: exI [of _ "events p"])
next
  case (Cons i "is")
  obtain lc1 doc1 es1 where 1: "trivia_step dp i (lc, doc, p) = Some (lc1, doc1, p\<lparr>events := es1\<rparr>)"
    "es1 @ map tok_event doc1 = events p @ map tok_event doc @ trivia_events [tokens p ! i]"
    using trivia_step_off Cons.prems by force
  obtain lc2 doc2 es2 where 2: "trivia_loop dp is (lc1, doc1, p\<lparr>events := es1\<rparr>) = Some (lc2, doc2, p\<lparr>events := es2\<rparr>)"
    "es2 @ map tok_event doc2 = es1 @ map tok_event doc1 @ trivia_events (map ((!) (tokens p)) is)"
    using Cons.IH [of "p\<lparr>events := es1\<rparr>" lc1 doc1] Cons.prems by auto
  have "trivia_events (map ((!) (tokens p)) (i # is)) =
      trivia_events [tokens p ! i] @ trivia_events (map ((!) (tokens p)) is)"
    by (simp add: trivia_events_def)
  with 1(2) 2(2) have "es2 @ map tok_event doc2 =
      events p @ map tok_event doc @ trivia_events (map ((!) (tokens p)) (i # is))"
    by (metis append.assoc)
  with 1(1) 2(1) show ?case by (auto intro!: exI [of _ es2])
qed

lemma parse_trivia_off:
  assumes "\<not> enable_emmylua_doc (parse_config p)" and "j \<le> length (tokens p)"
  shows "parse_trivia_tokens dp j p =
    Some (p\<lparr>events := events p @ trivia_events (map ((!) (tokens p)) [token_index p ..< j])\<rparr>)"
proof -
  obtain lc doc es where "trivia_loop dp [token_index p ..< j] (0, [], p) = Some (lc, doc, p\<lparr>events := es\<rparr>)"
    "es @ map tok_event doc = events p @ trivia_events (map ((!) (tokens p)) [token_index p ..< j])"
    using trivia_loop_off [OF assms(1), of "[token_index p ..< j]" dp 0 "[]"] assms(2) by auto
  with assms(1) show ?thesis by (auto simp: parse_trivia_tokens_def parse_comments_off)
qed

lemma map_nth_interval: "j \<le> length xs \<Longrightarrow> map ((!) xs) [i ..< j] = drop i (take j xs)"
  by (rule nth_equalityI) auto

lemma upt_Cons: "i < j \<Longrightarrow> [i ..< j] = i # [Suc i ..< j]"
  by (rule upt_conv_Cons)

lemma pbump_off:
  assumes off: "\<not> enable_emmylua_doc (parse_config p)" and i: "token_index p < length (tokens p)"
    and cur: "current_token p = kind (tokens p ! token_index p)" "lexed_kind (current_token p)"
  defines "j \<equiv> skip_trivia (tokens p) (token_index p + 1)"
  shows "pbump dp p = Some (p\<lparr>
    events := events p @ map tok_event (drop (token_index p) (take j (tokens p))),
    token_index := j,
    current_token := (if length (tokens p) \<le> j then TkEof else kind (tokens p ! j))\<rparr>)"
proof -
  let ?i = "token_index p" and ?t = "tokens p ! token_index p"
  have j: "?i < j" "j \<le> length (tokens p)"
    using skip_trivia_le [of "?i + 1" "tokens p"] skip_trivia_bound [of "?i + 1" "tokens p"] i
    by (auto simp: j_def)
  have rest: "trivia_events (map ((!) (tokens p)) [Suc ?i ..< j]) = map tok_event (map ((!) (tokens p)) [Suc ?i ..< j])"
    using skip_trivia_between [of "?i + 1" _ "tokens p"] by (auto simp: trivia_events_def j_def filter_id_conv)
  have inv: "is_invalid_kind (current_token p) = is_trivia_kind (kind ?t)"
    using cur by (auto simp: is_invalid_kind_def is_trivia_kind_def lexed_kind_def)
  have whole: "drop ?i (take j (tokens p)) = ?t # map ((!) (tokens p)) [Suc ?i ..< j]"
    using map_nth_interval [OF j(2), of ?i] upt_Cons [OF j(1)] by simp
  let ?q = "if \<not> is_invalid_kind (current_token p) \<and> ?i < length (tokens p) then eat ?t p else p"
  have q: "?q = p\<lparr>events := events p @ (if is_trivia_kind (kind ?t) then [] else [tok_event ?t])\<rparr>"
    using i by (simp add: inv eat_event)
  have "parse_trivia_tokens dp j ?q = Some (p\<lparr>events := events p @ map tok_event (drop ?i (take j (tokens p)))\<rparr>)"
    unfolding q using off j(2) rest whole upt_Cons [OF j(1)]
    by (subst parse_trivia_off) (simp_all add: trivia_events_def)
  moreover have "skip_trivia (tokens ?q) (token_index ?q + 1) = j"
    unfolding q by (simp add: j_def)
  ultimately show ?thesis unfolding pbump_def by (simp add: Let_def)
qed

end
