(* ===== verification/Doc_Cursor.thy ===== *)
theory Doc_Cursor
  imports Doc_Parser Doc_Tiling Parser_Inv
begin

text \<open>
  The cursor of the documentation parser on a group of comments: what is invariant while it
  runs, and that reading the next token always returns, moves on, and loses nothing.
\<close>

section \<open>A group of comments\<close>

text \<open>
  The text of a group is \<open>concat (words G)\<close>, one word for each token; \<open>ahead G\<close> is the source text
  in front of it. The group starts with a comment, and no code point 0 is inside.
\<close>

record doc_group =
  base :: LuaParser
  group_toks :: "LuaTokenData list"
  ahead :: rstring
  words :: "rstring list"

definition off :: "doc_group \<Rightarrow> rstring \<Rightarrow> nat" where
  "off G x = blen (ahead G) + blen x"

abbreviation body :: "doc_group \<Rightarrow> rstring" where
  "body G \<equiv> concat (words G)"

abbreviation words_to :: "doc_group \<Rightarrow> nat \<Rightarrow> rstring" where
  "words_to G i \<equiv> concat (take i (words G))"

definition fits :: "doc_group \<Rightarrow> bool" where
  "fits G \<longleftrightarrow>
     words G \<noteq> [] \<and> [] \<notin> set (words G) \<and> 0 \<notin> set (body G) \<and>
     (\<exists>post. origin_text (base G) = ahead G @ body G @ post) \<and>
     length (group_toks G) = length (words G) \<and> \<not> is_space_token (kind (group_toks G ! 0)) \<and>
     (\<forall>i < length (words G). token_range (group_toks G ! i) = new_range (off G (words_to G i)) (blen (words G ! i)))"

lemma off_append [simp]: "off G (x @ y) = off G x + blen y"
  by (simp add: off_def)

lemma words_to_Suc: "i < length (words G) \<Longrightarrow> words_to G (Suc i) = words_to G i @ words G ! i"
  by (simp add: take_Suc_conv_app_nth)

lemma words_to_prefix: "\<exists>z. body G = words_to G i @ z"
  by (metis append_take_drop_id concat_append)

lemma words_to_all: "length (words G) \<le> i \<Longrightarrow> words_to G i = body G"
  by simp

lemma fits_slice:
  assumes "fits G" and "body G = x @ y @ z"
  shows "slice (origin_text (base G)) (off G x) (off G x + blen y) = Some y"
proof -
  from assms obtain post where "origin_text (base G) = (ahead G @ x) @ y @ z @ post"
    by (auto simp: fits_def)
  then show ?thesis using slice_append [of _ "ahead G @ x" _ y "z @ post"] by (simp add: off_def)
qed

lemma fits_drop:
  assumes "fits G" and "body G = x @ y"
  shows "\<exists>rest. drop_bytes (off G x) (origin_text (base G)) = Some rest"
proof -
  from assms obtain post where "origin_text (base G) = (ahead G @ x) @ y @ post" by (auto simp: fits_def)
  then show ?thesis using drop_bytes_append [of "ahead G @ x" "y @ post"] by (simp add: off_def)
qed

section \<open>The lexer inside a group\<close>

text \<open>
  \<open>lex_at G i lx x\<close>: the text of the group up to \<open>x\<close> has been read, \<open>i\<close> is the token it ends in. The
  window of the reader may start inside the token, after a change of the lexer state.
\<close>

definition lex_at :: "doc_group \<Rightarrow> nat \<Rightarrow> LuaDocLexer \<Rightarrow> rstring \<Rightarrow> bool" where
  "lex_at G i lx x \<longleftrightarrow>
     i < length (words G) \<and> doc_text lx = origin_text (base G) \<and> doc_reader lx \<noteq> None \<and>
     (if doc_is_invalid lx then x = words_to G (Suc i)
      else \<exists>r y before tok rest. doc_reader lx = Some r \<and> reading r before tok rest \<and>
        start_offset (valid_range r) = off G (words_to G i @ y) \<and>
        x = words_to G i @ y @ before @ tok \<and> x @ rest = words_to G (Suc i))"

lemma lex_at_body: "lex_at G i lx x \<Longrightarrow> \<exists>z. body G = x @ z"
  using words_to_prefix [of G "Suc i"] by (auto simp: lex_at_def split: if_splits) (metis append.assoc)

lemma lex_at_reading:
  assumes "lex_at G i lx x" and "\<not> doc_is_invalid lx"
  obtains r y before tok rest where "doc_reader lx = Some r" "reading r before tok rest" "\<not> is_eof r"
    "start_offset (valid_range r) = off G (words_to G i @ y)" "x = words_to G i @ y @ before @ tok"
    "x @ rest = words_to G (Suc i)" "i < length (words G)" "doc_text lx = origin_text (base G)"
  using assms by (auto simp: lex_at_def doc_is_invalid_def)

lemma fits_no_end:
  assumes "fits G" and "x @ rest = words_to G i"
  shows "0 \<notin> set rest"
  using assms words_to_prefix [of G i] by (auto simp: fits_def)
    (metis Un_iff set_append set_concat UN_iff)

text \<open>A reader whose window ends at the end of token \<open>i\<close>, with \<open>x\<close> read.\<close>

lemma lex_at_intro:
  assumes "fits G" and "i < length (words G)" and "doc_text lx = origin_text (base G)"
    and "doc_reader lx = Some r" and rd: "reading r before tok rest"
    and "start_offset (valid_range r) = off G (words_to G i @ y)"
    and x: "x = words_to G i @ y @ before @ tok" and "x @ rest = words_to G (Suc i)"
  shows "lex_at G i lx x"
proof -
  have z: "0 \<notin> set rest" by (rule fits_no_end [OF assms(1,8)])
  have "is_eof r \<longleftrightarrow> rest = []" using reading_is_eof [OF rd] z hd0_nonzero [of rest]
    by (cases rest) auto
  with assms show ?thesis by (auto simp: lex_at_def doc_is_invalid_def)
qed

lemma doc_lex_ok:
  assumes "fits G" and at: "lex_at G i lx x" and ok: "\<not> doc_is_invalid lx"
  shows "\<exists>k lx' w. doc_lex U lx = Some (k, lx') \<and> w \<noteq> [] \<and> piece_kind k \<and> lex_at G i lx' (x @ w) \<and>
    doc_token_range lx' = Some (new_range (off G x) (blen w)) \<and> (\<exists>y. x = words_to G i @ y)"
proof -
  obtain r y before tok rest where
    r: "doc_reader lx = Some r" "reading r before tok rest" "\<not> is_eof r"
    "start_offset (valid_range r) = off G (words_to G i @ y)" "x = words_to G i @ y @ before @ tok"
    "x @ rest = words_to G (Suc i)" "i < length (words G)" "doc_text lx = origin_text (base G)"
    by (rule lex_at_reading [OF at ok])
  let ?r = "reset_buff r"
  have rd: "reading ?r (before @ tok) [] rest" by (rule reading_reset [OF r(2)])
  have "0 \<notin> set rest" by (rule fits_no_end [OF assms(1) r(6)])
  from doc_lex_match_progress [OF rd this, of U "origin_token_kind lx" "doc_state lx"] r(3)
  obtain k st s where m: "doc_lex_match U (origin_token_kind lx) (doc_state lx) ?r = Some (k, st, s)"
    and fw: "fwd (bump ?r) s" and k: "piece_kind k" by (auto simp: wp_iff)
  from fwd_bump_reading [OF fw rd] r(3) obtain w rest' where
    w: "rest = w @ rest'" "w \<noteq> []" and rd': "reading s (before @ tok) w rest'" by auto
  have vr: "valid_range s = valid_range r" using fwd_valid_range [OF fw] by simp
  let ?lx = "lx\<lparr>doc_reader := Some s, doc_state := st\<rparr>"
  have "lex_at G i ?lx (x @ w)"
    by (rule lex_at_intro [OF assms(1) r(7) _ _ rd']) (use r w vr in auto)
  moreover have "doc_token_range ?lx = Some (new_range (off G x) (blen w))"
    using reading_current_range [OF rd'] r(4,5) vr by (simp add: doc_token_range_def)
  ultimately show ?thesis
    using m k w r(1,3,5) by (auto simp: doc_lex_def Let_def)
qed

text \<open>Starting, or starting again, at \<open>x\<close> inside the token.\<close>

lemma doc_reset_ok:
  assumes G: "fits G" and i: "i < length (words G)" and src: "doc_text lx = origin_text (base G)"
    and x: "words_to G (Suc i) = words_to G i @ y @ z" "z \<noteq> []"
  shows "\<exists>lx'. doc_reset k (new_range (off G (words_to G i @ y)) (blen z)) lx = Some lx' \<and>
    lex_at G i lx' (words_to G i @ y) \<and> \<not> doc_is_invalid lx' \<and> doc_state lx' = doc_state lx"
proof -
  obtain t where "body G = words_to G (Suc i) @ t" using words_to_prefix by blast
  then have sl: "slice (origin_text (base G)) (off G (words_to G i @ y)) (off G (words_to G i @ y) + blen z) = Some z"
    using fits_slice [OF G, of "words_to G i @ y" z t] x by simp
  define r where "r = the (new_with_range z (new_range (off G (words_to G i @ y)) (blen z)))"
  have r: "new_with_range z (new_range (off G (words_to G i @ y)) (blen z)) = Some r"
    by (simp add: r_def new_with_range_def)
  have rd: "reading r [] [] z" and vr: "valid_range r = new_range (off G (words_to G i @ y)) (blen z)"
    by (simp_all add: r_def new_with_range_def reading_def reader_at_def)
  let ?lx = "lx\<lparr>doc_reader := Some r, origin_token_kind := k\<rparr>"
  have "lex_at G i ?lx (words_to G i @ y)"
    by (rule lex_at_intro [OF G i _ _ rd]) (use src x vr in simp_all)
  moreover have "0 \<notin> set z" by (rule fits_no_end [OF G, of "words_to G i @ y" z "Suc i"]) (simp add: x)
  then have "\<not> is_eof r" using reading_is_eof [OF rd] x(2) by (cases z) auto
  ultimately show ?thesis
    using r sl src by (simp add: doc_reset_def end_offset_def doc_is_invalid_def)
qed

section \<open>The state of the parser\<close>

text \<open>
  \<open>pieces a xs t\<close>: the eaten tokens \<open>xs\<close> cut the text \<open>t\<close>, which starts at offset \<open>a\<close>, into adjacent
  pieces, none of them empty.
\<close>

fun pieces :: "nat \<Rightarrow> (LuaTokenKind \<times> SourceRange) list \<Rightarrow> rstring \<Rightarrow> bool" where
  "pieces a [] t \<longleftrightarrow> t = []"
| "pieces a ((k, r) # xs) t \<longleftrightarrow>
     (\<exists>w t'. t = w @ t' \<and> w \<noteq> [] \<and> r = new_range a (blen w) \<and> piece_kind k \<and> pieces (a + blen w) xs t')"

lemma pieces_snoc:
  "pieces a xs t \<Longrightarrow> w \<noteq> [] \<Longrightarrow> piece_kind k \<Longrightarrow> pieces a (xs @ [(k, new_range (a + blen t) (blen w))]) (t @ w)"
proof (induction a xs t rule: pieces.induct)
  case (2 a k' r xs t)
  then obtain v t' where v: "t = v @ t'" "v \<noteq> []" "r = new_range a (blen v)" "piece_kind k'" "pieces (a + blen v) xs t'"
    by auto
  with 2(1) [OF v(5) 2(3,4)] have "pieces (a + blen v) (xs @ [(k, new_range (a + blen t) (blen w))]) (t' @ w)"
    by (simp add: add.assoc)
  with v have "t @ w = v @ t' @ w \<and> v \<noteq> [] \<and> r = new_range a (blen v) \<and> piece_kind k' \<and>
      pieces (a + blen v) (xs @ [(k, new_range (a + blen t) (blen w))]) (t' @ w)" by simp
  then show ?case by (simp only: append_Cons pieces.simps) blast
qed simp

text \<open>What the documentation parser leaves alone in the Lua parser.\<close>

definition keeps :: "LuaParser \<Rightarrow> LuaParser \<Rightarrow> bool" where
  "keeps p p' \<longleftrightarrow>
     origin_text p' = origin_text p \<and> tokens p' = tokens p \<and> token_index p' = token_index p \<and>
     current_token p' = current_token p \<and> parse_config p' = parse_config p \<and>
     (\<exists>xs. errors p' = errors p @ xs)"

definition ate :: "doc_group \<Rightarrow> LuaDocParser \<Rightarrow> rstring \<Rightarrow> bool" where
  "ate G d t \<longleftrightarrow>
     fits G \<and> comment_tokens d = group_toks G \<and> keeps (base G) (lua_parser d) \<and>
     (\<exists>new. devents d = events (base G) @ new \<and> pieces (off G []) (eaten new) t)"

text \<open>\<open>between G d t\<close>: \<open>t\<close> is eaten and the lexer stands behind it.\<close>

definition range_in :: "doc_group \<Rightarrow> LuaDocParser \<Rightarrow> rstring \<Rightarrow> bool" where
  "range_in G d t \<longleftrightarrow> (\<exists>x y. t = x @ y \<and> drange d = new_range (off G x) (blen y))"

definition between :: "doc_group \<Rightarrow> LuaDocParser \<Rightarrow> rstring \<Rightarrow> bool" where
  "between G d t \<longleftrightarrow>
     ate G d t \<and> lex_at G (origin_token_index d) (dlexer d) t \<and>
     (doc_is_invalid (dlexer d) \<longrightarrow> dtoken d \<noteq> TkNone \<and> range_in G d t)"

text \<open>\<open>holding G d t w\<close>: \<open>t\<close> is eaten and the current token is the piece \<open>w\<close> behind it.\<close>

definition holding :: "doc_group \<Rightarrow> LuaDocParser \<Rightarrow> rstring \<Rightarrow> rstring \<Rightarrow> bool" where
  "holding G d t w \<longleftrightarrow>
     ate G d t \<and> w \<noteq> [] \<and> piece_kind (dtoken d) \<and> drange d = new_range (off G t) (blen w) \<and>
     lex_at G (origin_token_index d) (dlexer d) (t @ w) \<and>
     (\<not> doc_is_invalid (dlexer d) \<longrightarrow> (\<exists>y. t = words_to G (origin_token_index d) @ y))"

definition at_end :: "doc_group \<Rightarrow> LuaDocParser \<Rightarrow> bool" where
  "at_end G d \<longleftrightarrow>
     ate G d (body G) \<and> dtoken d = TkEof \<and> doc_is_invalid (dlexer d) \<and>
     lex_at G (origin_token_index d) (dlexer d) (body G) \<and> range_in G d (body G)"

definition dgood :: "doc_group \<Rightarrow> LuaDocParser \<Rightarrow> bool" where
  "dgood G d \<longleftrightarrow> at_end G d \<or> (\<exists>t w. holding G d t w)"

text \<open>The bytes from the current piece to the end of the group.\<close>

definition rem :: "LuaDocParser \<Rightarrow> nat" where
  "rem d =
     (if dtoken d = TkEof then 0
      else end_offset (token_range (last (comment_tokens d))) - start_offset (drange d))"

lemma piece_kindD: "piece_kind k \<Longrightarrow> k \<noteq> TkNone \<and> k \<noteq> TkEof"
  by (simp add: piece_kind_def)

lemma fits_stop:
  assumes "fits G"
  shows "end_offset (token_range (last (group_toks G))) = off G (body G)"
proof -
  from assms have ne: "words G \<noteq> []" and len: "length (group_toks G) = length (words G)" by (simp_all add: fits_def)
  let ?i = "length (words G) - 1"
  have i: "?i < length (words G)" using ne by simp
  then have "last (group_toks G) = group_toks G ! ?i" using len ne by (metis last_conv_nth length_0_conv)
  moreover have "token_range (group_toks G ! ?i) = new_range (off G (words_to G ?i)) (blen (words G ! ?i))"
    using assms i by (simp add: fits_def)
  moreover have "words_to G ?i @ words G ! ?i = body G" using words_to_Suc [OF i] i by simp
  then have "off G (words_to G ?i) + blen (words G ! ?i) = off G (body G)"
    by (metis off_append)
  ultimately show ?thesis by (simp add: end_offset_def)
qed

lemma rem_holding:
  assumes "holding G d t w"
  shows "rem d = blen (body G) - blen t" and "\<exists>z. body G = t @ w @ z"
proof -
  from assms have G: "fits G" "comment_tokens d = group_toks G" "drange d = new_range (off G t) (blen w)"
    "dtoken d \<noteq> TkEof" "lex_at G (origin_token_index d) (dlexer d) (t @ w)"
    by (auto simp: holding_def ate_def dest: piece_kindD)
  from fits_stop [OF G(1)] G show "rem d = blen (body G) - blen t" by (simp add: rem_def off_def)
  from lex_at_body [OF G(5)] show "\<exists>z. body G = t @ w @ z" by simp
qed

lemma rem_at_end: "at_end G d \<Longrightarrow> rem d = 0"
  by (simp add: at_end_def rem_def)

lemma lex_at_end:
  assumes "fits G" and "lex_at G i lx x" and "doc_is_invalid lx" and "length (words G) \<le> Suc i"
  shows "x = body G"
  using assms by (simp add: lex_at_def)

section \<open>The next token\<close>

lemma lex_inside:
  assumes "fits G" and "lex_at G i (dlexer d) x" and "\<not> doc_is_invalid (dlexer d)"
  shows "\<exists>k w lx. doc_lex U (dlexer d) = Some (k, lx) \<and> k \<noteq> TkEof \<and>
    doc_token_range lx = Some (new_range (off G x) (blen w)) \<and> w \<noteq> [] \<and> piece_kind k \<and>
    lex_at G i lx (x @ w) \<and> (\<exists>y. x = words_to G i @ y)"
  using doc_lex_ok [OF assms, of U] by (auto simp: piece_kind_def)

lemma lex_token_ok:
  assumes G: "fits G" and toks: "comment_tokens d = group_toks G"
    and at: "lex_at G (origin_token_index d) (dlexer d) x"
    and cur: "doc_is_invalid (dlexer d) \<Longrightarrow> dtoken d \<noteq> TkNone"
  shows "(doc_is_invalid (dlexer d) \<and> x = body G \<and>
      lex_token U d = Some (token_new TkEof (new_range (end_offset (drange d)) 0), d)) \<or>
    (\<exists>k w lx i. lex_token U d = Some (token_new k (new_range (off G x) (blen w)),
        d\<lparr>dlexer := lx, origin_token_index := i\<rparr>) \<and> w \<noteq> [] \<and> piece_kind k \<and> lex_at G i lx (x @ w) \<and>
        (\<not> doc_is_invalid lx \<longrightarrow> (\<exists>y. x = words_to G i @ y)))"
proof (cases "doc_is_invalid (dlexer d)")
  case False
  from lex_inside [OF G at False, of U] obtain k w lx where
    lex: "doc_lex U (dlexer d) = Some (k, lx)" "k \<noteq> TkEof" "doc_token_range lx = Some (new_range (off G x) (blen w))"
    "w \<noteq> []" "piece_kind k" "lex_at G (origin_token_index d) lx (x @ w)"
    "\<exists>y. x = words_to G (origin_token_index d) @ y" by blast
  have "lex_token U d = Some (token_new k (new_range (off G x) (blen w)), d\<lparr>dlexer := lx\<rparr>)"
    using False lex(1-3) by (subst lex_token.simps) (simp add: Let_def)
  moreover have "d\<lparr>dlexer := lx\<rparr> = d\<lparr>dlexer := lx, origin_token_index := origin_token_index d\<rparr>" by simp
  ultimately show ?thesis using lex(4-7)
    by (intro disjI2 exI [of _ k] exI [of _ w] exI [of _ lx] exI [of _ "origin_token_index d"]) simp
next
  case True
  let ?i = "origin_token_index d" and ?j = "Suc (origin_token_index d)"
  have len: "length (comment_tokens d) = length (words G)" using G toks by (simp add: fits_def)
  have x: "x = words_to G ?j" and src: "doc_text (dlexer d) = origin_text (base G)"
    and rd: "doc_reader (dlexer d) \<noteq> None" using at True by (simp_all add: lex_at_def)
  show ?thesis
  proof (cases "length (words G) \<le> ?j")
    case final: True
    with True cur x show ?thesis
      by (subst lex_token.simps) (simp add: Let_def len)
  next
    case False
    then have j: "?j < length (words G)" by simp
    let ?t = "group_toks G ! ?j" and ?w = "words G ! ?j"
    have w: "?w \<noteq> []" using G j by (metis fits_def nth_mem)
    have rng: "token_range ?t = new_range (off G x) (blen ?w)" using G j x by (simp add: fits_def)
    have step: "lex_token U d = (if is_space_token (kind ?t) then Some (?t, d\<lparr>origin_token_index := ?j\<rparr>)
        else do {
          lx \<leftarrow> doc_reset (kind ?t) (token_range ?t) (dlexer d);
          (k, lx) \<leftarrow> doc_lex U lx;
          if k = TkEof then lex_token U (d\<lparr>origin_token_index := ?j, dlexer := lx\<rparr>)
          else do { rng \<leftarrow> doc_token_range lx;
                    Some (token_new k rng, d\<lparr>origin_token_index := ?j, dlexer := lx\<rparr>) }
        })"
      using True cur False len by (subst lex_token.simps) (simp add: Let_def toks)
    have xw: "words_to G (Suc ?j) = x @ ?w" using words_to_Suc [OF j] x by simp
    show ?thesis
    proof (cases "is_space_token (kind ?t)")
      case space: True
      have "lex_at G ?j (dlexer d) (x @ ?w)" using True j src rd xw by (simp add: lex_at_def)
      moreover have "?t = token_new (kind ?t) (new_range (off G x) (blen ?w))"
        using rng by (simp add: token_new_def)
      moreover have "piece_kind (kind ?t)" using space by (auto simp: is_space_token_def)
      ultimately show ?thesis using step space w True
        by (intro disjI2 exI [of _ "kind ?t"] exI [of _ ?w] exI [of _ "dlexer d"] exI [of _ ?j]) simp
    next
      case False
      from doc_reset_ok [OF G j src, of "[]" ?w "kind ?t"] xw x w obtain lx where
        lx: "doc_reset (kind ?t) (token_range ?t) (dlexer d) = Some lx" "lex_at G ?j lx x" "\<not> doc_is_invalid lx"
        by (auto simp: rng)
      from doc_lex_ok [OF G lx(2,3), of U] obtain k lx' w where
        lex: "doc_lex U lx = Some (k, lx')" "w \<noteq> []" "piece_kind k" "lex_at G ?j lx' (x @ w)"
        "doc_token_range lx' = Some (new_range (off G x) (blen w))" "\<exists>y. x = words_to G ?j @ y" by blast
      have "lex_token U d = Some (token_new k (new_range (off G x) (blen w)), d\<lparr>dlexer := lx', origin_token_index := ?j\<rparr>)"
        using step False lx(1) lex(1,5) piece_kindD [OF lex(3)] by simp
      with lex(2-4,6) show ?thesis
        by (intro disjI2 exI [of _ k] exI [of _ w] exI [of _ lx'] exI [of _ ?j]) simp
    qed
  qed
qed

lemma holding_next:
  assumes b: "between G d t" and "lex_at G i lx (t @ w)" "w \<noteq> []" "piece_kind k"
    "\<not> doc_is_invalid lx \<longrightarrow> (\<exists>y. t = words_to G i @ y)"
  shows "holding G (d\<lparr>dlexer := lx, origin_token_index := i, dtoken := k, drange := new_range (off G t) (blen w)\<rparr>) t w"
  using assms by (simp add: holding_def between_def ate_def devents_def)

lemma at_end_next:
  assumes b: "between G d (body G)" and "doc_is_invalid (dlexer d)" and "range_in G d' (body G)"
    and "d' = d\<lparr>dtoken := TkEof, drange := r\<rparr>"
  shows "at_end G d'"
  using assms by (simp add: at_end_def between_def ate_def devents_def)

text \<open>Both ways in which the source takes over the token that was read.\<close>

lemma next_token:
  assumes "between G d t"
  shows "\<exists>tk d'. lex_token U d = Some (tk, d') \<and> lua_parser d' = lua_parser d \<and>
    dgood G (d'\<lparr>dtoken := kind tk, drange := token_range tk\<rparr>) \<and>
    dgood G (take_token tk d') \<and>
    rem (d'\<lparr>dtoken := kind tk, drange := token_range tk\<rparr>) = blen (body G) - blen t \<and>
    rem (take_token tk d') = blen (body G) - blen t \<and> kind tk \<noteq> TkNone"
proof -
  from assms have G: "fits G" "comment_tokens d = group_toks G"
    and at: "lex_at G (origin_token_index d) (dlexer d) t"
    and inv: "doc_is_invalid (dlexer d) \<Longrightarrow> dtoken d \<noteq> TkNone \<and> range_in G d t"
    by (simp_all add: between_def ate_def)
  consider (last) "doc_is_invalid (dlexer d)" "t = body G"
      "lex_token U d = Some (token_new TkEof (new_range (end_offset (drange d)) 0), d)"
    | (more) k w lx i where "lex_token U d = Some (token_new k (new_range (off G t) (blen w)),
        d\<lparr>dlexer := lx, origin_token_index := i\<rparr>)" "w \<noteq> []" "piece_kind k" "lex_at G i lx (t @ w)"
        "\<not> doc_is_invalid lx \<longrightarrow> (\<exists>y. t = words_to G i @ y)"
    using lex_token_ok [OF G at, of U] inv by blast
  then show ?thesis
  proof cases
    case last
    let ?r = "new_range (end_offset (drange d)) 0"
    from inv [OF last(1)] last(2) obtain x y where xy: "body G = x @ y" "drange d = new_range (off G x) (blen y)"
      by (auto simp: range_in_def)
    then have "end_offset (drange d) = off G (body G)" by (simp add: end_offset_def)
    then have "range_in G (d\<lparr>dtoken := TkEof, drange := ?r\<rparr>) (body G)"
      by (simp add: range_in_def) (metis append_Nil2 blen_simps(1))
    moreover have "range_in G (take_token (token_new TkEof ?r) d) (body G)"
      using inv [OF last(1)] last(2) by (simp add: take_token_def token_new_def is_empty_def range_in_def)
    ultimately have "at_end G (d\<lparr>dtoken := TkEof, drange := ?r\<rparr>)" "at_end G (take_token (token_new TkEof ?r) d)"
      using at_end_next [of G d _ ?r] at_end_next [of G d _ "drange d"] assms last(1,2)
      by (simp_all add: take_token_def token_new_def is_empty_def)
    with last show ?thesis
      by (intro exI [of _ "token_new TkEof ?r"] exI [of _ d])
        (simp add: dgood_def rem_at_end token_new_def rem_def take_token_def)
  next
    case more
    note h = holding_next [OF assms more(4,2,3,5)]
    have e: "\<not> is_empty (new_range (off G t) (blen w))" using more(2) by (simp add: is_empty_def)
    let ?d = "d\<lparr>dlexer := lx, origin_token_index := i\<rparr>" and ?tk = "token_new k (new_range (off G t) (blen w))"
    have tk: "take_token ?tk ?d = ?d\<lparr>dtoken := k, drange := new_range (off G t) (blen w)\<rparr>"
      "?d\<lparr>dtoken := kind ?tk, drange := token_range ?tk\<rparr> = ?d\<lparr>dtoken := k, drange := new_range (off G t) (blen w)\<rparr>"
      using e by (simp_all add: take_token_def token_new_def)
    have "lua_parser ?d = lua_parser d" "kind ?tk \<noteq> TkNone"
      using piece_kindD [OF more(3)] by (simp_all add: token_new_def)
    with more(1) h rem_holding(1) [OF h] show ?thesis
      by (intro exI [of _ ?tk] exI [of _ ?d]) (unfold tk dgood_def, auto)
  qed
qed

section \<open>Eating and moving on\<close>

text \<open>
  \<open>grows d d'\<close>: events are only added (starts stay starts), the mark level does not drop below
  the one at \<open>d\<close>, and when the cursor has moved on, so has the list of events.
\<close>

definition starts :: "MarkEvent list \<Rightarrow> nat \<Rightarrow> bool" where
  "starts es j \<longleftrightarrow> start_at es j \<noteq> None"

definition grows :: "LuaDocParser \<Rightarrow> LuaDocParser \<Rightarrow> bool" where
  "grows d d' \<longleftrightarrow>
     rem d' \<le> rem d \<and> length (devents d) \<le> length (devents d') \<and>
     (rem d' < rem d \<longrightarrow> length (devents d) < length (devents d')) \<and>
     mark_level (lua_parser d) \<le> mark_level (lua_parser d') \<and>
     (\<forall>j. starts (devents d) j \<longrightarrow> starts (devents d') j)"

definition dsteps :: "doc_group \<Rightarrow> LuaDocParser \<Rightarrow> LuaDocParser \<Rightarrow> bool" where
  "dsteps G d d' \<longleftrightarrow> dgood G d' \<and> grows d d'"

lemma grows_refl [simp]: "grows d d"
  by (simp add: grows_def)

lemma grows_trans: "grows d d' \<Longrightarrow> grows d' d'' \<Longrightarrow> grows d d''"
  unfolding grows_def by (elim conjE, intro conjI allI impI; (linarith | blast)?)

lemma dsteps_trans: "dsteps G d d' \<Longrightarrow> dsteps G d' d'' \<Longrightarrow> dsteps G d d''"
  by (auto simp: dsteps_def intro: grows_trans)

lemma dsteps_refl: "dgood G d \<Longrightarrow> dsteps G d d"
  by (simp add: dsteps_def)

lemma starts_snoc: "starts es j \<Longrightarrow> starts (es @ xs) j"
  by (auto simp: starts_def start_at_def nth_append split: if_splits)

lemma dgood_fits: "dgood G d \<Longrightarrow> fits G"
  by (auto simp: dgood_def at_end_def holding_def ate_def)

lemma dgood_token: "dgood G d \<Longrightarrow> dtoken d \<noteq> TkNone"
  by (auto simp: dgood_def at_end_def holding_def dest: piece_kindD)

lemma dgood_holding:
  assumes "dgood G d" and "dtoken d \<noteq> TkEof"
  obtains t w where "holding G d t w"
  using assms by (auto simp: dgood_def at_end_def)

lemma dgood_at_end: "dgood G d \<Longrightarrow> dtoken d = TkEof \<Longrightarrow> at_end G d"
  by (auto simp: dgood_def holding_def dest: piece_kindD)

lemma push_token_devents: "devents (push_token k r d) = devents d @ [EatToken k r]"
  by (simp add: push_token_def devents_def push_event_def)

lemma push_token_fields [simp]:
  "dtoken (push_token k r d) = dtoken d" "drange (push_token k r d) = drange d"
  "dlexer (push_token k r d) = dlexer d" "origin_token_index (push_token k r d) = origin_token_index d"
  "comment_tokens (push_token k r d) = comment_tokens d" "dstate (push_token k r d) = dstate d"
  "mark_level (lua_parser (push_token k r d)) = mark_level (lua_parser d)"
  by (simp_all add: push_token_def push_event_def)

lemma ate_push:
  assumes "ate G d t" and "w \<noteq> []" and "piece_kind k"
  shows "ate G (push_token k (new_range (off G t) (blen w)) d) (t @ w)"
proof -
  from assms(1) obtain new where new: "devents d = events (base G) @ new" "pieces (off G []) (eaten new) t"
    by (auto simp: ate_def)
  from pieces_snoc [OF new(2) assms(2,3)] have
    "pieces (off G []) (eaten (new @ [EatToken k (new_range (off G t) (blen w))])) (t @ w)"
    by (simp add: off_def)
  with new(1) assms(1) show ?thesis
    unfolding ate_def push_token_devents
    by (intro conjI exI [of _ "new @ [EatToken k (new_range (off G t) (blen w))]"])
      (simp_all add: keeps_def push_token_def push_event_def)
qed

lemma between_push:
  assumes "holding G d t w"
  shows "between G (push_token (dtoken d) (drange d) d) (t @ w)"
  using assms ate_push [of G d t w "dtoken d"] piece_kindD [of "dtoken d"]
  by (auto simp: holding_def between_def range_in_def)

text \<open>One token eaten, the next one taken in either of the two ways.\<close>

lemma moved_on:
  assumes "holding G d t w" and "lua_parser d' = lua_parser (push_token (dtoken d) (drange d) d)"
    and "dgood G d'" and "rem d' = blen (body G) - blen (t @ w)"
  shows "dsteps G d d'" and "rem d' < rem d"
proof -
  from rem_holding [OF assms(1)] obtain z where z: "rem d = blen (body G) - blen t" "body G = t @ w @ z" by blast
  have "w \<noteq> []" using assms(1) by (simp add: holding_def)
  with z assms(4) show less: "rem d' < rem d" by (simp add: blen_eq_0 [symmetric] del: blen_eq_0)
  have "devents d' = devents d @ [EatToken (dtoken d) (drange d)]"
    using push_token_devents [of "dtoken d" "drange d" d] assms(2) by (simp add: devents_def)
  with less assms(2,3) show "dsteps G d d'"
    by (simp add: dsteps_def grows_def starts_snoc)
qed

lemma eat_current_ok:
  assumes "holding G d t w"
  shows "\<exists>d'. eat_current_and_lex_next U d = Some d' \<and> dsteps G d d' \<and> rem d' < rem d"
proof -
  from next_token [OF between_push [OF assms], of U] obtain tk d1 where
    d1: "lex_token U (push_token (dtoken d) (drange d) d) = Some (tk, d1)"
    "lua_parser d1 = lua_parser (push_token (dtoken d) (drange d) d)"
    "dgood G (take_token tk d1)" "rem (take_token tk d1) = blen (body G) - blen (t @ w)" by blast
  have "lua_parser (take_token tk d1) = lua_parser d1" by (simp add: take_token_def)
  with moved_on [OF assms _ d1(3,4)] d1 show ?thesis by (simp add: eat_current_and_lex_next_def)
qed

lemma skipped_between_eof [simp]: "\<not> skipped_between st TkEof"
  by (cases st) (simp_all add: skipped_between_def)

lemma eat_between_ok:
  assumes "dgood G d" and "\<not> skipped TkEof"
  shows "\<exists>d'. eat_between U skipped d = Some d' \<and> dsteps G d d'"
  using assms(1)
proof (induction "rem d" arbitrary: d rule: less_induct)
  case less
  show ?case
  proof (cases "skipped (dtoken d)")
    case False
    with less.prems show ?thesis by (subst eat_between.simps) (simp add: dsteps_refl)
  next
    case True
    with assms(2) have "dtoken d \<noteq> TkEof" by auto
    with less.prems obtain t w where "holding G d t w" by (rule dgood_holding)
    from eat_current_ok [OF this, of U] obtain d1 where
      d1: "eat_current_and_lex_next U d = Some d1" "dsteps G d d1" "rem d1 < rem d" by blast
    from less.hyps [OF d1(3)] d1(2) obtain d2 where "eat_between U skipped d1 = Some d2" "dsteps G d1 d2"
      by (auto simp: dsteps_def)
    with d1 True show ?thesis by (subst eat_between.simps) (auto intro: dsteps_trans)
  qed
qed

text \<open>\<open>calc_next_current_token\<close> behind a text that is eaten.\<close>

lemma calc_next_ok:
  assumes "between G d t"
  shows "\<exists>d' d1. calc_next_current_token U d = Some d' \<and> dsteps G d1 d' \<and> lua_parser d1 = lua_parser d \<and>
    dgood G d1 \<and> rem d1 = blen (body G) - blen t \<and> (dtoken d' = TkEof \<longrightarrow> rem d' = 0)"
proof -
  from next_token [OF assms, of U] obtain tk d0 where d0: "lex_token U d = Some (tk, d0)"
    "lua_parser d0 = lua_parser d" "dgood G (d0\<lparr>dtoken := kind tk, drange := token_range tk\<rparr>)"
    "rem (d0\<lparr>dtoken := kind tk, drange := token_range tk\<rparr>) = blen (body G) - blen t" by blast
  let ?d = "d0\<lparr>dtoken := kind tk, drange := token_range tk\<rparr>"
  have lp: "lua_parser ?d = lua_parser d" using d0(2) by simp
  show ?thesis
  proof (cases "kind tk = TkEof")
    case True
    with d0(1) have "calc_next_current_token U d = Some ?d" by (simp add: calc_next_current_token_def Let_def)
    with d0(3,4) lp True show ?thesis
      by (intro exI [of _ ?d]) (simp add: dsteps_refl rem_def)
  next
    case False
    from eat_between_ok [OF d0(3), of "skipped_between (doc_state (dlexer ?d))" U] obtain d' where
      "eat_between U (skipped_between (doc_state (dlexer ?d))) ?d = Some d'" "dsteps G ?d d'" by auto
    with d0 lp False show ?thesis
      by (intro exI [of _ d'] exI [of _ ?d]) (simp add: calc_next_current_token_def Let_def rem_def)
  qed
qed

lemma dbump_ok:
  assumes "dgood G d"
  shows "\<exists>d'. dbump U d = Some d' \<and> dsteps G d d' \<and> (dtoken d \<noteq> TkEof \<longrightarrow> rem d' < rem d)"
proof (cases "dtoken d = TkEof")
  case True
  then have e: "at_end G d" using dgood_at_end [OF assms] by simp
  then have "between G d (body G)" by (simp add: at_end_def between_def)
  from calc_next_ok [OF this, of U] obtain d' d1 where
    d': "calc_next_current_token U d = Some d'" "dsteps G d1 d'" "lua_parser d1 = lua_parser d" "dgood G d1"
    "rem d1 = blen (body G) - blen (body G)" by blast
  with rem_at_end [OF e] have "grows d d1" by (simp add: grows_def devents_def)
  with d' have "dsteps G d d'" by (auto simp: dsteps_def intro: grows_trans)
  with d' True show ?thesis by (simp add: dbump_def dis_invalid_kind_def)
next
  case False
  with assms obtain t w where h: "holding G d t w" by (rule dgood_holding)
  from calc_next_ok [OF between_push [OF h], of U] obtain d' d1 where
    d': "calc_next_current_token U (push_token (dtoken d) (drange d) d) = Some d'" "dsteps G d1 d'"
    "lua_parser d1 = lua_parser (push_token (dtoken d) (drange d) d)" "dgood G d1"
    "rem d1 = blen (body G) - blen (t @ w)" by blast
  from moved_on [OF h d'(3,4,5)] have "dsteps G d d1" "rem d1 < rem d" .
  moreover from d'(2) have "rem d' \<le> rem d1" by (simp add: dsteps_def grows_def)
  ultimately have "dsteps G d d'" "rem d' < rem d" using dsteps_trans [OF _ d'(2)] by auto
  with d'(1) False dgood_token [OF assms] show ?thesis by (simp add: dbump_def dis_invalid_kind_def)
qed

end
