(* ===== verification/Doc_Types.thy ===== *)
theory Doc_Types
  imports Doc_Parser
begin

text \<open>
  \<open>crates/glua_parser/src/grammar/doc/types.rs\<close>: the grammar of types in documentation comments,
  with \<open>parse_generic_decl_list\<close> of \<open>tag.rs\<close> that it uses.
\<close>

section \<open>The environment\<close>

text \<open>
  The functions of the grammar call each other recursively; the nested calls go through a
  record, like in the Lua grammar. \<open>dsub\<close> is \<open>parse_sub_type\<close>, \<open>dtype\<close> is \<open>parse_type\<close>.
\<close>

record denv =
  uni :: Unicode
  dsub :: "int \<Rightarrow> LuaDocParser \<Rightarrow> CompleteMarker doc_run"
  dtype :: "LuaDocParser \<Rightarrow> CompleteMarker doc_run"

text \<open>Steps with a unit result, to sequence them with \<open>attempt\<close>.\<close>

definition step :: "LuaDocParser option \<Rightarrow> unit doc_run" where
  "step m = do { d \<leftarrow> m; Some (DOk (), d) }"

definition expect :: "denv \<Rightarrow> LuaTokenKind \<Rightarrow> LuaDocParser \<Rightarrow> unit doc_run" where
  "expect E token d = dexpect_token (uni E) token d"

definition bump_d :: "denv \<Rightarrow> LuaDocParser \<Rightarrow> unit doc_run" where
  "bump_d E d = step (dbump (uni E) d)"

text \<open>\<open>while p.current_token() == TkComma { p.bump(); f(p)?; }\<close>\<close>

partial_function (option) comma_loop ::
  "denv \<Rightarrow> (LuaDocParser \<Rightarrow> 'a doc_run) \<Rightarrow> LuaDocParser \<Rightarrow> (unit dres \<times> LuaDocParser) option" where
  "comma_loop E f d =
     (if dtoken d = TkComma then do {
        d \<leftarrow> dbump (uni E) d;
        (r, d) \<leftarrow> f d;
        case r of DOk _ \<Rightarrow> comma_loop E f d | DErr e \<Rightarrow> Some (DErr e, d)
      }
      else Some (DOk (), d))"

declare comma_loop.simps [code]

section \<open>Simple types\<close>

text \<open>A node of one token.\<close>

definition one_token :: "denv \<Rightarrow> LuaSyntaxKind \<Rightarrow> LuaDocParser \<Rightarrow> CompleteMarker doc_run" where
  "one_token E k d = (let (m, d) = dmark k d in attempt (bump_d E d) (\<lambda>_ d. finish m d))"

definition parse_type_list :: "denv \<Rightarrow> LuaDocParser \<Rightarrow> CompleteMarker doc_run" where
  "parse_type_list E d =
     (let (m, d) = dmark DocTypeList d in
      attempt (dtype E d) (\<lambda>_ d.
      attempt (comma_loop E (dtype E) d) (\<lambda>_ d. finish m d)))"

definition parse_mapped_key :: "denv \<Rightarrow> LuaDocParser \<Rightarrow> CompleteMarker doc_run" where
  "parse_mapped_key E d =
     (let (m, d) = dmark DocMappedKey d in
      attempt (expect E TkLeftBracket d) (\<lambda>_ d.
      let (param, d) = dmark DocGenericParameter d in
      attempt (expect E TkName d) (\<lambda>_ d.
      attempt (expect E TkIn d) (\<lambda>_ d.
      attempt (dtype E d) (\<lambda>_ d.
      attempt (finish param d) (\<lambda>_ d.
      attempt (if dtoken d = TkDocAs then attempt (bump_d E d) (\<lambda>_ d. attempt (dtype E d) (\<lambda>_ d. Some (DOk (), d)))
               else Some (DOk (), d)) (\<lambda>_ d.
      attempt (expect E TkRightBracket d) (\<lambda>_ d. finish m d))))))))"

text \<open>\<open>+readonly\<close>, \<open>-readonly\<close> or \<open>readonly\<close> before the key, \<open>+?\<close>, \<open>-?\<close> or \<open>?\<close> after it.\<close>

definition mapped_prefix :: "denv \<Rightarrow> LuaDocParser \<Rightarrow> unit doc_run" where
  "mapped_prefix E d =
     (if dtoken d = TkPlus \<or> dtoken d = TkMinus
      then attempt (bump_d E d) (\<lambda>_ d. expect E TkDocReadonly d)
      else if dtoken d = TkDocReadonly then bump_d E d
      else if dtoken d = TkLeftBracket then Some (DOk (), d)
      else fail_at ''expect mapped field'' d)"

definition mapped_suffix :: "denv \<Rightarrow> LuaDocParser \<Rightarrow> unit doc_run" where
  "mapped_suffix E d =
     (if dtoken d = TkPlus \<or> dtoken d = TkMinus
      then attempt (bump_d E d) (\<lambda>_ d. expect E TkDocQuestion d)
      else if dtoken d = TkDocQuestion then bump_d E d
      else Some (DOk (), d))"

definition set_parser_state :: "LuaDocParserState \<Rightarrow> LuaDocParser \<Rightarrow> LuaDocParser" where
  "set_parser_state st d = d\<lparr>dstate := st\<rparr>"

definition parse_mapped_type :: "denv \<Rightarrow> Marker \<Rightarrow> LuaDocParser \<Rightarrow> CompleteMarker doc_run" where
  "parse_mapped_type E m d =
     attempt (mapped_prefix E (set_parser_state PMapped d)) (\<lambda>_ d.
     attempt (parse_mapped_key E d) (\<lambda>_ d.
     attempt (mapped_suffix E d) (\<lambda>_ d.
     attempt (expect E TkColon d) (\<lambda>_ d.
     attempt (dtype E d) (\<lambda>_ d.
     attempt (expect E TkSemicolon d) (\<lambda>_ d.
     attempt (expect E TkRightBrace d) (\<lambda>_ d.
     finish m (set_parser_state PNormal d))))))))"

text \<open>The lookahead of \<open>is_mapped_type\<close>, on a copy of the lexer.\<close>

partial_function (option) mapped_ahead :: "Unicode \<Rightarrow> LuaDocLexer \<Rightarrow> bool option" where
  "mapped_ahead U lx = do {
     (k, lx) \<leftarrow> doc_lex U lx;
     if k = TkIn then Some True
     else if k = TkLeftBracket \<or> k = TkRightBracket \<or> k = TkEof then Some False
     else mapped_ahead U lx
   }"

declare mapped_ahead.simps [code]

definition is_mapped_type :: "denv \<Rightarrow> LuaDocParser \<Rightarrow> bool option" where
  "is_mapped_type E d = mapped_ahead (uni E) (dlexer d)"

definition parse_typed_field :: "denv \<Rightarrow> LuaDocParser \<Rightarrow> CompleteMarker doc_run" where
  "parse_typed_field E d =
     (let (m, d) = dmark DocObjectField d in
      attempt
        (if dtoken d = TkName
         then attempt (bump_d E d) (\<lambda>_ d. step (dif_token_bump (uni E) TkDocQuestion d))
         else if dtoken d = TkLeftBracket then
           attempt (bump_d E d) (\<lambda>_ d.
           attempt (dtype E d) (\<lambda>_ d.
           attempt (expect E TkRightBracket d) (\<lambda>_ d. step (dif_token_bump (uni E) TkDocQuestion d))))
         else fail_at ''expect name or [<number>] or [<string>]'' d) (\<lambda>_ d.
      attempt
        (if dtoken d = TkColon
         then attempt (bump_d E d) (\<lambda>_ d. attempt (dtype E d) (\<lambda>_ d. Some (DOk (), d)))
         else Some (DOk (), d)) (\<lambda>_ d. finish m d)))"

text \<open>The fields after the first one; a trailing comma is allowed.\<close>

partial_function (option) field_loop :: "denv \<Rightarrow> LuaDocParser \<Rightarrow> (unit dres \<times> LuaDocParser) option" where
  "field_loop E d =
     (if dtoken d = TkComma then do {
        d \<leftarrow> dbump (uni E) d;
        if dtoken d = TkRightBrace then Some (DOk (), d)
        else do {
          (r, d) \<leftarrow> parse_typed_field E d;
          case r of DOk _ \<Rightarrow> field_loop E d | DErr e \<Rightarrow> Some (DErr e, d)
        }
      }
      else Some (DOk (), d))"

declare field_loop.simps [code]

definition object_fields :: "denv \<Rightarrow> Marker \<Rightarrow> LuaDocParser \<Rightarrow> CompleteMarker doc_run" where
  "object_fields E m d =
     attempt (parse_typed_field E d) (\<lambda>_ d.
     attempt (field_loop E d) (\<lambda>_ d.
     attempt (expect E TkRightBrace d) (\<lambda>_ d. finish m d)))"

definition parse_object_or_mapped_type :: "denv \<Rightarrow> LuaDocParser \<Rightarrow> CompleteMarker doc_run" where
  "parse_object_or_mapped_type E d = do {
     d \<leftarrow> set_lexer_state (uni E) DMapped d;
     let (m, d) = dmark TypeObject d;
     d \<leftarrow> dbump (uni E) d;
     d \<leftarrow> set_lexer_state (uni E) DNormal d;
     if dtoken d = TkRightBrace then attempt (expect E TkRightBrace d) (\<lambda>_ d. finish m d)
     else if dtoken d \<in> set [TkPlus, TkMinus, TkDocReadonly] then do {
       d \<leftarrow> dset_kind m TypeMapped d;
       parse_mapped_type E m d
     }
     else if dtoken d = TkLeftBracket then do {
       mapped \<leftarrow> is_mapped_type E d;
       if mapped then do {
         d \<leftarrow> dset_kind m TypeMapped d;
         parse_mapped_type E m d
       }
       else object_fields E m d
     }
     else object_fields E m d
   }"

definition parse_tuple_type :: "denv \<Rightarrow> LuaDocParser \<Rightarrow> CompleteMarker doc_run" where
  "parse_tuple_type E d =
     (let (m, d) = dmark TypeTuple d in
      attempt (bump_d E d) (\<lambda>_ d.
      attempt (if dtoken d \<noteq> TkRightBracket
               then attempt (dtype E d) (\<lambda>_ d. comma_loop E (dtype E) d)
               else Some (DOk (), d)) (\<lambda>_ d.
      attempt (expect E TkRightBracket d) (\<lambda>_ d. finish m d))))"

definition parse_paren_type :: "denv \<Rightarrow> LuaDocParser \<Rightarrow> CompleteMarker doc_run" where
  "parse_paren_type E d =
     attempt (bump_d E d) (\<lambda>_ d.
     attempt (dtype E d) (\<lambda>cm d.
     attempt (expect E TkRightParen d) (\<lambda>_ d. Some (DOk cm, d))))"

section \<open>Functions\<close>

definition parse_generic_param :: "denv \<Rightarrow> LuaDocParser \<Rightarrow> CompleteMarker doc_run" where
  "parse_generic_param E d =
     (let (m, d) = dmark DocGenericParameter d in
      attempt (expect E TkName d) (\<lambda>_ d.
      attempt (step (dif_token_bump (uni E) TkDots d)) (\<lambda>_ d.
      attempt (if dtoken d = TkColon \<or> dtoken d = TkDocExtends
               then attempt (bump_d E d) (\<lambda>_ d. attempt (dtype E d) (\<lambda>_ d. Some (DOk (), d)))
               else Some (DOk (), d)) (\<lambda>_ d. finish m d))))"

definition parse_generic_decl_list :: "denv \<Rightarrow> bool \<Rightarrow> LuaDocParser \<Rightarrow> CompleteMarker doc_run" where
  "parse_generic_decl_list E allow_angle_brackets d =
     (let (m, d) = dmark DocGenericDeclareList d in
      attempt (if allow_angle_brackets then expect E TkLt d else Some (DOk (), d)) (\<lambda>_ d.
      attempt (parse_generic_param E d) (\<lambda>_ d.
      attempt (comma_loop E (parse_generic_param E) d) (\<lambda>_ d.
      attempt (if allow_angle_brackets then expect E TkGt d else Some (DOk (), d)) (\<lambda>_ d.
      finish m d)))))"

definition parse_typed_param :: "denv \<Rightarrow> LuaDocParser \<Rightarrow> CompleteMarker doc_run" where
  "parse_typed_param E d =
     (let (m, d) = dmark DocTypedParameter d in
      attempt
        (if dtoken d = TkName \<or> dtoken d = TkDots
         then attempt (bump_d E d) (\<lambda>_ d. step (dif_token_bump (uni E) TkDocQuestion d))
         else fail_at ''expect name or ...'' d) (\<lambda>_ d.
      attempt
        (if dtoken d = TkColon
         then attempt (bump_d E d) (\<lambda>_ d. attempt (dtype E d) (\<lambda>_ d. Some (DOk (), d)))
         else Some (DOk (), d)) (\<lambda>_ d. finish m d)))"

text \<open>\<open>(p1, p2, ...)\<close>: the parameter list of a function type or an attribute.\<close>

definition typed_params :: "denv \<Rightarrow> LuaDocParser \<Rightarrow> unit doc_run" where
  "typed_params E d =
     attempt (expect E TkLeftParen d) (\<lambda>_ d.
     attempt (if dtoken d \<noteq> TkRightParen
              then attempt (parse_typed_param E d) (\<lambda>_ d. comma_loop E (parse_typed_param E) d)
              else Some (DOk (), d)) (\<lambda>_ d.
     expect E TkRightParen d))"

definition parse_fun_return_type :: "denv \<Rightarrow> LuaDocParser \<Rightarrow> CompleteMarker doc_run" where
  "parse_fun_return_type E d =
     (let (m, d) = dmark DocNamedReturnType d in
      attempt (dtype E d) (\<lambda>cm d.
      attempt (if cm_kind cm = TypeName \<and> dtoken d = TkColon
               then attempt (bump_d E d) (\<lambda>_ d. attempt (dtype E d) (\<lambda>_ d. Some (DOk (), d)))
               else Some (DOk (), d)) (\<lambda>_ d. finish m d)))"

definition parse_fun_return_list :: "denv \<Rightarrow> LuaDocParser \<Rightarrow> CompleteMarker doc_run" where
  "parse_fun_return_list E d =
     (let (m, d) = dmark DocTypeList d; parse_paren = (dtoken d = TkLeftParen) in
      attempt (if parse_paren then bump_d E d else Some (DOk (), d)) (\<lambda>_ d.
      attempt (parse_fun_return_type E d) (\<lambda>_ d.
      attempt (comma_loop E (parse_fun_return_type E) d) (\<lambda>_ d.
      attempt (if parse_paren then expect E TkRightParen d else Some (DOk (), d)) (\<lambda>_ d.
      finish m d)))))"

definition is_async_word :: "rstring \<Rightarrow> bool" where
  "is_async_word s \<longleftrightarrow> s = str ''async'' \<or> s = str ''sync''"

definition parse_fun_type :: "denv \<Rightarrow> LuaDocParser \<Rightarrow> CompleteMarker doc_run" where
  "parse_fun_type E d =
     (let (m, d) = dmark TypeFun d in
      attempt (do { word \<leftarrow> dtoken_text d; if is_async_word word then bump_d E d else Some (DOk (), d) }) (\<lambda>_ d.
      do {
        word \<leftarrow> dtoken_text d;
        if word \<noteq> str ''fun'' then fail_at ''expect fun'' d
        else
          attempt (bump_d E d) (\<lambda>_ d.
          attempt (if dtoken d = TkLt
                   then attempt (parse_generic_decl_list E True d) (\<lambda>_ d. Some (DOk (), d))
                   else Some (DOk (), d)) (\<lambda>_ d.
          attempt (typed_params E d) (\<lambda>_ d.
          attempt (if dtoken d = TkColon
                   then attempt (bump_d E d) (\<lambda>_ d. attempt (parse_fun_return_list E d) (\<lambda>_ d. Some (DOk (), d)))
                   else Some (DOk (), d)) (\<lambda>_ d. finish m d))))
      }))"

section \<open>Primary and suffixed types\<close>

definition parse_name_or_func_type :: "denv \<Rightarrow> LuaDocParser \<Rightarrow> CompleteMarker doc_run" where
  "parse_name_or_func_type E d = do {
     word \<leftarrow> dtoken_text d;
     if word = str ''fun'' \<or> is_async_word word then parse_fun_type E d
     else one_token E TypeName d
   }"

definition parse_infer_type :: "denv \<Rightarrow> LuaDocParser \<Rightarrow> CompleteMarker doc_run" where
  "parse_infer_type E d =
     (let (m, d) = dmark TypeInfer d in
      attempt (bump_d E (d\<lparr>dtoken := TkDocInfer\<rparr>)) (\<lambda>_ d.
      let (param, d) = dmark DocGenericParameter d in
      attempt (expect E TkName d) (\<lambda>_ d.
      attempt (finish param d) (\<lambda>_ d. finish m d))))"

definition parse_vararg_type :: "denv \<Rightarrow> LuaDocParser \<Rightarrow> CompleteMarker doc_run" where
  "parse_vararg_type E d =
     (let (m, d) = dmark TypeName d in
      attempt (bump_d E d) (\<lambda>_ d.
      attempt (one_token E TypeName d) (\<lambda>_ d. finish m d)))"

definition parse_constructor_type :: "denv \<Rightarrow> LuaDocParser \<Rightarrow> CompleteMarker doc_run" where
  "parse_constructor_type E d =
     (let new_rng = drange d in
      attempt (expect E TkDocNew d) (\<lambda>_ d.
      attempt (dsub E 0 d) (\<lambda>cm d.
      if cm_kind cm \<noteq> TypeFun then
        (let err = doc_error_from (str ''new keyword must be followed by function type'') new_rng in
         Some (DErr err, dpush_error err d))
      else Some (DOk cm, d))))"

definition is_literal_start :: "LuaTokenKind \<Rightarrow> bool" where
  "is_literal_start k \<longleftrightarrow> k \<in> set [TkString, TkInt, TkTrue, TkFalse]"

definition parse_primary_type :: "denv \<Rightarrow> LuaDocParser \<Rightarrow> CompleteMarker doc_run" where
  "parse_primary_type E d =
     (if dtoken d = TkLeftBrace then parse_object_or_mapped_type E d
      else if dtoken d = TkLeftBracket then parse_tuple_type E d
      else if dtoken d = TkLeftParen then parse_paren_type E d
      else if is_literal_start (dtoken d) then one_token E TypeLiteral d
      else if dtoken d = TkName then do {
        infer \<leftarrow> (if dstate d = PExtends then do { word \<leftarrow> dtoken_text d; Some (word = str ''infer'') }
                  else Some False);
        if infer then parse_infer_type E d else parse_name_or_func_type E d
      }
      else if dtoken d = TkStringTemplateType then one_token E TypeStringTemplate d
      else if dtoken d = TkDots then parse_vararg_type E d
      else if dtoken d = TkDocNew then parse_constructor_type E d
      else fail_at ''expect type'' d)"

definition is_index_token :: "LuaTokenKind \<Rightarrow> bool" where
  "is_index_token k \<longleftrightarrow> k \<in> set [TkString, TkInt, TkName]"

text \<open>\<open>T[]\<close>, \<open>T[K]\<close> in a mapped type, \<open>T[1]\<close> elsewhere; at the bracket, with the node open.\<close>

definition bracket_suffix :: "denv \<Rightarrow> Marker \<Rightarrow> LuaDocParser \<Rightarrow> CompleteMarker doc_run" where
  "bracket_suffix E m d =
     attempt (bump_d E d) (\<lambda>_ d.
     attempt
       (if dstate d = PMapped then
          (if dtoken d \<noteq> TkRightBracket then do {
             d \<leftarrow> dset_kind m TypeIndexAccess d;
             attempt (dtype E d) (\<lambda>_ d. Some (DOk (), d))
           }
           else Some (DOk (), d))
        else if is_index_token (dtoken d) then do {
          d \<leftarrow> dset_kind m IndexExpr d;
          bump_d E d
        }
        else Some (DOk (), d)) (\<lambda>_ d.
     attempt (expect E TkRightBracket d) (\<lambda>_ d. finish m d)))"

partial_function (option) suffixed_loop ::
  "denv \<Rightarrow> bool \<Rightarrow> CompleteMarker \<Rightarrow> LuaDocParser \<Rightarrow> (CompleteMarker dres \<times> LuaDocParser) option" where
  "suffixed_loop E only_continue_array cm d =
     (if dtoken d = TkLeftBracket then do {
        (m, d) \<leftarrow> dprecede cm TypeArray d;
        (r, d) \<leftarrow> bracket_suffix E m d;
        case r of DOk cm \<Rightarrow> suffixed_loop E True cm d | DErr e \<Rightarrow> Some (DErr e, d)
      }
      else if dtoken d = TkLt then
        (if only_continue_array \<or> cm_kind cm \<noteq> TypeName then Some (DOk cm, d)
         else do {
           (m, d) \<leftarrow> dprecede cm TypeGeneric d;
           (r, d) \<leftarrow> attempt (bump_d E d) (\<lambda>_ d.
                     attempt (parse_type_list E d) (\<lambda>_ d.
                     attempt (expect E TkGt d) (\<lambda>_ d. finish m d)));
           case r of DOk cm \<Rightarrow> suffixed_loop E only_continue_array cm d | DErr e \<Rightarrow> Some (DErr e, d)
         })
      else if dtoken d = TkDots then
        (if only_continue_array \<or> cm_kind cm \<noteq> TypeName then Some (DOk cm, d)
         else do {
           (m, d) \<leftarrow> dprecede cm TypeVariadic d;
           attempt (bump_d E d) (\<lambda>_ d. finish m d)
         })
      else Some (DOk cm, d))"

declare suffixed_loop.simps [code]

definition parse_suffixed_type :: "denv \<Rightarrow> CompleteMarker \<Rightarrow> LuaDocParser \<Rightarrow> CompleteMarker doc_run" where
  "parse_suffixed_type E cm d = suffixed_loop E False cm d"

definition parse_simple_type :: "denv \<Rightarrow> LuaDocParser \<Rightarrow> CompleteMarker doc_run" where
  "parse_simple_type E d = attempt (parse_primary_type E d) (\<lambda>cm d. parse_suffixed_type E cm d)"

section \<open>Operators\<close>

definition UNARY_TYPE_PRIORITY :: int where
  "UNARY_TYPE_PRIORITY = 7"

text \<open>The operand of a binary operator: \<open>extends\<close> switches the states of lexer and parser.\<close>

definition binary_token :: "denv \<Rightarrow> LuaTypeBinaryOperator \<Rightarrow> LuaDocParser \<Rightarrow> LuaDocParser option" where
  "binary_token E bop d =
     (if bop = Extends then do {
        let prev_lexer_state = doc_state (dlexer d);
        d \<leftarrow> set_lexer_state (uni E) DExtends d;
        d \<leftarrow> dbump (uni E) d;
        set_lexer_state (uni E) prev_lexer_state d
      }
      else dbump (uni E) d)"

definition binary_operand :: "denv \<Rightarrow> LuaTypeBinaryOperator \<Rightarrow> int \<Rightarrow> LuaDocParser \<Rightarrow> CompleteMarker doc_run" where
  "binary_operand E bop limit d =
     (if bop = Extends then do {
        let prev_state = dstate d;
        (r, d) \<leftarrow> dsub E limit (set_parser_state PExtends d);
        Some (r, set_parser_state prev_state d)
      }
      else dsub E limit d)"

partial_function (option) type_binary_loop ::
  "denv \<Rightarrow> int \<Rightarrow> CompleteMarker \<Rightarrow> LuaDocParser \<Rightarrow> (CompleteMarker dres \<times> LuaDocParser) option" where
  "type_binary_loop E limit cm d =
     (let bop = to_parse_binary_operator (dtoken d) in
      if bop = TypeBinNone then Some (DOk cm, d)
      else do {
        pr \<leftarrow> type_get_priority bop;
        if \<not> left pr > limit then Some (DOk cm, d)
        else do {
          let rng = drange d;
          (m, d) \<leftarrow> dprecede cm TypeBinary d;
          d \<leftarrow> binary_token E bop d;
          if dtoken d \<noteq> TkDocQuestion then do {
            (r, d) \<leftarrow> binary_operand E bop (right pr) d;
            case r of
              DOk _ \<Rightarrow> do { (cm, d) \<leftarrow> dcomplete m d; type_binary_loop E limit cm d }
            | DErr e \<Rightarrow>
                Some (DErr e, dpush_error (doc_error_from (str ''binary operator not followed by type'') rng) d)
          }
          else do {
            (_, d) \<leftarrow> one_token E TypeLiteral d;
            (cm, d) \<leftarrow> dcomplete m d;
            type_binary_loop E limit cm d
          }
        }
      })"

declare type_binary_loop.simps [code]

definition parse_unary_type :: "denv \<Rightarrow> LuaDocParser \<Rightarrow> CompleteMarker doc_run" where
  "parse_unary_type E d = do {
     let rng = drange d;
     let (m, d) = dmark TypeUnary d;
     d \<leftarrow> dbump (uni E) d;
     (r, d) \<leftarrow> dsub E UNARY_TYPE_PRIORITY d;
     case r of
       DOk _ \<Rightarrow> finish m d
     | DErr e \<Rightarrow> Some (DErr e, dpush_error (doc_error_from (str ''unary operator not followed by type'') rng) d)
   }"

text \<open>\<open>remaining\<close> is the answer of the stack query in this call.\<close>

definition parse_sub_type :: "denv \<Rightarrow> nat option \<Rightarrow> int \<Rightarrow> LuaDocParser \<Rightarrow> CompleteMarker doc_run" where
  "parse_sub_type E remaining limit d =
     (if parser_stack_exhausted remaining then fail_at ''type is too deeply nested'' d
      else
        attempt (if to_type_unary_operator (dtoken d) \<noteq> TypeUnNone then parse_unary_type E d
                 else parse_simple_type E d) (\<lambda>cm d.
        type_binary_loop E limit cm d))"

section \<open>Types\<close>

definition parse_one_line_type :: "denv \<Rightarrow> LuaDocParser \<Rightarrow> CompleteMarker doc_run" where
  "parse_one_line_type E d =
     (let (m, d) = dmark DocOneLineField d in
      attempt (dsub E 1 d) (\<lambda>_ d.
      attempt (step (if dtoken d \<noteq> TkDocContinueOr then do {
                 d \<leftarrow> set_lexer_state (uni E) DDescription d;
                 d \<leftarrow> parse_description (uni E) d;
                 set_lexer_state (uni E) DNormal d
               } else Some d)) (\<lambda>_ d. finish m d)))"

partial_function (option) union_lines :: "denv \<Rightarrow> LuaDocParser \<Rightarrow> (unit dres \<times> LuaDocParser) option" where
  "union_lines E d =
     (if dtoken d = TkDocContinueOr then do {
        d \<leftarrow> dbump (uni E) d;
        (r, d) \<leftarrow> parse_one_line_type E d;
        case r of DOk _ \<Rightarrow> union_lines E d | DErr e \<Rightarrow> Some (DErr e, d)
      }
      else Some (DOk (), d))"

declare union_lines.simps [code]

definition parse_multi_line_union_type :: "denv \<Rightarrow> LuaDocParser \<Rightarrow> CompleteMarker doc_run" where
  "parse_multi_line_union_type E d =
     (let (m, d) = dmark TypeMultiLineUnion d in
      attempt (union_lines E d) (\<lambda>_ d. finish m d))"

text \<open>The suffixes of \<open>parse_type\<close>: \<open>?\<close>, \<open>and ... or ...\<close>, \<open>...\<close>.\<close>

partial_function (option) type_loop ::
  "denv \<Rightarrow> CompleteMarker \<Rightarrow> LuaDocParser \<Rightarrow> (CompleteMarker dres \<times> LuaDocParser) option" where
  "type_loop E cm d =
     (if dtoken d = TkDocQuestion then do {
        (m, d) \<leftarrow> dprecede cm TypeNullable d;
        d \<leftarrow> dbump (uni E) d;
        (cm, d) \<leftarrow> dcomplete m d;
        type_loop E cm d
      }
      else if dtoken d = TkAnd then do {
        (m, d) \<leftarrow> dprecede cm TypeConditional d;
        d \<leftarrow> dbump (uni E) d;
        attempt (dtype E d) (\<lambda>_ d.
        attempt (expect E TkOr d) (\<lambda>_ d.
        attempt (dtype E d) (\<lambda>_ d. finish m d)))
      }
      else if dtoken d = TkDots then
        (if cm_kind cm = TypeVariadic then Some (DOk cm, d)
         else do {
           (m, d) \<leftarrow> dprecede cm TypeVariadic d;
           d \<leftarrow> dbump (uni E) d;
           finish m d
         })
      else Some (DOk cm, d))"

declare type_loop.simps [code]

definition parse_type :: "denv \<Rightarrow> LuaDocParser \<Rightarrow> CompleteMarker doc_run" where
  "parse_type E d =
     (if dtoken d = TkDocContinueOr then parse_multi_line_union_type E d
      else attempt (dsub E 0 d) (\<lambda>cm d. type_loop E cm d))"

text \<open>
  The knot. \<open>parse_type\<close> calls \<open>parse_sub_type\<close> at once, so that two levels of \<open>dtype\<close> are at
  least one token apart.
\<close>

primrec denv_at :: "Unicode \<Rightarrow> (nat \<Rightarrow> LuaDocParser \<Rightarrow> nat option) \<Rightarrow> nat \<Rightarrow> denv" where
  "denv_at U rs 0 = \<lparr>uni = U, dsub = \<lambda>_ _. None, dtype = \<lambda>_. None\<rparr>"
| "denv_at U rs (Suc n) =
     \<lparr>uni = U,
      dsub = \<lambda>limit d. parse_sub_type (denv_at U rs n) (rs n d) limit d,
      dtype = \<lambda>d. parse_type (denv_at U rs n) d\<rparr>"

end
