(* ===== verification/Doc_Tags.thy ===== *)
theory Doc_Tags
  imports Doc_Types
begin

text \<open>
  \<open>crates/glua_parser/src/grammar/doc/tag.rs\<close> and \<open>grammar/doc/mod.rs\<close>: the tags of documentation
  comments, the loop over a comment, and \<open>LuaDocParser::parse\<close>, which \<open>LuaParser\<close> calls for
  every group of comments.
\<close>

section \<open>Shared steps\<close>

text \<open>How a tag begins: lexer state, marker, the tag word itself.\<close>

definition open_tag ::
  "denv \<Rightarrow> LuaDocLexerState \<Rightarrow> LuaSyntaxKind \<Rightarrow> LuaDocParser \<Rightarrow> (Marker \<times> LuaDocParser) option" where
  "open_tag E state k d = do {
     d \<leftarrow> set_lexer_state (uni E) state d;
     let (m, d) = dmark k d;
     d \<leftarrow> dbump (uni E) d;
     Some (m, d)
   }"

text \<open>How most tags end: the description.\<close>

definition close_tag :: "denv \<Rightarrow> Marker \<Rightarrow> LuaDocParser \<Rightarrow> CompleteMarker doc_run" where
  "close_tag E m d = do {
     d \<leftarrow> set_lexer_state (uni E) DDescription d;
     d \<leftarrow> parse_description (uni E) d;
     finish m d
   }"

definition void :: "'a doc_run \<Rightarrow> unit doc_run" where
  "void m = attempt m (\<lambda>_ d. Some (DOk (), d))"

definition bump_if :: "denv \<Rightarrow> LuaTokenKind \<Rightarrow> LuaDocParser \<Rightarrow> unit doc_run" where
  "bump_if E token d = step (dif_token_bump (uni E) token d)"

text \<open>\<open>if p.current_token() == token { f(p)?; }\<close>\<close>

definition when_token ::
  "LuaTokenKind \<Rightarrow> (LuaDocParser \<Rightarrow> unit doc_run) \<Rightarrow> LuaDocParser \<Rightarrow> unit doc_run" where
  "when_token token f d = (if dtoken d = token then f d else Some (DOk (), d))"

text \<open>\<open>if p.current_token() == token { p.bump(); f(p)?; }\<close>\<close>

definition after_token ::
  "denv \<Rightarrow> LuaTokenKind \<Rightarrow> (LuaDocParser \<Rightarrow> 'a doc_run) \<Rightarrow> LuaDocParser \<Rightarrow> unit doc_run" where
  "after_token E token f d = when_token token (\<lambda>d. attempt (bump_d E d) (\<lambda>_ d. void (f d))) d"

section \<open>Type flags\<close>

text \<open>\<open>char::is_whitespace\<close>: the code points with the property \<open>White_Space\<close>.\<close>

definition is_whitespace :: "rchar \<Rightarrow> bool" where
  "is_whitespace c \<longleftrightarrow> (9 \<le> c \<and> c \<le> 13) \<or> c = 32 \<or> c = 133 \<or> c = 160 \<or> c = 5760 \<or>
     (8192 \<le> c \<and> c \<le> 8202) \<or> c = 8232 \<or> c = 8233 \<or> c = 8239 \<or> c = 8287 \<or> c = 12288"

definition trim_start :: "rstring \<Rightarrow> rstring" where
  "trim_start s = dropWhile is_whitespace s"

definition strip_prefix :: "rstring \<Rightarrow> rstring \<Rightarrow> rstring option" where
  "strip_prefix pre s = (if take (length pre) s = pre then Some (drop (length pre) s) else None)"

definition flag_follows :: "rstring \<Rightarrow> rstring \<Rightarrow> bool" where
  "flag_follows trimmed keyword =
     (case strip_prefix keyword trimmed of
        Some stripped \<Rightarrow> take 1 (trim_start stripped) = [ch CHR '')'']
      | None \<Rightarrow> False)"

definition is_type_modifier_flag :: "LuaDocParser \<Rightarrow> bool option" where
  "is_type_modifier_flag d =
     (let src = origin_text (lua_parser d); start = end_offset (drange d) in
      if blen src \<le> start then Some False
      else do {
        remaining \<leftarrow> drop_bytes start src;
        let trimmed = trim_start remaining;
        Some (flag_follows trimmed (str ''instance'') \<or> flag_follows trimmed (str ''definition''))
      })"

definition parse_doc_type_flag :: "denv \<Rightarrow> LuaDocParser \<Rightarrow> CompleteMarker doc_run" where
  "parse_doc_type_flag E d =
     (let (m, d) = dmark DocTypeFlag d in
      attempt (bump_d E d) (\<lambda>_ d.
      attempt (expect E TkName d) (\<lambda>_ d.
      attempt (comma_loop E (expect E TkName) d) (\<lambda>_ d.
      attempt (expect E TkRightParen d) (\<lambda>_ d. finish m d)))))"

text \<open>\<open>if p.current_token() == TkLeftParen && is_type_modifier_flag(p) { parse_doc_type_flag(p)?; }\<close>\<close>

definition modifier_flag :: "denv \<Rightarrow> LuaDocParser \<Rightarrow> unit doc_run" where
  "modifier_flag E d =
     (if dtoken d = TkLeftParen then do {
        flag \<leftarrow> is_type_modifier_flag d;
        if flag then void (parse_doc_type_flag E d) else Some (DOk (), d)
      }
      else Some (DOk (), d))"

definition type_flag :: "denv \<Rightarrow> LuaDocParser \<Rightarrow> unit doc_run" where
  "type_flag E d = when_token TkLeftParen (\<lambda>d. void (parse_doc_type_flag E d)) d"

section \<open>Default values\<close>

text \<open>The parentheses of a call; the depth is an \<open>i32\<close> and bounded by the length of the comment.\<close>

partial_function (option) default_call_loop ::
  "denv \<Rightarrow> int \<Rightarrow> LuaDocParser \<Rightarrow> (unit dres \<times> LuaDocParser) option" where
  "default_call_loop E paren_depth d =
     (if dtoken d = TkLeftParen then do {
        d \<leftarrow> dbump (uni E) d;
        default_call_loop E (paren_depth + 1) d
      }
      else if dtoken d = TkRightParen then do {
        d \<leftarrow> dbump (uni E) d;
        if paren_depth - 1 = 0 then Some (DOk (), d) else default_call_loop E (paren_depth - 1) d
      }
      else if dtoken d = TkEof then fail_at (''expect '' @ quoted '')'' @ '' to close default expression'') d
      else do { d \<leftarrow> dbump (uni E) d; default_call_loop E paren_depth d })"

declare default_call_loop.simps [code]

definition parse_doc_default_call_value :: "denv \<Rightarrow> LuaDocParser \<Rightarrow> unit doc_run" where
  "parse_doc_default_call_value E d = default_call_loop E 0 d"

definition is_default_literal :: "LuaTokenKind \<Rightarrow> bool" where
  "is_default_literal k \<longleftrightarrow> k \<in> set [TkNil, TkTrue, TkFalse, TkInt, TkFloat, TkString]"

definition default_value_body :: "denv \<Rightarrow> LuaDocParser \<Rightarrow> unit doc_run" where
  "default_value_body E d =
     (if is_default_literal (dtoken d) then bump_d E d
      else if dtoken d = TkPlus \<or> dtoken d = TkMinus then
        attempt (bump_d E d) (\<lambda>_ d.
        if dtoken d = TkInt \<or> dtoken d = TkFloat then bump_d E d
        else fail_at ''expect numeric default literal value'' d)
      else if dtoken d = TkName then
        attempt (bump_d E d) (\<lambda>_ d. when_token TkLeftParen (parse_doc_default_call_value E) d)
      else fail_at ''expect default literal or expression value'' d)"

definition parse_doc_default_value :: "denv \<Rightarrow> LuaDocParser \<Rightarrow> CompleteMarker doc_run" where
  "parse_doc_default_value E d =
     (let (m, d) = dmark DocDefaultValue d in
      attempt (expect E TkDocMatch d) (\<lambda>_ d.
      attempt (default_value_body E d) (\<lambda>_ d. finish m d)))"

definition default_value :: "denv \<Rightarrow> LuaDocParser \<Rightarrow> unit doc_run" where
  "default_value E d = when_token TkDocMatch (\<lambda>d. void (parse_doc_default_value E d)) d"

section \<open>Declarations\<close>

definition parse_tag_simple :: "denv \<Rightarrow> LuaSyntaxKind \<Rightarrow> LuaDocParser \<Rightarrow> CompleteMarker doc_run" where
  "parse_tag_simple E k d =
     (let (m, d) = dmark k d in attempt (bump_d E d) (\<lambda>_ d. close_tag E m d))"

definition parse_tag_class :: "denv \<Rightarrow> LuaDocParser \<Rightarrow> CompleteMarker doc_run" where
  "parse_tag_class E d = do {
     (m, d) \<leftarrow> open_tag E DNormal DocTagClass d;
     attempt (type_flag E d) (\<lambda>_ d.
     attempt (expect E TkName d) (\<lambda>_ d.
     attempt (when_token TkLt (\<lambda>d. void (parse_generic_decl_list E True d)) d) (\<lambda>_ d.
     attempt (after_token E TkColon (parse_type_list E) d) (\<lambda>_ d. close_tag E m d))))
   }"

definition parse_enum_field :: "denv \<Rightarrow> LuaDocParser \<Rightarrow> CompleteMarker doc_run" where
  "parse_enum_field E d =
     (let (m, d) = dmark DocEnumField d in
      attempt (if dtoken d \<in> set [TkName, TkString, TkInt] then bump_d E d else Some (DOk (), d)) (\<lambda>_ d.
      attempt (bump_if E TkDocDetail d) (\<lambda>_ d. finish m d)))"

partial_function (option) enum_lines :: "denv \<Rightarrow> LuaDocParser \<Rightarrow> (unit dres \<times> LuaDocParser) option" where
  "enum_lines E d =
     (if dtoken d = TkDocContinueOr then do {
        d \<leftarrow> dbump (uni E) d;
        (r, d) \<leftarrow> parse_enum_field E d;
        case r of DOk _ \<Rightarrow> enum_lines E d | DErr e \<Rightarrow> Some (DErr e, d)
      }
      else Some (DOk (), d))"

declare enum_lines.simps [code]

definition parse_enum_field_list :: "denv \<Rightarrow> LuaDocParser \<Rightarrow> CompleteMarker doc_run" where
  "parse_enum_field_list E d =
     (let (m, d) = dmark DocEnumFieldList d in
      attempt (enum_lines E d) (\<lambda>_ d. finish m d))"

definition parse_tag_enum :: "denv \<Rightarrow> LuaDocParser \<Rightarrow> CompleteMarker doc_run" where
  "parse_tag_enum E d = do {
     (m, d) \<leftarrow> open_tag E DNormal DocTagEnum d;
     attempt (type_flag E d) (\<lambda>_ d.
     attempt (expect E TkName d) (\<lambda>_ d.
     attempt (after_token E TkColon (parse_type E) d) (\<lambda>_ d.
     attempt (when_token TkDocContinueOr (\<lambda>d. void (parse_enum_field_list E d)) d) (\<lambda>_ d.
     close_tag E m d))))
   }"

definition parse_tag_alias :: "denv \<Rightarrow> LuaDocParser \<Rightarrow> CompleteMarker doc_run" where
  "parse_tag_alias E d = do {
     (m, d) \<leftarrow> open_tag E DNormal DocTagAlias d;
     attempt (type_flag E d) (\<lambda>_ d.
     attempt (expect E TkName d) (\<lambda>_ d.
     attempt (when_token TkLt (\<lambda>d. void (parse_generic_decl_list E True d)) d) (\<lambda>_ d.
     attempt (bump_if E TkDocDetail d) (\<lambda>_ d.
     attempt (parse_type E d) (\<lambda>_ d. close_tag E m d)))))
   }"

text \<open>\<open>while p.current_token() == TkDot { p.bump(); if p.current_token() == TkName { p.bump(); } }\<close>\<close>

partial_function (option) dotted_loop :: "denv \<Rightarrow> LuaDocParser \<Rightarrow> LuaDocParser option" where
  "dotted_loop E d =
     (if dtoken d = TkDot then do {
        d \<leftarrow> dbump (uni E) d;
        d \<leftarrow> dif_token_bump (uni E) TkName d;
        dotted_loop E d
      }
      else Some d)"

declare dotted_loop.simps [code]

definition module_path :: "denv \<Rightarrow> LuaDocParser \<Rightarrow> unit doc_run" where
  "module_path E d =
     (if dtoken d = TkString then bump_d E d
      else if dtoken d = TkName then attempt (bump_d E d) (\<lambda>_ d. step (dotted_loop E d))
      else Some (DErr (syntax_error_from (str (expected_message TkString (dtoken d))) (drange d)), d))"

definition parse_tag_module :: "denv \<Rightarrow> LuaDocParser \<Rightarrow> CompleteMarker doc_run" where
  "parse_tag_module E d = do {
     (m, d) \<leftarrow> open_tag E DNormal DocTagModule d;
     attempt (module_path E d) (\<lambda>_ d. close_tag E m d)
   }"

definition field_key :: "denv \<Rightarrow> LuaDocParser \<Rightarrow> unit doc_run" where
  "field_key E d =
     (if dtoken d = TkName then bump_d E d
      else if dtoken d = TkLeftBracket then
        attempt (bump_d E d) (\<lambda>_ d.
        attempt (if dtoken d = TkInt \<or> dtoken d = TkString then bump_d E d else void (parse_type E d)) (\<lambda>_ d.
        expect E TkRightBracket d))
      else fail_at (''expect field name or '' @ quoted ''['' @ '', but get '' @ token_kind_display (dtoken d)) d)"

definition parse_tag_field :: "denv \<Rightarrow> LuaDocParser \<Rightarrow> CompleteMarker doc_run" where
  "parse_tag_field E d = do {
     (m, d) \<leftarrow> open_tag E DFieldStart DocTagField d;
     attempt (type_flag E d) (\<lambda>_ d.
     attempt (step (set_lexer_state (uni E) DNormal d)) (\<lambda>_ d.
     attempt (bump_if E TkDocVisibility d) (\<lambda>_ d.
     attempt (field_key E d) (\<lambda>_ d.
     attempt (bump_if E TkDocQuestion d) (\<lambda>_ d.
     attempt (default_value E d) (\<lambda>_ d.
     attempt (parse_type E d) (\<lambda>_ d.
     attempt (default_value E d) (\<lambda>_ d. close_tag E m d))))))))
   }"

definition parse_tag_type :: "denv \<Rightarrow> LuaDocParser \<Rightarrow> CompleteMarker doc_run" where
  "parse_tag_type E d = do {
     (m, d) \<leftarrow> open_tag E DNormal DocTagType d;
     attempt (modifier_flag E d) (\<lambda>_ d.
     attempt (parse_type E d) (\<lambda>_ d.
     attempt (comma_loop E (parse_type E) d) (\<lambda>_ d. close_tag E m d)))
   }"

definition parse_tag_param :: "denv \<Rightarrow> LuaDocParser \<Rightarrow> CompleteMarker doc_run" where
  "parse_tag_param E d = do {
     (m, d) \<leftarrow> open_tag E DNormal DocTagParam d;
     attempt (if dtoken d = TkName \<or> dtoken d = TkDots then bump_d E d
              else fail_at (''expect param name or '' @ quoted ''...'' @ '', but get '' @
                     token_kind_display (dtoken d)) d) (\<lambda>_ d.
     attempt (bump_if E TkDocQuestion d) (\<lambda>_ d.
     attempt (default_value E d) (\<lambda>_ d.
     attempt (parse_type E d) (\<lambda>_ d.
     attempt (default_value E d) (\<lambda>_ d. close_tag E m d)))))
   }"

text \<open>One returned value: its type, its default value, its name.\<close>

definition return_value :: "denv \<Rightarrow> LuaDocParser \<Rightarrow> unit doc_run" where
  "return_value E d =
     attempt (parse_type E d) (\<lambda>_ d.
     attempt (default_value E d) (\<lambda>_ d. bump_if E TkName d))"

definition parse_tag_return :: "denv \<Rightarrow> LuaDocParser \<Rightarrow> CompleteMarker doc_run" where
  "parse_tag_return E d = do {
     (m, d) \<leftarrow> open_tag E DNormal DocTagReturn d;
     attempt (modifier_flag E d) (\<lambda>_ d.
     attempt (return_value E d) (\<lambda>_ d.
     attempt (comma_loop E (return_value E) d) (\<lambda>_ d. close_tag E m d)))
   }"

text \<open>The lexer state is set first: it re-reads the token when a cast expression ends here.\<close>

definition parse_op_type :: "denv \<Rightarrow> LuaDocParser \<Rightarrow> CompleteMarker doc_run" where
  "parse_op_type E d = do {
     d \<leftarrow> set_lexer_state (uni E) DNormal d;
     let (m, d) = dmark DocOpType d;
     attempt (if dtoken d = TkPlus \<or> dtoken d = TkMinus then
                attempt (bump_d E d) (\<lambda>_ d.
                if dtoken d = TkDocQuestion then bump_d E d else void (parse_type E d))
              else void (parse_type E d)) (\<lambda>_ d. finish m d)
   }"

definition parse_tag_return_cast :: "denv \<Rightarrow> LuaDocParser \<Rightarrow> CompleteMarker doc_run" where
  "parse_tag_return_cast E d = do {
     (m, d) \<leftarrow> open_tag E DNormal DocTagReturnCast d;
     attempt (expect E TkName d) (\<lambda>_ d.
     attempt (parse_op_type E d) (\<lambda>_ d.
     attempt (after_token E TkDocElse (parse_op_type E) d) (\<lambda>_ d. close_tag E m d)))
   }"

definition parse_tag_generic :: "denv \<Rightarrow> LuaDocParser \<Rightarrow> CompleteMarker doc_run" where
  "parse_tag_generic E d = do {
     (m, d) \<leftarrow> open_tag E DNormal DocTagGeneric d;
     attempt (parse_generic_decl_list E False d) (\<lambda>_ d. close_tag E m d)
   }"

section \<open>Other tags\<close>

definition parse_tag_see :: "denv \<Rightarrow> LuaDocParser \<Rightarrow> CompleteMarker doc_run" where
  "parse_tag_see E d = do {
     (m, d) \<leftarrow> open_tag E DSee DocTagSee d;
     attempt (expect E TkDocSeeContent d) (\<lambda>_ d. close_tag E m d)
   }"

definition parse_tag_as :: "denv \<Rightarrow> LuaDocParser \<Rightarrow> CompleteMarker doc_run" where
  "parse_tag_as E d = do {
     (m, d) \<leftarrow> open_tag E DNormal DocTagAs d;
     attempt (parse_type E d) (\<lambda>_ d.
     attempt (bump_if E TkLongCommentEnd d) (\<lambda>_ d. close_tag E m d))
   }"

definition parse_tag_overload :: "denv \<Rightarrow> LuaDocParser \<Rightarrow> CompleteMarker doc_run" where
  "parse_tag_overload E d = do {
     (m, d) \<leftarrow> open_tag E DNormal DocTagOverload d;
     attempt (parse_fun_type E d) (\<lambda>_ d. close_tag E m d)
   }"

text \<open>\<open>a.b.c\<close>; a dot without a name after it is accepted.\<close>

partial_function (option) cast_loop ::
  "denv \<Rightarrow> CompleteMarker \<Rightarrow> LuaDocParser \<Rightarrow> (CompleteMarker dres \<times> LuaDocParser) option" where
  "cast_loop E cm d =
     (if dtoken d = TkDot then do {
        (index_m, d) \<leftarrow> dprecede cm IndexExpr d;
        d \<leftarrow> dbump (uni E) d;
        d \<leftarrow> dif_token_bump (uni E) TkName d;
        (cm, d) \<leftarrow> dcomplete index_m d;
        cast_loop E cm d
      }
      else Some (DOk cm, d))"

declare cast_loop.simps [code]

definition parse_cast_expr :: "denv \<Rightarrow> LuaDocParser \<Rightarrow> CompleteMarker doc_run" where
  "parse_cast_expr E d = attempt (one_token E NameExpr d) (\<lambda>cm d. cast_loop E cm d)"

definition parse_tag_cast :: "denv \<Rightarrow> LuaDocParser \<Rightarrow> CompleteMarker doc_run" where
  "parse_tag_cast E d = do {
     (m, d) \<leftarrow> open_tag E DCastExpr DocTagCast d;
     attempt (when_token TkName (\<lambda>d. void (parse_cast_expr E d)) d) (\<lambda>_ d.
     attempt (parse_op_type E d) (\<lambda>_ d.
     attempt (comma_loop E (parse_op_type E) d) (\<lambda>_ d. close_tag E m d)))
   }"

definition parse_tag_source :: "denv \<Rightarrow> LuaDocParser \<Rightarrow> CompleteMarker doc_run" where
  "parse_tag_source E d = do {
     (m, d) \<leftarrow> open_tag E DSource DocTagSource d;
     attempt (expect E TKDocPath d) (\<lambda>_ d. finish m d)
   }"

definition parse_diagnostic_code_list :: "denv \<Rightarrow> LuaDocParser \<Rightarrow> CompleteMarker doc_run" where
  "parse_diagnostic_code_list E d =
     (let (m, d) = dmark DocDiagnosticCodeList d in
      attempt (expect E TkName d) (\<lambda>_ d.
      attempt (comma_loop E (expect E TkName) d) (\<lambda>_ d. finish m d)))"

definition parse_tag_diagnostic :: "denv \<Rightarrow> LuaDocParser \<Rightarrow> CompleteMarker doc_run" where
  "parse_tag_diagnostic E d = do {
     (m, d) \<leftarrow> open_tag E DNormal DocTagDiagnostic d;
     attempt (expect E TkName d) (\<lambda>_ d.
     attempt (after_token E TkColon (parse_diagnostic_code_list E) d) (\<lambda>_ d. finish m d))
   }"

definition parse_version :: "denv \<Rightarrow> LuaDocParser \<Rightarrow> CompleteMarker doc_run" where
  "parse_version E d =
     (let (m, d) = dmark DocVersion d in
      attempt (if dtoken d = TkLt \<or> dtoken d = TkGt then bump_d E d else Some (DOk (), d)) (\<lambda>_ d.
      attempt (bump_if E TkName d) (\<lambda>_ d.
      attempt (expect E TkDocVersionNumber d) (\<lambda>_ d. finish m d))))"

definition parse_tag_version :: "denv \<Rightarrow> LuaDocParser \<Rightarrow> CompleteMarker doc_run" where
  "parse_tag_version E d = do {
     (m, d) \<leftarrow> open_tag E DVersion DocTagVersion d;
     attempt (parse_version E d) (\<lambda>_ d.
     attempt (comma_loop E (parse_version E) d) (\<lambda>_ d. close_tag E m d))
   }"

definition parse_tag_operator :: "denv \<Rightarrow> LuaDocParser \<Rightarrow> CompleteMarker doc_run" where
  "parse_tag_operator E d = do {
     (m, d) \<leftarrow> open_tag E DNormal DocTagOperator d;
     attempt (expect E TkName d) (\<lambda>_ d.
     attempt (after_token E TkLeftParen (\<lambda>d. attempt (parse_type_list E d) (\<lambda>_ d. expect E TkRightParen d)) d) (\<lambda>_ d.
     attempt (after_token E TkColon (parse_type E) d) (\<lambda>_ d. close_tag E m d)))
   }"

text \<open>The tags with one name: \<open>mapping\<close> and \<open>language\<close> with a description, \<open>namespace\<close> and \<open>using\<close> without.\<close>

definition parse_tag_mapping :: "denv \<Rightarrow> LuaDocParser \<Rightarrow> CompleteMarker doc_run" where
  "parse_tag_mapping E d = do {
     (m, d) \<leftarrow> open_tag E DNormal DocTagMapping d;
     attempt (expect E TkName d) (\<lambda>_ d. close_tag E m d)
   }"

definition parse_tag_namespace :: "denv \<Rightarrow> LuaDocParser \<Rightarrow> CompleteMarker doc_run" where
  "parse_tag_namespace E d = do {
     (m, d) \<leftarrow> open_tag E DNormal DocTagNamespace d;
     attempt (expect E TkName d) (\<lambda>_ d. finish m d)
   }"

definition parse_tag_using :: "denv \<Rightarrow> LuaDocParser \<Rightarrow> CompleteMarker doc_run" where
  "parse_tag_using E d = do {
     (m, d) \<leftarrow> open_tag E DNormal DocTagUsing d;
     attempt (expect E TkName d) (\<lambda>_ d. finish m d)
   }"

definition parse_tag_meta :: "denv \<Rightarrow> LuaDocParser \<Rightarrow> CompleteMarker doc_run" where
  "parse_tag_meta E d = do {
     (m, d) \<leftarrow> open_tag E DNormal DocTagMeta d;
     attempt (bump_if E TkName d) (\<lambda>_ d. finish m d)
   }"

definition parse_tag_realm :: "denv \<Rightarrow> LuaDocParser \<Rightarrow> CompleteMarker doc_run" where
  "parse_tag_realm E d = do {
     (m, d) \<leftarrow> open_tag E DNormal DocTagRealm d;
     attempt (bump_if E TkName d) (\<lambda>_ d. finish m d)
   }"

definition parse_tag_fileparam :: "denv \<Rightarrow> LuaDocParser \<Rightarrow> CompleteMarker doc_run" where
  "parse_tag_fileparam E d = do {
     (m, d) \<leftarrow> open_tag E DNormal DocTagFileparam d;
     attempt (expect E TkName d) (\<lambda>_ d.
     attempt (parse_type E d) (\<lambda>_ d. close_tag E m d))
   }"

partial_function (option) path_loop :: "denv \<Rightarrow> LuaDocParser \<Rightarrow> (unit dres \<times> LuaDocParser) option" where
  "path_loop E d =
     (if dtoken d = TkDot then do {
        d \<leftarrow> dbump (uni E) d;
        (r, d) \<leftarrow> expect E TkName d;
        case r of DOk _ \<Rightarrow> path_loop E d | DErr e \<Rightarrow> Some (DErr e, d)
      }
      else Some (DOk (), d))"

declare path_loop.simps [code]

definition parse_tag_outparam :: "denv \<Rightarrow> LuaDocParser \<Rightarrow> CompleteMarker doc_run" where
  "parse_tag_outparam E d = do {
     (m, d) \<leftarrow> open_tag E DNormal DocTagOutparam d;
     attempt (expect E TkName d) (\<lambda>_ d.
     attempt (path_loop E d) (\<lambda>_ d.
     attempt (parse_type E d) (\<lambda>_ d. close_tag E m d)))
   }"

definition parse_tag_export :: "denv \<Rightarrow> LuaDocParser \<Rightarrow> CompleteMarker doc_run" where
  "parse_tag_export E d = do {
     (m, d) \<leftarrow> open_tag E DNormal DocTagExport d;
     attempt (bump_if E TkName d) (\<lambda>_ d. close_tag E m d)
   }"

definition parse_tag_language :: "denv \<Rightarrow> LuaDocParser \<Rightarrow> CompleteMarker doc_run" where
  "parse_tag_language E d = do {
     (m, d) \<leftarrow> open_tag E DNormal DocTagLanguage d;
     attempt (expect E TkName d) (\<lambda>_ d. close_tag E m d)
   }"

definition parse_type_attribute :: "denv \<Rightarrow> LuaDocParser \<Rightarrow> CompleteMarker doc_run" where
  "parse_type_attribute E d =
     (let (m, d) = dmark TypeAttribute d in
      attempt (typed_params E d) (\<lambda>_ d. finish m d))"

definition parse_tag_attribute :: "denv \<Rightarrow> LuaDocParser \<Rightarrow> CompleteMarker doc_run" where
  "parse_tag_attribute E d = do {
     (m, d) \<leftarrow> open_tag E DNormal DocTagAttribute d;
     attempt (expect E TkName d) (\<lambda>_ d.
     attempt (parse_type_attribute E d) (\<lambda>_ d. close_tag E m d))
   }"

section \<open>Uses of attributes\<close>

definition is_attribute_literal :: "LuaTokenKind \<Rightarrow> bool" where
  "is_attribute_literal k \<longleftrightarrow>
     k \<in> set [TkInt, TkFloat, TkComplex, TkNil, TkTrue, TkFalse, TkDots, TkString, TkLongString]"

definition parse_attribute_arg :: "denv \<Rightarrow> LuaDocParser \<Rightarrow> CompleteMarker doc_run" where
  "parse_attribute_arg E d =
     (let (m, d) = dmark LiteralExpr d in
      attempt (if is_attribute_literal (dtoken d) then bump_d E d
               else fail_at ''Expected attribute argument value'' d) (\<lambda>_ d. finish m d))"

partial_function (option) attribute_args :: "denv \<Rightarrow> LuaDocParser \<Rightarrow> (unit dres \<times> LuaDocParser) option" where
  "attribute_args E d =
     (if dtoken d = TkEof then Some (DOk (), d)
      else do {
        (r, d) \<leftarrow> parse_attribute_arg E d;
        case r of
          DErr e \<Rightarrow> Some (DErr e, d)
        | DOk _ \<Rightarrow>
            if dtoken d \<noteq> TkComma then Some (DOk (), d)
            else do {
              d \<leftarrow> dbump (uni E) d;
              if dtoken d = TkRightParen then Some (DOk (), d) else attribute_args E d
            }
      })"

declare attribute_args.simps [code]

definition parse_attribute_arg_list :: "denv \<Rightarrow> LuaDocParser \<Rightarrow> CompleteMarker doc_run" where
  "parse_attribute_arg_list E d =
     (let (m, d) = dmark DocAttributeCallArgList d in
      attempt (bump_d E d) (\<lambda>_ d.
      attempt (if dtoken d \<noteq> TkRightParen then attribute_args E d else Some (DOk (), d)) (\<lambda>_ d.
      attempt (expect E TkRightParen d) (\<lambda>_ d. finish m d))))"

definition parse_doc_attribute_use :: "denv \<Rightarrow> LuaDocParser \<Rightarrow> CompleteMarker doc_run" where
  "parse_doc_attribute_use E d =
     (let (m, d) = dmark DocAttributeUse d in
      attempt (parse_type E d) (\<lambda>_ d.
      attempt (when_token TkLeftParen (\<lambda>d. void (parse_attribute_arg_list E d)) d) (\<lambda>_ d. finish m d)))"

partial_function (option) attribute_uses :: "denv \<Rightarrow> LuaDocParser \<Rightarrow> (unit dres \<times> LuaDocParser) option" where
  "attribute_uses E d =
     (if dtoken d = TkName then do {
        (r, d) \<leftarrow> parse_doc_attribute_use E d;
        case r of
          DErr e \<Rightarrow> Some (DErr e, d)
        | DOk _ \<Rightarrow>
            if dtoken d \<noteq> TkComma then Some (DOk (), d)
            else do { d \<leftarrow> dbump (uni E) d; attribute_uses E d }
      }
      else Some (DOk (), d))"

declare attribute_uses.simps [code]

definition parse_tag_attribute_use :: "denv \<Rightarrow> bool \<Rightarrow> LuaDocParser \<Rightarrow> CompleteMarker doc_run" where
  "parse_tag_attribute_use E allow_description d =
     (let (m, d) = dmark DocTagAttributeUse d in
      attempt (bump_d E d) (\<lambda>_ d.
      attempt (attribute_uses E d) (\<lambda>_ d.
      attempt (expect E TkRightBracket d) (\<lambda>_ d.
      if allow_description then close_tag E m d
      else attempt (step (set_lexer_state (uni E) DNormal d)) (\<lambda>_ d. finish m d)))))"

definition parse_tag_call_generic :: "denv \<Rightarrow> LuaDocParser \<Rightarrow> CompleteMarker doc_run" where
  "parse_tag_call_generic E d = do {
     (m, d) \<leftarrow> open_tag E DNormal DocTagCallGeneric d;
     attempt (parse_type_list E d) (\<lambda>_ d.
     attempt (expect E TkGt d) (\<lambda>_ d. finish m d))
   }"

definition parse_tag_schema :: "denv \<Rightarrow> LuaDocParser \<Rightarrow> CompleteMarker doc_run" where
  "parse_tag_schema E d = do {
     (m, d) \<leftarrow> open_tag E DSource DocTagSchema d;
     attempt (expect E TKDocPath d) (\<lambda>_ d. finish m d)
   }"

section \<open>Tags\<close>

definition parse_tag_detail :: "denv \<Rightarrow> LuaDocParser \<Rightarrow> CompleteMarker doc_run" where
  "parse_tag_detail E d =
     (let k = dtoken d in
      if k = TkTagClass \<or> k = TkTagInterface then parse_tag_class E d
      else if k = TkTagEnum then parse_tag_enum E d
      else if k = TkTagAlias then parse_tag_alias E d
      else if k = TkTagField then parse_tag_field E d
      else if k = TkTagType then parse_tag_type E d
      else if k = TkTagParam then parse_tag_param E d
      else if k = TkTagReturn then parse_tag_return E d
      else if k = TkTagReturnCast then parse_tag_return_cast E d
      else if k = TkTagModule then parse_tag_module E d
      else if k = TkTagSee then parse_tag_see E d
      else if k = TkTagGeneric then parse_tag_generic E d
      else if k = TkTagAs then parse_tag_as E d
      else if k = TkTagOverload then parse_tag_overload E d
      else if k = TkTagCast then parse_tag_cast E d
      else if k = TkTagSource then parse_tag_source E d
      else if k = TkTagDiagnostic then parse_tag_diagnostic E d
      else if k = TkTagVersion then parse_tag_version E d
      else if k = TkTagOperator then parse_tag_operator E d
      else if k = TkTagMapping then parse_tag_mapping E d
      else if k = TkTagNamespace then parse_tag_namespace E d
      else if k = TkTagUsing then parse_tag_using E d
      else if k = TkTagMeta then parse_tag_meta E d
      else if k = TkTagRealm then parse_tag_realm E d
      else if k = TkTagFileparam then parse_tag_fileparam E d
      else if k = TkTagOutparam then parse_tag_outparam E d
      else if k = TkTagExport then parse_tag_export E d
      else if k = TkLanguage then parse_tag_language E d
      else if k = TkTagAttribute then parse_tag_attribute E d
      else if k = TkDocAttributeUse then parse_tag_attribute_use E True d
      else if k = TkCallGeneric then parse_tag_call_generic E d
      else if k = TKTagSchema then parse_tag_schema E d
      else if k = TkTagVisibility then parse_tag_simple E DocTagVisibility d
      else if k = TkTagReadonly then parse_tag_simple E DocTagReadonly d
      else if k = TkTagDeprecated then parse_tag_simple E DocTagDeprecated d
      else if k = TkTagAsync then parse_tag_simple E DocTagAsync d
      else if k = TkTagNodiscard then parse_tag_simple E DocTagNodiscard d
      else if k = TkTagOther then parse_tag_simple E DocTagOther d
      else Some (DOk empty_marker, d))"

text \<open>
  A tag that fails leaves markers open; their ends are pushed here. The subtraction of the two
  levels is on \<open>usize\<close>: a panic when the level has dropped.
\<close>

fun dpush_node_ends :: "nat \<Rightarrow> LuaDocParser \<Rightarrow> LuaDocParser option" where
  "dpush_node_ends 0 d = Some d"
| "dpush_node_ends (Suc n) d = do { d \<leftarrow> dpush_node_end d; dpush_node_ends n d }"

definition parse_tag :: "denv \<Rightarrow> LuaDocParser \<Rightarrow> LuaDocParser option" where
  "parse_tag E d = do {
     let lvl = mark_level (lua_parser d);
     (r, d) \<leftarrow> parse_tag_detail E d;
     case r of
       DOk _ \<Rightarrow> Some d
     | DErr error \<Rightarrow>
         (let d = dpush_error error d in
          if mark_level (lua_parser d) < lvl then None
          else dpush_node_ends (mark_level (lua_parser d) - lvl) d)
   }"

definition parse_long_tag :: "denv \<Rightarrow> LuaDocParser \<Rightarrow> LuaDocParser option" where
  "parse_long_tag E d = parse_tag E d"

section \<open>Comments (grammar/doc/mod.rs)\<close>

text \<open>A plain comment; a region mark is left outside the description.\<close>

definition normal_comment :: "denv \<Rightarrow> LuaDocParser \<Rightarrow> LuaDocParser option" where
  "normal_comment E d = do {
     d \<leftarrow> set_lexer_state (uni E) DNormalDescription d;
     let (m, d) = dmark DocDescription d;
     d \<leftarrow> dbump (uni E) d;
     d \<leftarrow> dif_token_bump (uni E) TkWhitespace d;
     (m, d) \<leftarrow> (if dtoken d = TkDocRegion \<or> dtoken d = TkDocEndRegion then do {
                  d \<leftarrow> dundo m d;
                  d \<leftarrow> dbump (uni E) d;
                  Some (dmark DocDescription d)
                }
                else Some (m, d));
     d \<leftarrow> dbump_while (uni E) description_token d;
     (_, d) \<leftarrow> dcomplete m d;
     Some d
   }"

definition docs_step :: "denv \<Rightarrow> LuaDocParser \<Rightarrow> LuaDocParser option" where
  "docs_step E d =
     (if dtoken d = TkDocStart then do {
        d \<leftarrow> set_lexer_state (uni E) DTag d;
        d \<leftarrow> dbump (uni E) d;
        parse_tag E d
      }
      else if dtoken d = TkDocLongStart then do {
        d \<leftarrow> set_lexer_state (uni E) DTag d;
        d \<leftarrow> dbump (uni E) d;
        parse_long_tag E d
      }
      else if dtoken d = TkNormalStart then normal_comment E d
      else if dtoken d = TkLongCommentStart then do {
        d \<leftarrow> set_lexer_state (uni E) DLongDescription d;
        d \<leftarrow> dbump (uni E) d;
        parse_description (uni E) d
      }
      else dbump (uni E) d)"

definition stuck_inside :: "LuaDocParser \<Rightarrow> bool" where
  "stuck_inside d \<longleftrightarrow>
     (case doc_reader (dlexer d) of Some r \<Rightarrow> \<not> is_eof r | None \<Rightarrow> False) \<and>
     dtoken d \<noteq> TkDocStart \<and> dtoken d \<noteq> TkDocLongStart"

partial_function (option) parse_docs :: "denv \<Rightarrow> LuaDocParser \<Rightarrow> LuaDocParser option" where
  "parse_docs E d =
     (if dtoken d = TkEof then Some d
      else do {
        d \<leftarrow> docs_step E d;
        if stuck_inside d then do { d \<leftarrow> bump_to_end (uni E) d; parse_docs E d }
        else do { d \<leftarrow> set_lexer_state (uni E) DInit d; parse_docs E d }
      })"

declare parse_docs.simps [code]

definition parse_comment :: "denv \<Rightarrow> LuaDocParser \<Rightarrow> LuaDocParser option" where
  "parse_comment E d =
     (let (m, d) = dmark Comment d in do {
        d \<leftarrow> parse_docs E d;
        (_, d) \<leftarrow> dcomplete m d;
        Some d
      })"

section \<open>The documentation parser\<close>

definition doc_parser_new :: "LuaParser \<Rightarrow> LuaTokenData list \<Rightarrow> LuaDocParser" where
  "doc_parser_new p toks =
     \<lparr>lua_parser = p, comment_tokens = toks, dlexer = doc_lexer_new (origin_text p), dtoken = TkNone,
      drange = EMPTY, origin_token_index = 0, dstate = PNormal\<rparr>"

text \<open>
  \<open>LuaDocParser::parse\<close>, the value that \<open>parse_comments\<close> and everything above it takes as its
  argument \<open>dp\<close>. \<open>n\<close> bounds the nesting of types, \<open>rs\<close> answers the stack query.
\<close>

definition doc_parser_parse ::
  "Unicode \<Rightarrow> (nat \<Rightarrow> LuaDocParser \<Rightarrow> nat option) \<Rightarrow> nat \<Rightarrow> doc_parser" where
  "doc_parser_parse U rs n toks p = do {
     d \<leftarrow> dinit U (doc_parser_new p toks);
     d \<leftarrow> parse_comment (denv_at U rs n) d;
     Some (lua_parser d)
   }"

end
