(* ===== verification/Doc_Steps.thy ===== *)
theory Doc_Steps
  imports Doc_Cursor Doc_Tags
begin

text \<open>
  The steps of the documentation grammar: changes of the lexer state and the markers, and a
  calculus of runs with a stack of open markers. A function of the grammar may fail at any
  point and leave its markers open; what holds then is the same as after a success.
\<close>

section \<open>Changing the lexer state\<close>

lemma lex_at_state [simp]:
  "lex_at G i (lx\<lparr>doc_state := st\<rparr>) x = lex_at G i lx x" "doc_is_invalid (lx\<lparr>doc_state := st\<rparr>) = doc_is_invalid lx"
  by (simp_all add: lex_at_def doc_is_invalid_def)

lemma rem_eof: "dgood G d \<Longrightarrow> rem d = 0 \<longleftrightarrow> dtoken d = TkEof"
proof
  assume good: "dgood G d" and z: "rem d = 0"
  show "dtoken d = TkEof"
  proof (rule ccontr)
    assume "dtoken d \<noteq> TkEof"
    with good obtain t w where h: "holding G d t w" by (rule dgood_holding)
    from rem_holding [OF h] z h show False by (auto simp: holding_def)
  qed
qed (simp add: rem_def)

text \<open>Changes outside the Lua parser that keep the current piece.\<close>

lemma dgood_with_state:
  assumes "dgood G d"
  shows "dsteps G d (with_lexer_state st d)" and "dsteps G d (set_parser_state ps d)"
  using assms
  by (auto simp: dsteps_def grows_def dgood_def at_end_def holding_def ate_def range_in_def devents_def rem_def
      with_lexer_state_def set_parser_state_def)

lemma dgood_token_kind:
  assumes "dgood G d" and "dtoken d \<noteq> TkEof" and "piece_kind k"
  shows "dsteps G d (d\<lparr>dtoken := k\<rparr>)" "rem (d\<lparr>dtoken := k\<rparr>) = rem d"
proof -
  from assms(1,2) obtain t w where h: "holding G d t w" by (rule dgood_holding)
  then have "holding G (d\<lparr>dtoken := k\<rparr>) t w" using assms(3) by (simp add: holding_def ate_def devents_def)
  then show "dsteps G d (d\<lparr>dtoken := k\<rparr>)" "rem (d\<lparr>dtoken := k\<rparr>) = rem d"
    using assms(2) piece_kindD [OF assms(3)] by (auto simp: dsteps_def dgood_def grows_def devents_def rem_def)
qed

text \<open>Reading the current piece again.\<close>

lemma reset_to_current_ok:
  assumes h: "holding G d t w" and ok: "\<not> doc_is_invalid (dlexer d)"
  shows "\<exists>lx. reset_to_current (d\<lparr>dtoken := k\<rparr>) = Some (d\<lparr>dtoken := k, dlexer := lx\<rparr>) \<and>
    lex_at G (origin_token_index d) lx t \<and> \<not> doc_is_invalid lx"
proof -
  let ?i = "origin_token_index d"
  from h ok obtain y where y: "t = words_to G ?i @ y" by (auto simp: holding_def)
  from h have G: "fits G" "comment_tokens d = group_toks G" "drange d = new_range (off G t) (blen w)" "w \<noteq> []"
    and at: "lex_at G ?i (dlexer d) (t @ w)" by (auto simp: holding_def ate_def)
  from at ok obtain rest where rest: "(t @ w) @ rest = words_to G (Suc ?i)" and i: "?i < length (words G)"
    and src: "doc_text (dlexer d) = origin_text (base G)" by (auto simp: lex_at_def)
  have word: "words_to G (Suc ?i) = words_to G ?i @ words G ! ?i" by (rule words_to_Suc [OF i])
  have rng: "token_range (group_toks G ! ?i) = new_range (off G (words_to G ?i)) (blen (words G ! ?i))"
    and len: "length (group_toks G) = length (words G)" using G(1) i by (simp_all add: fits_def)
  have "end_offset (token_range (group_toks G ! ?i)) = off G (words_to G (Suc ?i))"
    by (simp add: rng end_offset_def word)
  then have stop: "end_offset (token_range (group_toks G ! ?i)) = off G t + blen (w @ rest)"
    by (simp add: rest [symmetric])
  from doc_reset_ok [OF G(1) i src, of y "w @ rest" "kind (group_toks G ! ?i)"] rest y G(4) obtain lx where
    "doc_reset (kind (group_toks G ! ?i)) (new_range (off G t) (blen (w @ rest))) (dlexer d) = Some lx"
    "lex_at G ?i lx t" "\<not> doc_is_invalid lx" by auto
  with G(2,3) i len stop show ?thesis by (intro exI [of _ lx]) (simp add: reset_to_current_def Let_def)
qed

lemma between_reset:
  assumes "holding G d t w" and "lex_at G (origin_token_index d) lx t" "\<not> doc_is_invalid lx"
  shows "between G (with_lexer_state st (d\<lparr>dtoken := k, dlexer := lx\<rparr>)) t"
  using assms by (simp add: between_def holding_def ate_def with_lexer_state_def devents_def)

lemma re_read:
  assumes h: "holding G d t w" and "lua_parser d1 = lua_parser d" "dgood G d1" "rem d1 = blen (body G) - blen t"
  shows "grows d d1"
  using assms rem_holding(1) [OF h] by (simp add: grows_def devents_def)

lemma re_calc_detail_ok:
  assumes "dgood G d" and "dtoken d \<noteq> TkEof"
  shows "\<exists>d'. re_calc_detail U d = Some d' \<and> dsteps G d d'"
proof (cases "doc_is_invalid (dlexer d)")
  case True
  then show ?thesis
    using dgood_token_kind [OF assms, of TkDocDetail] by (simp add: re_calc_detail_def Let_def)
next
  case False
  from assms obtain t w where h: "holding G d t w" by (rule dgood_holding)
  from reset_to_current_ok [OF h False, of TkNone] obtain lx where
    reset: "reset_to_current (d\<lparr>dtoken := TkNone\<rparr>) = Some (d\<lparr>dtoken := TkNone, dlexer := lx\<rparr>)"
    and lx: "lex_at G (origin_token_index d) lx t" "\<not> doc_is_invalid lx" by blast
  let ?d = "with_lexer_state DDescription (d\<lparr>dtoken := TkNone, dlexer := lx\<rparr>)"
  have "between G ?d t" by (rule between_reset [OF h lx])
  from calc_next_ok [OF this, of U] obtain d' d1 where
    d': "calc_next_current_token U ?d = Some d'" "dsteps G d1 d'" "lua_parser d1 = lua_parser ?d"
    "dgood G d1" "rem d1 = blen (body G) - blen t" by blast
  have "lua_parser d1 = lua_parser d" using d'(3) by (simp add: with_lexer_state_def)
  from re_read [OF h this d'(4,5)] d'(2) have "dsteps G d d'" by (auto simp: dsteps_def intro: grows_trans)
  moreover have "dbump U ?d = Some d'"
    using d'(1) by (simp add: dbump_def dis_invalid_kind_def with_lexer_state_def)
  ultimately show ?thesis using reset False by (simp add: re_calc_detail_def Let_def)
qed

lemma re_calc_cast_ok:
  assumes "dgood G d"
  shows "\<exists>d'. re_calc_cast_type U d = Some d' \<and> dsteps G d d' \<and> rem d' = rem d"
proof (cases "doc_is_invalid (dlexer d)")
  case True
  then show ?thesis using dsteps_refl [OF assms] by (simp add: re_calc_cast_type_def)
next
  case False
  with assms have "dtoken d \<noteq> TkEof" using dgood_at_end [OF assms] by (auto simp: at_end_def)
  with assms obtain t w where h: "holding G d t w" by (rule dgood_holding)
  from reset_to_current_ok [OF h False, of "dtoken d"] obtain lx where lx: "reset_to_current d = Some (d\<lparr>dlexer := lx\<rparr>)"
    "lex_at G (origin_token_index d) lx t" "\<not> doc_is_invalid lx" by auto
  let ?d = "with_lexer_state DNormal (d\<lparr>dlexer := lx\<rparr>)"
  have "between G ?d t" using between_reset [OF h lx(2,3), of DNormal "dtoken d"] by simp
  from next_token [OF this, of U] obtain tk d1 where
    d1: "lex_token U ?d = Some (tk, d1)" "lua_parser d1 = lua_parser ?d" "dgood G (take_token tk d1)"
    "rem (take_token tk d1) = blen (body G) - blen t" by blast
  have "lua_parser (take_token tk d1) = lua_parser d"
    using d1(2) by (simp add: take_token_def with_lexer_state_def)
  from re_read [OF h this d1(3,4)] d1(3) have "dsteps G d (take_token tk d1)" by (simp add: dsteps_def)
  moreover have "rem (take_token tk d1) = rem d" using d1(4) rem_holding(1) [OF h] by simp
  ultimately show ?thesis using d1(1) lx(1) False
    by (simp add: re_calc_cast_type_def)
qed

lemma set_lexer_state_ok:
  assumes "dgood G d"
  shows "\<exists>d'. set_lexer_state U st d = Some d' \<and> dsteps G d d' \<and> (st \<noteq> DDescription \<longrightarrow> rem d' = rem d)"
proof -
  let ?m = "case st of
             DDescription \<Rightarrow> if keeps_description (dtoken d) then Some d else re_calc_detail U d
           | DTrivia \<Rightarrow>
               if dtoken d \<in> set [TkWhitespace, TkEndOfLine, TkEof, TkDocContinueOr] then Some d
               else Some (d\<lparr>dtoken := TkDocTrivia\<rparr>)
           | DNormal \<Rightarrow>
               if doc_state (dlexer d) = DCastExpr then re_calc_cast_type U d else Some d
           | _ \<Rightarrow> Some d"
  have "\<exists>d1. ?m = Some d1 \<and> dsteps G d d1 \<and> (st \<noteq> DDescription \<longrightarrow> rem d1 = rem d)"
  proof (cases st)
    case DNormal
    then show ?thesis using re_calc_cast_ok [OF assms, of U] dsteps_refl [OF assms] by auto
  next
    case DDescription
    have "dtoken d \<noteq> TkEof" if "\<not> keeps_description (dtoken d)" using that by (auto simp: keeps_description_def)
    with DDescription show ?thesis using re_calc_detail_ok [OF assms, of U] dsteps_refl [OF assms] by auto
  next
    case DTrivia
    then show ?thesis using dgood_token_kind [OF assms, of TkDocTrivia] dsteps_refl [OF assms] by auto
  qed (use dsteps_refl [OF assms] in simp_all)
  then obtain d1 where d1: "?m = Some d1" "dsteps G d d1" "st \<noteq> DDescription \<longrightarrow> rem d1 = rem d" by blast
  moreover have "dsteps G d1 (with_lexer_state st d1)"
    using d1(2) by (intro dgood_with_state(1)) (simp add: dsteps_def)
  moreover have "rem (with_lexer_state st d1) = rem d1" by (simp add: with_lexer_state_def rem_def)
  ultimately show ?thesis by (auto simp: set_lexer_state_def intro: dsteps_trans)
qed

lemma bump_to_end_ok:
  assumes "dgood G d" and "dtoken d \<noteq> TkEof"
  shows "\<exists>d'. bump_to_end U d = Some d' \<and> dsteps G d d'"
proof -
  have "\<exists>d1. set_lexer_state U DTrivia d = Some d1 \<and> dsteps G d d1 \<and> dtoken d1 \<noteq> TkEof"
  proof (cases "dtoken d \<in> set [TkWhitespace, TkEndOfLine, TkEof, TkDocContinueOr]")
    case True
    then show ?thesis using dgood_with_state(1) [OF assms(1)] assms(2)
      by (auto simp: set_lexer_state_def with_lexer_state_def)
  next
    case False
    have t: "dsteps G d (d\<lparr>dtoken := TkDocTrivia\<rparr>)" by (rule dgood_token_kind [OF assms]) simp
    then have "dgood G (d\<lparr>dtoken := TkDocTrivia\<rparr>)" by (simp add: dsteps_def)
    from dgood_with_state(1) [OF this, of DTrivia] t False show ?thesis
      by (intro exI [of _ "with_lexer_state DTrivia (d\<lparr>dtoken := TkDocTrivia\<rparr>)"])
        (auto simp: set_lexer_state_def with_lexer_state_def intro: dsteps_trans)
  qed
  then obtain d1 where d1: "set_lexer_state U DTrivia d = Some d1" "dsteps G d d1" "dtoken d1 \<noteq> TkEof" by blast
  from d1(2) have "dgood G d1" by (simp add: dsteps_def)
  with d1(3) obtain t w where "holding G d1 t w" by (metis dgood_holding)
  from eat_current_ok [OF this, of U] obtain d2 where
    d2: "eat_current_and_lex_next U d1 = Some d2" "dsteps G d1 d2" by blast
  then have "dgood G d2" by (simp add: dsteps_def)
  from set_lexer_state_ok [OF this, of U DInit] obtain d3 where
    d3: "set_lexer_state U DInit d2 = Some d3" "dsteps G d2 d3" by blast
  then have "dgood G d3" by (simp add: dsteps_def)
  from dbump_ok [OF this, of U] obtain d4 where d4: "dbump U d3 = Some d4" "dsteps G d3 d4" by blast
  have "dsteps G d d4" by (rule dsteps_trans [OF dsteps_trans [OF dsteps_trans [OF d1(2) d2(2)] d3(2)] d4(2)])
  with d1(1) d2(1) d3(1) d4(1) show ?thesis by (simp add: bump_to_end_def)
qed

lemma dgood_range:
  assumes "dgood G d"
  shows "\<exists>x y z. body G = x @ y @ z \<and> drange d = new_range (off G x) (blen y)"
proof (cases "dtoken d = TkEof")
  case True
  with dgood_at_end [OF assms] obtain x y where "body G = x @ y @ []" "drange d = new_range (off G x) (blen y)"
    by (auto simp: at_end_def range_in_def)
  then show ?thesis by blast
next
  case False
  with assms obtain t w where h: "holding G d t w" by (rule dgood_holding)
  with rem_holding(2) [OF h] show ?thesis by (auto simp: holding_def)
qed

lemma dgood_origin: "dgood G d \<Longrightarrow> origin_text (lua_parser d) = origin_text (base G)"
  by (auto simp: dgood_def at_end_def holding_def ate_def keeps_def)

lemma dtoken_text_ok: "dgood G d \<Longrightarrow> \<exists>s. dtoken_text d = Some s"
  using dgood_range [of G d] fits_slice [OF dgood_fits [of G d]]
  by (fastforce simp: dtoken_text_def dgood_origin end_offset_def)

lemma type_modifier_flag_ok: "dgood G d \<Longrightarrow> \<exists>b. is_type_modifier_flag d = Some b"
proof -
  assume good: "dgood G d"
  from dgood_range [OF this] obtain x y z where xyz: "body G = (x @ y) @ z" "drange d = new_range (off G x) (blen y)"
    by auto
  from fits_drop [OF dgood_fits [OF good] xyz(1)] xyz(2) show ?thesis
    by (auto simp: is_type_modifier_flag_def Let_def dgood_origin [OF good] end_offset_def)
qed

section \<open>Markers\<close>

lemma dgood_lua:
  assumes good: "dgood G d" and keeps: "keeps (lua_parser d) p"
    and new: "\<And>new. devents d = events (base G) @ new \<Longrightarrow>
      \<exists>new'. events p = events (base G) @ new' \<and> eaten new' = eaten new"
  shows "dgood G (d\<lparr>lua_parser := p\<rparr>)" and "rem (d\<lparr>lua_parser := p\<rparr>) = rem d"
proof -
  have ate: "ate G (d\<lparr>lua_parser := p\<rparr>) t" if "ate G d t" for t
  proof -
    from that obtain new where "devents d = events (base G) @ new" "pieces (off G []) (eaten new) t"
      and k: "keeps (base G) (lua_parser d)" by (auto simp: ate_def)
    with assms(3) obtain new' where "events p = events (base G) @ new'" "pieces (off G []) (eaten new') t" by metis
    moreover have "keeps (base G) p" using k keeps by (auto simp: keeps_def)
    ultimately show ?thesis using that by (auto simp: ate_def devents_def)
  qed
  from good show "dgood G (d\<lparr>lua_parser := p\<rparr>)"
    unfolding dgood_def at_end_def holding_def range_in_def using ate by fastforce
qed (simp add: rem_def)

lemma base_prefix: "dgood G d \<Longrightarrow> \<exists>new. devents d = events (base G) @ new"
  by (auto simp: dgood_def at_end_def holding_def ate_def)

lemma base_length: "dgood G d \<Longrightarrow> length (events (base G)) \<le> length (devents d)"
  using base_prefix by fastforce

lemma starts_Cons:
  "starts (e # es) (Suc j) \<longleftrightarrow> starts es j" "starts (e # es) 0 \<longleftrightarrow> (\<exists>k q. e = NodeStart k q)"
  by (auto simp: starts_def start_at_def split: MarkEvent.splits)

lemma eaten_start: "starts es j \<Longrightarrow> eaten (es[j := NodeStart k q]) = eaten es"
proof (induction es arbitrary: j)
  case (Cons e es)
  then show ?case
    by (cases j; cases e) (auto simp: starts_Cons)
qed simp

lemma eaten_new_start:
  assumes "starts (es @ new) j" and "length es \<le> j"
  shows "\<exists>new'. (es @ new)[j := NodeStart k q] = es @ new' \<and> eaten new' = eaten new"
proof -
  have "starts new (j - length es)" using assms by (auto simp: starts_def start_at_def nth_append split: if_splits)
  from eaten_start [OF this] assms(2) show ?thesis by (auto simp: list_update_append)
qed

lemma starts_update: "starts es j \<Longrightarrow> starts (es[i := NodeStart k q]) j"
  by (cases "i < length es") (auto simp: starts_def start_at_def nth_list_update split: if_splits)

definition valid_cm :: "doc_group \<Rightarrow> CompleteMarker \<Rightarrow> LuaDocParser \<Rightarrow> bool" where
  "valid_cm G cm d \<longleftrightarrow> length (events (base G)) \<le> cm_start cm \<and> starts (devents d) (cm_start cm)"

definition opened_at :: "doc_group \<Rightarrow> Marker \<Rightarrow> LuaDocParser \<Rightarrow> LuaDocParser \<Rightarrow> bool" where
  "opened_at G m q d \<longleftrightarrow>
     dgood G q \<and> dsteps G q d \<and> position m = length (devents q) \<and> starts (devents d) (position m) \<and>
     mark_level (lua_parser q) < mark_level (lua_parser d) \<and>
     (rem d < rem q \<longrightarrow> Suc (position m) < length (devents d))"

lemma starts_length: "starts es j \<Longrightarrow> j < length es"
  by (auto simp: starts_def start_at_def split: if_splits)

lemma opened_steps:
  assumes "opened_at G m q d" and "dsteps G d d'"
  shows "opened_at G m q d'"
  using assms dsteps_trans [of G q d d'] starts_length [of "devents d" "position m"]
  unfolding opened_at_def by (auto simp: dsteps_def grows_def)

lemma start_at_starts: "starts es j \<Longrightarrow> \<exists>k q. start_at es j = Some (k, q)"
  by (auto simp: starts_def)

text \<open>A change of the Lua parser at one start event.\<close>

lemma update_start_ok:
  fixes k :: LuaSyntaxKind and q :: nat
  assumes "dgood G d" and "starts (devents d) j" and "length (events (base G)) \<le> j"
  defines "d' \<equiv> d\<lparr>lua_parser := (lua_parser d)\<lparr>events := (devents d)[j := NodeStart k q]\<rparr>\<rparr>"
  shows "dsteps G d d'" and "rem d' = rem d" and "dtoken d' = dtoken d"
proof -
  have "dgood G d'" "rem d' = rem d"
    unfolding d'_def
    by (rule dgood_lua [OF assms(1)]; use eaten_new_start [of "events (base G)" _ j k q] assms(2,3) in
        \<open>force simp: keeps_def devents_def\<close>)+
  then show "dsteps G d d'" "rem d' = rem d"
    by (auto simp: dsteps_def grows_def d'_def devents_def intro: starts_update)
qed (simp add: d'_def)

lemma append_event_ok:
  assumes "dgood G d" and "eaten [e] = []" and "mark_level (lua_parser d) \<le> l"
  defines "d' \<equiv> d\<lparr>lua_parser := (lua_parser d)\<lparr>events := devents d @ [e], mark_level := l\<rparr>\<rparr>"
  shows "dsteps G d d'" and "rem d' = rem d" and "dtoken d' = dtoken d"
proof -
  have "dgood G d'" "rem d' = rem d"
    unfolding d'_def
    by (rule dgood_lua [OF assms(1)]; use assms(2) in \<open>force simp: keeps_def devents_def\<close>)+
  then show "dsteps G d d'" "rem d' = rem d"
    using assms(3) by (auto simp: dsteps_def grows_def d'_def devents_def intro: starts_snoc)
qed (simp add: d'_def)

lemma dmark_ok:
  assumes "dgood G d"
  shows "\<exists>m d'. dmark k d = (m, d') \<and> opened_at G m d d' \<and> rem d' = rem d \<and> dtoken d' = dtoken d"
proof -
  let ?d = "d\<lparr>lua_parser := (lua_parser d)\<lparr>events := devents d @ [NodeStart k 0], mark_level := mark_level (lua_parser d) + 1\<rparr>\<rparr>"
  note s = append_event_ok [OF assms, of "NodeStart k 0" "mark_level (lua_parser d) + 1"]
  have "starts (devents ?d) (length (devents d))"
    by (simp add: starts_def start_at_def devents_def)
  then have "opened_at G (Marker (length (devents d))) d ?d"
    using s assms by (simp add: opened_at_def)
  then show ?thesis using s
    by (intro exI [of _ "Marker (length (devents d))"] exI [of _ ?d]) (simp add: dmark_def mark_def devents_def)
qed

lemma dset_kind_ok:
  assumes "opened_at G m q d"
  shows "\<exists>d'. dset_kind m k d = Some d' \<and> dsteps G d d' \<and> rem d' = rem d \<and> dtoken d' = dtoken d \<and> dstate d' = dstate d"
proof -
  from assms have good: "dgood G d" and st: "starts (devents d) (position m)"
    and len: "length (events (base G)) \<le> position m"
    using base_length [of G q] by (auto simp: opened_at_def dsteps_def)
  from start_at_starts [OF st] obtain k' q' where at: "start_at (events (lua_parser d)) (position m) = Some (k', q')"
    by (auto simp: devents_def)
  with update_start_ok [OF good st len, of k q'] show ?thesis
    by (simp add: dset_kind_def set_kind_def devents_def)
qed

lemma dundo_ok:
  assumes "opened_at G m q d"
  shows "\<exists>d'. dundo m d = Some d' \<and> dsteps G d d' \<and> rem d' = rem d \<and> dtoken d' = dtoken d"
proof -
  from assms have good: "dgood G d" and st: "starts (devents d) (position m)"
    and len: "length (events (base G)) \<le> position m"
    using base_length [of G q] by (auto simp: opened_at_def dsteps_def)
  from start_at_starts [OF st] obtain k' q' where at: "start_at (events (lua_parser d)) (position m) = Some (k', q')"
    by (auto simp: devents_def)
  with update_start_ok [OF good st len, of SkNone q'] show ?thesis
    by (simp add: dundo_def undo_def devents_def)
qed

lemma dcomplete_ok:
  assumes "opened_at G m q d"
  shows "\<exists>cm d'. dcomplete m d = Some (cm, d') \<and> dsteps G q d' \<and> rem d' = rem d \<and> dtoken d' = dtoken d \<and>
    (rem d < rem q \<longrightarrow> valid_cm G cm d')"
proof -
  from assms have good: "dgood G d" and st: "starts (devents d) (position m)"
    and q: "dgood G q" "dsteps G q d" "position m = length (devents q)" "mark_level (lua_parser q) < mark_level (lua_parser d)"
    and moved: "rem d < rem q \<longrightarrow> Suc (position m) < length (devents d)"
    and len: "length (events (base G)) \<le> position m"
    using base_length [of G q] by (auto simp: opened_at_def dsteps_def)
  from start_at_starts [OF st] obtain k' q' where at: "start_at (events (lua_parser d)) (position m) = Some (k', q')"
    by (auto simp: devents_def)
  show ?thesis
  proof (cases "length (devents d) = Suc (position m)")
    case True
    with at update_start_ok [OF good st len, of SkNone q'] dsteps_trans [OF q(2)] moved show ?thesis
      by (auto simp: dcomplete_def complete_def devents_def)
  next
    case False
    let ?p = "(lua_parser d)\<lparr>events := devents d @ [NodeEnd], mark_level := mark_level (lua_parser d) - 1\<rparr>"
    let ?d = "d\<lparr>lua_parser := ?p\<rparr>"
    have run: "dcomplete m d = Some (\<lparr>cm_start = position m, cm_kind = k'\<rparr>, ?d)"
      using at False q(4) by (simp add: dcomplete_def complete_def push_node_end_def devents_def)
    have g: "dgood G ?d" and r: "rem ?d = rem d"
      by (rule dgood_lua [OF good]; force simp: keeps_def devents_def)+
    moreover have "starts (devents ?d) (position m)" using st starts_snoc by (simp add: devents_def)
    moreover have "grows q ?d"
      using q(2,4) r by (auto simp: dsteps_def grows_def devents_def intro: starts_snoc)
    ultimately show ?thesis using run len by (simp add: dsteps_def valid_cm_def)
  qed
qed

lemma dprecede_ok:
  assumes good: "dgood G d" and cm: "valid_cm G cm d"
  shows "\<exists>m d'. dprecede cm k d = Some (m, d') \<and> opened_at G m d d' \<and> rem d' = rem d \<and> dtoken d' = dtoken d"
proof -
  from dmark_ok [OF good, of k] obtain m d1 where
    d1: "dmark k d = (m, d1)" "opened_at G m d d1" "rem d1 = rem d" "dtoken d1 = dtoken d" by blast
  have g1: "dgood G d1" and st: "starts (devents d1) (cm_start cm)"
    using d1(2) cm by (auto simp: opened_at_def dsteps_def grows_def valid_cm_def)
  from start_at_starts [OF st] obtain k' q' where at: "start_at (events (lua_parser d1)) (cm_start cm) = Some (k', q')"
    by (auto simp: devents_def)
  let ?d2 = "d1\<lparr>lua_parser := (lua_parser d1)\<lparr>events := (devents d1)[cm_start cm := NodeStart k' (position m)]\<rparr>\<rparr>"
  note d2 = update_start_ok [OF g1 st, of k' "position m"]
  have base: "length (events (base G)) \<le> cm_start cm" using cm by (simp add: valid_cm_def)
  have g2: "dgood G ?d2" using d2(1) [OF base] by (simp add: dsteps_def)
  let ?d3 = "?d2\<lparr>lua_parser := (lua_parser ?d2)\<lparr>events := devents ?d2 @ [Trivia], mark_level := mark_level (lua_parser ?d2)\<rparr>\<rparr>"
  note d3 = append_event_ok [OF g2, of Trivia "mark_level (lua_parser ?d2)"]
  have s3: "dsteps G ?d2 ?d3" "rem ?d3 = rem ?d2" "dtoken ?d3 = dtoken ?d2" by (rule d3; simp)+
  have "dprecede cm k d = Some (m, ?d3)"
    using d1(1) at by (auto simp: dprecede_def precede_def dmark_def push_event_def devents_def split: prod.splits)
  moreover have "opened_at G m d ?d3"
    by (rule opened_steps [OF opened_steps [OF d1(2) d2(1) [OF base]] s3(1)])
  ultimately show ?thesis using s3(2,3) d2(2,3) [OF base] d1(3,4) by (intro exI [of _ m] exI [of _ ?d3]) simp
qed

lemma dpush_error_ok: "dgood G d \<Longrightarrow> dsteps G d (dpush_error e d)" "rem (dpush_error e d) = rem d"
proof -
  assume good: "dgood G d"
  have "dgood G (dpush_error e d)" unfolding dpush_error_def
    by (rule dgood_lua(1) [OF good]) (auto simp: keeps_def devents_def)
  then show "dsteps G d (dpush_error e d)"
    by (simp add: dsteps_def grows_def rem_def devents_def dpush_error_def)
qed (simp add: rem_def dpush_error_def)

end
