(* ===== verification/Doc_Run.thy ===== *)
theory Doc_Run
  imports Doc_Steps
begin

text \<open>
  Runs of the documentation grammar. \<open>drun G d0 ms d r Y\<close>: the run \<open>r\<close>, in state \<open>d\<close> inside a function
  that started in \<open>d0\<close> and has the markers \<open>ms\<close> open, returns; whatever the result, the state is
  reachable from \<open>d0\<close>, and a success \<open>x\<close> satisfies \<open>Y x\<close>.
\<close>

section \<open>The judgement\<close>

fun dparsing :: "doc_group \<Rightarrow> LuaDocParser \<Rightarrow> (Marker \<times> LuaDocParser) list \<Rightarrow> LuaDocParser \<Rightarrow> bool" where
  "dparsing G d0 [] d \<longleftrightarrow> dgood G d0 \<and> dsteps G d0 d"
| "dparsing G d0 ((m, q) # ms) d \<longleftrightarrow> dparsing G d0 ms q \<and> opened_at G m q d"

definition dpost :: "doc_group \<Rightarrow> LuaDocParser \<Rightarrow> ('a \<Rightarrow> LuaDocParser \<Rightarrow> bool) \<Rightarrow> 'a dres \<times> LuaDocParser \<Rightarrow> bool" where
  "dpost G d0 Y x \<longleftrightarrow> dsteps G d0 (snd x) \<and> (\<forall>y. fst x = DOk y \<longrightarrow> Y y (snd x))"

definition drun ::
  "doc_group \<Rightarrow> LuaDocParser \<Rightarrow> (Marker \<times> LuaDocParser) list \<Rightarrow> LuaDocParser \<Rightarrow> 'a doc_run
     \<Rightarrow> ('a \<Rightarrow> LuaDocParser \<Rightarrow> bool) \<Rightarrow> bool" where
  "drun G d0 ms d r Y \<longleftrightarrow> (dparsing G d0 ms d \<longrightarrow> wp r (dpost G d0 Y))"

abbreviation drun0 :: "doc_group \<Rightarrow> LuaDocParser \<Rightarrow> 'a doc_run \<Rightarrow> ('a \<Rightarrow> LuaDocParser \<Rightarrow> bool) \<Rightarrow> bool" where
  "drun0 G d r Y \<equiv> drun G d [] d r Y"

lemma dparsing_steps: "dparsing G d0 ms d \<Longrightarrow> dsteps G d d' \<Longrightarrow> dparsing G d0 ms d'"
  by (cases ms) (auto intro: opened_steps dsteps_trans)

lemma dparsing_result: "dparsing G d0 ms d \<Longrightarrow> dsteps G d0 d"
proof (induction ms arbitrary: d)
  case (Cons mq ms)
  then show ?case by (cases mq) (auto simp: opened_at_def intro: dsteps_trans)
qed simp

lemma dparsing_good: "dparsing G d0 ms d \<Longrightarrow> dgood G d"
  using dparsing_result by (auto simp: dsteps_def)

lemma dparsing_self: "dgood G d \<Longrightarrow> dparsing G d [] d"
  by (simp add: dsteps_refl)

lemma drun_weaken: "drun G d0 ms d r X \<Longrightarrow> (\<And>x d'. X x d' \<Longrightarrow> Y x d') \<Longrightarrow> drun G d0 ms d r Y"
  by (auto simp: drun_def dpost_def elim: wp_conseq)

lemma drun_good: "(dgood G d \<Longrightarrow> drun G d0 ms d r Y) \<Longrightarrow> drun G d0 ms d r Y"
  by (auto simp: drun_def dest: dparsing_good)

section \<open>Normal forms of runs\<close>

text \<open>With these equations every function of the grammar is a sequence of binds.\<close>

named_theorems drun_simps \<open>normal forms of runs\<close>

lemma attempt_return [drun_simps]:
  "attempt (Some (DOk x, d)) f = f x d" "attempt (Some (DErr e, d)) f = Some (DErr e, d)"
  "attempt (fail_at msg d) f = fail_at msg d"
  by (simp_all add: attempt_def fail_at_def)

lemma attempt_assoc [drun_simps]:
  "attempt (attempt m f) g = attempt m (\<lambda>x d. attempt (f x d) g)"
  by (cases m) (auto simp: attempt_def split: dres.splits)

lemma attempt_bind [drun_simps]:
  "attempt (m \<bind> f) g = m \<bind> (\<lambda>x. attempt (f x) g)"
  by (cases m) (simp_all add: attempt_def)

lemma attempt_if [drun_simps]: "attempt (if b then m else n) f = (if b then attempt m f else attempt n f)"
  by simp

lemma attempt_let [drun_simps]: "attempt (let x = a in f x) g = (let x = a in attempt (f x) g)"
  by simp

lemma attempt_prod [drun_simps]: "attempt (case p of (x, y) \<Rightarrow> f x y) g = (case p of (x, y) \<Rightarrow> attempt (f x y) g)"
  by (simp add: split_def)

lemma attempt_step [drun_simps]: "attempt (step m) f = m \<bind> (\<lambda>d. f () d)"
  by (cases m) (simp_all add: attempt_def step_def)

lemma attempt_bump [drun_simps]: "attempt (bump_d E d) f = dbump (uni E) d \<bind> (\<lambda>d. f () d)"
  by (simp add: bump_d_def attempt_step)

lemma bump_run [drun_simps]: "bump_d E d = dbump (uni E) d \<bind> (\<lambda>d. Some (DOk (), d))"
  by (simp add: bump_d_def step_def)

lemma step_run [drun_simps]: "step m = m \<bind> (\<lambda>d. Some (DOk (), d))"
  by (simp add: step_def)

lemma expect_run [drun_simps]:
  "expect E token d =
     (if dtoken d = token then dbump (uni E) d \<bind> (\<lambda>d. Some (DOk (), d))
      else Some (DErr (syntax_error_from (str (expected_message token (dtoken d))) (drange d)), d))"
  by (simp add: expect_def dexpect_token_def)

lemma finish_run [drun_simps]: "finish m d = dcomplete m d \<bind> (\<lambda>(cm, d). Some (DOk cm, d))"
  by (simp add: finish_def)

lemma attempt_fold [drun_simps]:
  "m \<bind> (\<lambda>(r, d). case r of DOk x \<Rightarrow> f x d | DErr e \<Rightarrow> Some (DErr e, d)) = attempt m f"
  by (simp add: attempt_def)

lemma bind_assoc_runs [drun_simps]:
  "(m \<bind> f) \<bind> g = m \<bind> (\<lambda>x. f x \<bind> g)" for m :: "'a option"
  by (cases m) simp_all

lemma bind_some_runs [drun_simps]: "Some x \<bind> f = f x"
  by simp

lemma bind_prod_runs [drun_simps]: "(case p of (x, y) \<Rightarrow> f x y) \<bind> g = (case p of (x, y) \<Rightarrow> f x y \<bind> g)"
  for f :: "'a \<Rightarrow> 'b \<Rightarrow> 'c option" and g :: "'c \<Rightarrow> 'd option"
  by (simp add: split_def)

lemma bind_let_runs [drun_simps]: "(let x = a in f x) \<bind> g = (let x = a in f x \<bind> g)"
  for f :: "'a \<Rightarrow> 'b option"
  by simp

lemma void_run [drun_simps]: "void m = attempt m (\<lambda>_ d. Some (DOk (), d))"
  by (simp add: void_def)

lemma bump_if_run [drun_simps]: "dif_token_bump U token d = (if dtoken d = token then dbump U d else Some d)"
  by (simp add: dif_token_bump_def)

lemmas small_runs [drun_simps] = one_token_def bump_if_def when_token_def after_token_def prod.case

section \<open>Rules\<close>

named_theorems drun_rules \<open>introduction rules of the judgement\<close>

lemma drun_return [drun_rules]: "(dparsing G d0 ms d \<Longrightarrow> rem d \<le> rem d0 \<Longrightarrow> Y x d) \<Longrightarrow> drun G d0 ms d (Some (DOk x, d)) Y"
  using dparsing_result [of G d0 ms d] by (auto simp: drun_def dpost_def dsteps_def grows_def)

lemma drun_error [drun_rules]: "drun G d0 ms d (Some (DErr e, d)) Y"
  by (auto simp: drun_def dpost_def dest: dparsing_result)

lemma drun_error_push [drun_rules]: "drun G d0 ms d (Some (DErr e, dpush_error e' d)) Y"
  using dpush_error_ok(1) [of G d e']
  by (auto simp: drun_def dpost_def dest: dparsing_result dparsing_good intro: dsteps_trans)

lemma drun_fail [drun_rules]: "drun G d0 ms d (fail_at msg d) Y"
  by (simp add: fail_at_def drun_error)

lemma drun_if [drun_rules]:
  "(b \<Longrightarrow> drun G d0 ms d m Y) \<Longrightarrow> (\<not> b \<Longrightarrow> drun G d0 ms d n Y) \<Longrightarrow> drun G d0 ms d (if b then m else n) Y"
  by simp

lemma drun_if_bind [drun_rules]:
  "(b \<Longrightarrow> drun G d0 ms d (m \<bind> f) Y) \<Longrightarrow> (\<not> b \<Longrightarrow> drun G d0 ms d (n \<bind> f) Y) \<Longrightarrow>
   drun G d0 ms d ((if b then m else n) \<bind> f) Y"
  by simp

lemma drun_plain:
  assumes "dgood G d \<Longrightarrow> \<exists>d'. m = Some d' \<and> dsteps G d d' \<and> X d'"
    and "\<And>d'. X d' \<Longrightarrow> rem d' \<le> rem d \<Longrightarrow> drun G d0 ms d' (f d') Y"
  shows "drun G d0 ms d (m \<bind> f) Y"
  unfolding drun_def
proof
  assume p: "dparsing G d0 ms d"
  from assms(1) [OF dparsing_good [OF p]] obtain d' where d': "m = Some d'" "dsteps G d d'" "X d'" by blast
  then have "rem d' \<le> rem d" by (simp add: dsteps_def grows_def)
  with assms(2) [OF d'(3)] dparsing_steps [OF p d'(2)] d'(1) show "wp (m \<bind> f) (dpost G d0 Y)"
    by (simp add: drun_def)
qed

lemma drun_bump [drun_rules]:
  assumes "\<And>d'. rem d' \<le> rem d \<Longrightarrow> (0 < rem d \<Longrightarrow> rem d' < rem d) \<Longrightarrow> drun G d0 ms d' (f d') Y"
  shows "drun G d0 ms d (dbump U d \<bind> f) Y"
proof (rule drun_plain [where X = "\<lambda>d'. 0 < rem d \<longrightarrow> rem d' < rem d"])
  assume "dgood G d"
  with dbump_ok [OF this, of U] rem_eof [OF this]
  show "\<exists>d'. dbump U d = Some d' \<and> dsteps G d d' \<and> (0 < rem d \<longrightarrow> rem d' < rem d)" by auto
next
  fix d'
  assume "0 < rem d \<longrightarrow> rem d' < rem d" "rem d' \<le> rem d"
  then show "drun G d0 ms d' (f d') Y" by (intro assms) simp_all
qed

text \<open>A bump after a finished node, which stays valid.\<close>

lemma drun_bump_keep:
  assumes "valid_cm G cm d"
    and "\<And>d'. rem d' \<le> rem d \<Longrightarrow> valid_cm G cm d' \<Longrightarrow> drun G d0 ms d' (f d') Y"
  shows "drun G d0 ms d (dbump U d \<bind> f) Y"
  by (rule drun_plain [where X = "valid_cm G cm"])
    (use dbump_ok [of G d U] assms in \<open>auto simp: dsteps_def grows_def valid_cm_def\<close>)

lemma drun_lexer_state [drun_rules]:
  assumes "\<And>d'. rem d' \<le> rem d \<Longrightarrow> (st \<noteq> DDescription \<Longrightarrow> rem d' = rem d) \<Longrightarrow> drun G d0 ms d' (f d') Y"
  shows "drun G d0 ms d (set_lexer_state U st d \<bind> f) Y"
  by (rule drun_plain [where X = "\<lambda>d'. st \<noteq> DDescription \<longrightarrow> rem d' = rem d"])
    (use set_lexer_state_ok [of G d U st] assms in auto)

lemma drun_value:
  assumes "dgood G d \<Longrightarrow> \<exists>x. m = Some x" and "\<And>x. drun G d0 ms d (f x) Y"
  shows "drun G d0 ms d (m \<bind> f) Y"
  unfolding drun_def
proof
  assume p: "dparsing G d0 ms d"
  from assms(1) [OF dparsing_good [OF p]] obtain x where "m = Some x" by blast
  with assms(2) [of x] p show "wp (m \<bind> f) (dpost G d0 Y)" by (simp add: drun_def)
qed

lemma drun_token_text [drun_rules]:
  assumes "\<And>s. drun G d0 ms d (f s) Y"
  shows "drun G d0 ms d (dtoken_text d \<bind> f) Y"
  by (rule drun_value [OF dtoken_text_ok assms])

lemma drun_modifier_flag [drun_rules]:
  assumes "\<And>b. drun G d0 ms d (f b) Y"
  shows "drun G d0 ms d (is_type_modifier_flag d \<bind> f) Y"
  by (rule drun_value [OF type_modifier_flag_ok assms])

lemma drun_mark [drun_rules]:
  assumes "\<And>m d'. rem d' = rem d \<Longrightarrow> dtoken d' = dtoken d \<Longrightarrow> drun G d0 ((m, d) # ms) d' (f m d') Y"
  shows "drun G d0 ms d (let (m, d) = dmark k d in f m d) Y"
  unfolding drun_def
proof
  assume p: "dparsing G d0 ms d"
  from dmark_ok [OF dparsing_good [OF p], of k] obtain m d' where
    "dmark k d = (m, d')" "opened_at G m d d'" "rem d' = rem d" "dtoken d' = dtoken d" by blast
  with assms [of d' m] p show "wp (let (m, d) = dmark k d in f m d) (dpost G d0 Y)"
    by (simp add: drun_def)
qed

lemma drun_complete [drun_rules]:
  assumes "\<And>cm d'. rem d' = rem d \<Longrightarrow> dtoken d' = dtoken d \<Longrightarrow> (rem d < rem q \<Longrightarrow> valid_cm G cm d') \<Longrightarrow>
      drun G d0 ms d' (f (cm, d')) Y"
  shows "drun G d0 ((m, q) # ms) d (dcomplete m d \<bind> f) Y"
  unfolding drun_def
proof
  assume p: "dparsing G d0 ((m, q) # ms) d"
  then have "opened_at G m q d" "dparsing G d0 ms q" by simp_all
  from dcomplete_ok [OF this(1)] obtain cm d' where "dcomplete m d = Some (cm, d')" "dsteps G q d'"
    "rem d' = rem d" "dtoken d' = dtoken d" "rem d < rem q \<longrightarrow> valid_cm G cm d'" by blast
  with assms [of d' cm] dparsing_steps [OF \<open>dparsing G d0 ms q\<close>] show "wp (dcomplete m d \<bind> f) (dpost G d0 Y)"
    by (simp add: drun_def)
qed

lemma drun_precede [drun_rules]:
  assumes "valid_cm G cm d"
    and "\<And>m d'. rem d' = rem d \<Longrightarrow> dtoken d' = dtoken d \<Longrightarrow> drun G d0 ((m, d) # ms) d' (f (m, d')) Y"
  shows "drun G d0 ms d (dprecede cm k d \<bind> f) Y"
  unfolding drun_def
proof
  assume p: "dparsing G d0 ms d"
  from dprecede_ok [OF dparsing_good [OF p] assms(1), of k] obtain m d' where
    "dprecede cm k d = Some (m, d')" "opened_at G m d d'" "rem d' = rem d" "dtoken d' = dtoken d" by blast
  with assms(2) [of d' m] p show "wp (dprecede cm k d \<bind> f) (dpost G d0 Y)" by (simp add: drun_def)
qed

lemma drun_set_kind [drun_rules]:
  assumes "\<And>d'. rem d' = rem d \<Longrightarrow> dtoken d' = dtoken d \<Longrightarrow> dstate d' = dstate d \<Longrightarrow>
      drun G d0 ((m, q) # ms) d' (f d') Y"
  shows "drun G d0 ((m, q) # ms) d (dset_kind m k d \<bind> f) Y"
  unfolding drun_def
proof
  assume p: "dparsing G d0 ((m, q) # ms) d"
  then have op: "opened_at G m q d" by simp
  from dset_kind_ok [OF op, of k] obtain d' where d': "dset_kind m k d = Some d'" "dsteps G d d'" "rem d' = rem d"
    "dtoken d' = dtoken d" "dstate d' = dstate d" by blast
  with assms [of d'] dparsing_steps [OF p d'(2)] show "wp (dset_kind m k d \<bind> f) (dpost G d0 Y)"
    by (simp add: drun_def del: dparsing.simps)
qed

lemma drun_undo [drun_rules]:
  assumes "\<And>d'. rem d' = rem d \<Longrightarrow> dtoken d' = dtoken d \<Longrightarrow> drun G d0 ms d' (f d') Y"
  shows "drun G d0 ((m, q) # ms) d (dundo m d \<bind> f) Y"
  unfolding drun_def
proof
  assume p: "dparsing G d0 ((m, q) # ms) d"
  then have op: "opened_at G m q d" and pq: "dparsing G d0 ms q" by simp_all
  from dundo_ok [OF op] obtain d' where d': "dundo m d = Some d'" "dsteps G d d'" "rem d' = rem d"
    "dtoken d' = dtoken d" by blast
  have "dsteps G q d'" using op d'(2) by (auto simp: opened_at_def intro: dsteps_trans)
  from assms [of d'] dparsing_steps [OF pq this] d' show "wp (dundo m d \<bind> f) (dpost G d0 Y)"
    by (simp add: drun_def)
qed

section \<open>Calls\<close>

lemma drun_bind_call:
  assumes "drun0 G d m X"
    and "\<And>x d'. X x d' \<Longrightarrow> rem d' \<le> rem d \<Longrightarrow> drun G d0 ms d' (f (DOk x, d')) Y"
    and "\<And>e d'. rem d' \<le> rem d \<Longrightarrow> drun G d0 ms d' (f (DErr e, d')) Y"
  shows "drun G d0 ms d (m \<bind> f) Y"
  unfolding drun_def
proof
  assume p: "dparsing G d0 ms d"
  from assms(1) dparsing_self [OF dparsing_good [OF p]] obtain r d' where
    m: "m = Some (r, d')" and s: "dsteps G d d'" and ok: "\<And>x. r = DOk x \<Longrightarrow> X x d'"
    by (auto simp: drun_def wp_iff dpost_def simp del: dparsing.simps)
  have "rem d' \<le> rem d" using s by (simp add: dsteps_def grows_def)
  with assms(2,3) ok m dparsing_steps [OF p s] show "wp (m \<bind> f) (dpost G d0 Y)"
    by (cases r) (simp_all add: drun_def)
qed

lemma drun_attempt:
  assumes "drun0 G d m X"
    and "\<And>x d'. X x d' \<Longrightarrow> rem d' \<le> rem d \<Longrightarrow> drun G d0 ms d' (f x d') Y"
  shows "drun G d0 ms d (attempt m f) Y"
  unfolding attempt_def by (rule drun_bind_call [OF assms(1)]) (auto intro: assms(2) drun_error)

lemma drun_tail:
  assumes "drun0 G d m X"
    and "\<And>x d'. X x d' \<Longrightarrow> rem d' \<le> rem d \<Longrightarrow> dparsing G d0 ms d' \<Longrightarrow> Y x d'"
  shows "drun G d0 ms d m Y"
  unfolding drun_def
proof
  assume p: "dparsing G d0 ms d"
  from assms(1) dparsing_self [OF dparsing_good [OF p]] obtain r d' where
    m: "m = Some (r, d')" and s: "dsteps G d d'" and ok: "\<And>x. r = DOk x \<Longrightarrow> X x d'"
    by (auto simp: drun_def wp_iff dpost_def simp del: dparsing.simps)
  have "rem d' \<le> rem d" using s by (simp add: dsteps_def grows_def)
  with assms(2) ok m dparsing_steps [OF p s] dparsing_result [of G d0 ms d'] show "wp m (dpost G d0 Y)"
    by (auto simp: dpost_def)
qed

text \<open>A function that returns only the state.\<close>

lemma drun_state:
  assumes "drun0 G d (step m) X"
    and "\<And>d'. X () d' \<Longrightarrow> rem d' \<le> rem d \<Longrightarrow> drun G d0 ms d' (f d') Y"
  shows "drun G d0 ms d (m \<bind> f) Y"
proof -
  have "drun G d0 ms d (attempt (step m) (\<lambda>_ d. f d)) Y" by (rule drun_attempt [OF assms(1)]) (use assms(2) in auto)
  then show ?thesis by (simp add: attempt_step)
qed

definition made :: "doc_group \<Rightarrow> LuaDocParser \<Rightarrow> CompleteMarker \<Rightarrow> LuaDocParser \<Rightarrow> bool" where
  "made G d cm d' \<longleftrightarrow> rem d' < rem d \<and> valid_cm G cm d'"

abbreviation whatever :: "'a \<Rightarrow> LuaDocParser \<Rightarrow> bool" where
  "whatever \<equiv> \<lambda>_ _. True"

abbreviation further :: "LuaDocParser \<Rightarrow> 'a \<Rightarrow> LuaDocParser \<Rightarrow> bool" where
  "further d \<equiv> \<lambda>_ d'. rem d' < rem d"

lemma rem_pos: "dgood G d \<Longrightarrow> dtoken d \<noteq> TkEof \<Longrightarrow> 0 < rem d"
  using rem_eof by auto

end
