(* ===== verification/Doc_Type_Safe.thy ===== *)
theory Doc_Type_Safe
  imports Doc_Run
begin

text \<open>
  The grammar of documentation types returns on every group of comments, whatever the stack
  query answers, given nested calls that do; the knot meets that contract.
\<close>

section \<open>Further rules\<close>

lemma rem_parser_state [simp]: "rem (set_parser_state st d) = rem d" "dtoken (set_parser_state st d) = dtoken d"
  by (simp_all add: set_parser_state_def rem_def)

lemma drun_parser_state: "drun G d0 ms (set_parser_state st d) r Y \<Longrightarrow> drun G d0 ms d r Y"
  using dgood_with_state(2) [of G d st]
  by (auto simp: drun_def intro: dparsing_steps dest: dparsing_good)

lemma drun0_parser_state:
  assumes "drun0 G (set_parser_state st d) r X"
  shows "drun0 G d r X"
proof (rule drun_parser_state, rule drun_tail [OF assms])
qed simp

lemma drun_bump_as [drun_rules]:
  assumes "dtoken d \<noteq> TkEof" "piece_kind k" and "\<And>d'. rem d' < rem d \<Longrightarrow> drun G d0 ms d' (f d') Y"
  shows "drun G d0 ms d (dbump U (d\<lparr>dtoken := k\<rparr>) \<bind> f) Y"
proof (rule drun_plain [where X = "\<lambda>d'. rem d' < rem d"])
  assume good: "dgood G d"
  note s = dgood_token_kind [OF good assms(1,2)]
  then have "dgood G (d\<lparr>dtoken := k\<rparr>)" by (simp add: dsteps_def)
  from dbump_ok [OF this, of U] piece_kindD [OF assms(2)] s show
    "\<exists>d'. dbump U (d\<lparr>dtoken := k\<rparr>) = Some d' \<and> dsteps G d d' \<and> rem d' < rem d"
    by (auto intro: dsteps_trans)
qed (use assms(3) in blast)

lemma drun_let_flag [drun_rules]:
  "(\<And>x. drun G d0 ms d (f x) Y) \<Longrightarrow> drun G d0 ms d (let x = b in f x) Y" for b :: bool
  by (simp add: Let_def)

lemma drun_made:
  assumes "drun0 G d m (made G d)"
    and "\<And>cm d'. rem d' < rem d \<Longrightarrow> valid_cm G cm d' \<Longrightarrow> drun G d0 ms d' (f cm d') Y"
  shows "drun G d0 ms d (attempt m f) Y"
  by (rule drun_attempt [OF assms(1)]) (auto simp: made_def intro: assms(2))

lemma drun_made_tail:
  assumes "drun0 G d m (made G d)"
    and "\<And>cm d'. rem d' < rem d \<Longrightarrow> valid_cm G cm d' \<Longrightarrow> dparsing G d0 ms d' \<Longrightarrow> Y cm d'"
  shows "drun G d0 ms d m Y"
  by (rule drun_tail [OF assms(1)]) (auto simp: made_def intro: assms(2))

lemma drun_further:
  assumes "drun0 G d m (further d)"
    and "\<And>x d'. rem d' < rem d \<Longrightarrow> drun G d0 ms d' (f x d') Y"
  shows "drun G d0 ms d (attempt m f) Y"
  by (rule drun_attempt [OF assms(1)]) (auto intro: assms(2))

lemma drun_further_tail:
  assumes "drun0 G d m (further d)"
    and "\<And>x d'. rem d' < rem d \<Longrightarrow> dparsing G d0 ms d' \<Longrightarrow> Y x d'"
  shows "drun G d0 ms d m Y"
  by (rule drun_tail [OF assms(1)]) (auto intro: assms(2))

lemma drun_any:
  assumes "drun0 G d m whatever"
    and "\<And>x d'. rem d' \<le> rem d \<Longrightarrow> drun G d0 ms d' (f x d') Y"
  shows "drun G d0 ms d (attempt m f) Y"
  by (rule drun_attempt [OF assms(1)]) (auto intro: assms(2))

lemma drun_any_tail:
  assumes "drun0 G d m whatever"
    and "\<And>x d'. rem d' \<le> rem d \<Longrightarrow> dparsing G d0 ms d' \<Longrightarrow> Y x d'"
  shows "drun G d0 ms d m Y"
  by (rule drun_tail [OF assms(1)]) (auto intro: assms(2))

text \<open>The lookahead on a copy of the lexer ends.\<close>

lemma mapped_ahead_ok: "fits G \<Longrightarrow> lex_at G i lx x \<Longrightarrow> \<exists>b. mapped_ahead U lx = Some b"
proof (induction "blen (body G) - blen x" arbitrary: lx x rule: less_induct)
  case less
  show ?case
  proof (cases "doc_is_invalid lx")
    case True
    with less.prems(2) obtain r where "doc_reader lx = Some r" "is_eof r"
      by (auto simp: lex_at_def doc_is_invalid_def)
    then show ?thesis by (subst mapped_ahead.simps) (auto simp: doc_lex_def Let_def)
  next
    case False
    from doc_lex_ok [OF less.prems False, of U] obtain k lx' w where
      lex: "doc_lex U lx = Some (k, lx')" "w \<noteq> []" "lex_at G i lx' (x @ w)" by blast
    from lex_at_body [OF lex(3)] obtain z where "body G = x @ w @ z" by auto
    moreover have "0 < blen w" using lex(2) blen_eq_0 [of w] by linarith
    ultimately have "blen (body G) - blen (x @ w) < blen (body G) - blen x" by simp
    from less.hyps [OF this less.prems(1) lex(3)] lex(1) show ?thesis
      by (subst mapped_ahead.simps) auto
  qed
qed

lemma drun_is_mapped [drun_rules]:
  assumes "\<And>b. drun G d0 ms d (f b) Y"
  shows "drun G d0 ms d (is_mapped_type E d \<bind> f) Y"
proof (rule drun_value [OF _ assms])
  assume good: "dgood G d"
  then have "\<exists>x. lex_at G (origin_token_index d) (dlexer d) x"
    by (auto simp: dgood_def at_end_def holding_def)
  then show "\<exists>b. is_mapped_type E d = Some b"
    using mapped_ahead_ok [OF dgood_fits [OF good]] by (auto simp: is_mapped_type_def)
qed

text \<open>The loops over a separator.\<close>

lemma comma_loop_ok:
  assumes "\<And>d'. rem d' < rem d \<Longrightarrow> drun0 G d' (f d') whatever"
  shows "drun0 G d (comma_loop E f d) whatever"
  using assms
proof (induction "rem d" arbitrary: d rule: less_induct)
  case less
  have again: "drun G d0 ms d' (comma_loop E f d') Y" if "rem d' < rem d"
    "\<And>x d''. rem d'' \<le> rem d' \<Longrightarrow> dparsing G d0 ms d'' \<Longrightarrow> Y x d''" for d0 ms d' Y
    by (rule drun_any_tail [OF less.hyps [OF that(1)]]) (use that less.prems in auto)
  show ?case
  proof (rule drun_good)
    assume good: "dgood G d"
    show "drun0 G d (comma_loop E f d) whatever"
      by (subst comma_loop.simps, simp only: drun_simps)
        ((intro drun_rules drun_any [OF less.prems] again | simp only: drun_simps |
          (use rem_pos [OF good] in \<open>auto; fail\<close>)[1])+)
  qed
qed

lemma drun_complete_state [drun_rules]:
  assumes "\<And>cm d'. rem d' = rem d \<Longrightarrow> dtoken d' = dtoken d \<Longrightarrow> (rem d < rem q \<Longrightarrow> valid_cm G cm d') \<Longrightarrow>
      drun G d0 ms d' (f (cm, d')) Y"
  shows "drun G d0 ((m, q) # ms) d (dcomplete m (set_parser_state st d) \<bind> f) Y"
  by (rule drun_parser_state, rule drun_complete) (use assms in auto)

lemma bump_while_ok:
  assumes "\<not> cont TkEof"
  shows "drun0 G d (step (dbump_while U cont d)) whatever"
proof (induction "rem d" arbitrary: d rule: less_induct)
  case less
  have again: "drun G d0 ms d' (dbump_while U cont d' \<bind> f) Y" if "rem d' < rem d"
    "\<And>d''. rem d'' \<le> rem d' \<Longrightarrow> drun G d0 ms d'' (f d'') Y" for d0 ms d' f Y
    by (rule drun_state [OF less.hyps [OF that(1)]]) (use that in auto)
  show ?case
  proof (rule drun_good)
    assume good: "dgood G d"
    have "cont (dtoken d) \<Longrightarrow> 0 < rem d" using assms rem_pos [OF good] by metis
    then show "drun0 G d (step (dbump_while U cont d)) whatever"
      by (subst dbump_while.simps) ((intro drun_rules again | simp only: drun_simps | (auto; fail)[1])+)
  qed
qed

lemma description_token_eof [simp]: "\<not> description_token TkEof"
  by (simp add: description_token_def)

lemmas bump_while_rules = drun_state [OF bump_while_ok]

lemma description_ok: "drun0 G d (step (parse_description U d)) whatever"
  unfolding parse_description_def
  by ((intro drun_rules bump_while_rules | simp only: drun_simps | (auto; fail)[1])+)

lemmas description_rules [drun_rules] = drun_state [OF description_ok]

section \<open>Types, given the nested calls\<close>

locale doc_env =
  fixes E :: denv and n :: nat and G :: doc_group
  assumes dsub_ok: "2 * rem d < n \<Longrightarrow> drun0 G d (dsub E limit d) (made G d)"
    and dtype_ok: "2 * rem d + 1 < n \<Longrightarrow> drun0 G d (dtype E d) (made G d)"
begin

lemmas nested = drun_made [OF dsub_ok] drun_made [OF dtype_ok] drun_made_tail [OF dsub_ok] drun_made_tail [OF dtype_ok]

lemmas loops = drun_any [OF comma_loop_ok] drun_any_tail [OF comma_loop_ok]

lemma type_list_ok:
  assumes "2 * rem d + 1 < n"
  shows "drun0 G d (parse_type_list E d) (further d)"
  unfolding parse_type_list_def
  by ((intro drun_rules nested loops | simp only: drun_simps | (use assms in \<open>auto; fail\<close>)[1])+)

lemma mapped_key_ok:
  assumes "2 * rem d + 1 < n"
  shows "drun0 G d (parse_mapped_key E d) whatever"
  unfolding parse_mapped_key_def
  by ((intro drun_rules nested loops | simp only: drun_simps | (use assms in \<open>auto; fail\<close>)[1])+)

lemma mapped_marks_ok:
  "drun0 G d (mapped_prefix E d) whatever"
  unfolding mapped_prefix_def
  by ((intro drun_rules nested loops | simp only: drun_simps | (use TrueI in \<open>auto; fail\<close>)[1])+)

lemma mapped_suffix_ok:
  "drun0 G d (mapped_suffix E d) whatever"
  unfolding mapped_suffix_def
  by ((intro drun_rules nested loops | simp only: drun_simps | (use TrueI in \<open>auto; fail\<close>)[1])+)

lemmas mapped_rules = drun_any [OF mapped_key_ok] drun_any [OF drun0_parser_state [OF mapped_marks_ok]]
  drun_any [OF mapped_suffix_ok]

lemma run_mapped_type:
  assumes "2 * rem d + 1 < n" and "rem d < rem q"
    and "\<And>cm d'. rem d' \<le> rem d \<Longrightarrow> valid_cm G cm d' \<Longrightarrow> dparsing G d0 ms d' \<Longrightarrow> Y cm d'"
  shows "drun G d0 ((m, q) # ms) d (parse_mapped_type E m d) Y"
  unfolding parse_mapped_type_def
  by ((intro drun_rules nested loops mapped_rules | simp only: drun_simps | (use assms in \<open>auto; fail\<close>)[1])+)

lemma typed_field_ok:
  assumes "2 * rem d + 1 < n"
  shows "drun0 G d (parse_typed_field E d) whatever"
  unfolding parse_typed_field_def
  by ((intro drun_rules nested loops | simp only: drun_simps | (use assms in \<open>auto; fail\<close>)[1])+)

lemmas field_rules = drun_any [OF typed_field_ok] drun_any_tail [OF typed_field_ok]

lemma field_loop_ok: "2 * rem d \<le> n \<Longrightarrow> drun0 G d (field_loop E d) whatever"
proof (induction "rem d" arbitrary: d rule: less_induct)
  case less
  have again: "drun G d0 ms d' (field_loop E d') Y" if "rem d' < rem d"
    "\<And>x d''. rem d'' \<le> rem d' \<Longrightarrow> dparsing G d0 ms d'' \<Longrightarrow> Y x d''" for d0 ms d' Y
    by (rule drun_any_tail [OF less.hyps [OF that(1)]]) (use that less.prems in auto)
  show ?case
  proof (rule drun_good)
    assume good: "dgood G d"
    show "drun0 G d (field_loop E d) whatever"
      by (subst field_loop.simps)
        ((intro drun_rules field_rules again | simp only: drun_simps |
          (use rem_pos [OF good] less.prems in \<open>auto; fail\<close>)[1])+)
  qed
qed

lemma run_object_fields:
  assumes "2 * rem d + 1 < n" and "rem d < rem q"
    and "\<And>cm d'. rem d' \<le> rem d \<Longrightarrow> valid_cm G cm d' \<Longrightarrow> dparsing G d0 ms d' \<Longrightarrow> Y cm d'"
  shows "drun G d0 ((m, q) # ms) d (object_fields E m d) Y"
  unfolding object_fields_def
  by ((intro drun_rules nested loops field_rules drun_any [OF field_loop_ok] | simp only: drun_simps | (use assms in \<open>auto; fail\<close>)[1])+)

lemma object_type_ok:
  assumes "0 < rem d" and "2 * rem d \<le> n"
  shows "drun0 G d (parse_object_or_mapped_type E d) (made G d)"
  unfolding parse_object_or_mapped_type_def
  by ((intro drun_rules run_mapped_type run_object_fields | simp only: drun_simps |
      (use assms in \<open>auto simp: made_def; fail\<close>)[1])+)

lemma tuple_type_ok:
  assumes "0 < rem d" and "2 * rem d \<le> n"
  shows "drun0 G d (parse_tuple_type E d) (made G d)"
  unfolding parse_tuple_type_def
  by ((intro drun_rules nested loops | simp only: drun_simps | (use assms in \<open>auto simp: made_def; fail\<close>)[1])+)

lemma paren_type_ok:
  assumes "0 < rem d" and "2 * rem d \<le> n"
  shows "drun0 G d (parse_paren_type E d) (made G d)"
  unfolding parse_paren_type_def drun_simps
  by (rule drun_bump, rule nested(2), use assms in simp)
    ((intro drun_if drun_error drun_bump_keep drun_return | simp only: drun_simps | assumption |
      (use assms in \<open>auto simp: made_def; fail\<close>)[1])+)

subsection \<open>Functions\<close>

lemma generic_param_ok:
  assumes "2 * rem d + 1 < n"
  shows "drun0 G d (parse_generic_param E d) whatever"
  unfolding parse_generic_param_def
  by ((intro drun_rules nested loops | simp only: drun_simps |
      (use assms in \<open>auto simp: made_def; fail\<close>)[1])+)

lemmas param_rules = drun_any [OF generic_param_ok] drun_any_tail [OF generic_param_ok]

lemma generic_decl_ok:
  assumes "2 * rem d + 1 < n"
  shows "drun0 G d (parse_generic_decl_list E b d) whatever"
  unfolding parse_generic_decl_list_def
  by ((intro drun_rules nested loops param_rules | simp only: drun_simps |
      (use assms in \<open>auto simp: made_def; fail\<close>)[1])+)

lemma typed_param_ok:
  assumes "2 * rem d + 1 < n"
  shows "drun0 G d (parse_typed_param E d) whatever"
  unfolding parse_typed_param_def
  by ((intro drun_rules nested loops | simp only: drun_simps |
      (use assms in \<open>auto simp: made_def; fail\<close>)[1])+)

lemmas typed_param_rules = drun_any [OF typed_param_ok] drun_any_tail [OF typed_param_ok]

lemma typed_params_ok:
  assumes "2 * rem d + 1 < n"
  shows "drun0 G d (typed_params E d) whatever"
  unfolding typed_params_def
  by ((intro drun_rules nested loops typed_param_rules | simp only: drun_simps |
      (use assms in \<open>auto simp: made_def; fail\<close>)[1])+)

lemma fun_return_ok:
  assumes "2 * rem d + 1 < n"
  shows "drun0 G d (parse_fun_return_type E d) whatever"
  unfolding parse_fun_return_type_def
  by ((intro drun_rules nested loops | simp only: drun_simps |
      (use assms in \<open>auto simp: made_def; fail\<close>)[1])+)

lemmas fun_return_rules = drun_any [OF fun_return_ok] drun_any_tail [OF fun_return_ok]

lemma fun_returns_ok:
  assumes "2 * rem d + 1 < n"
  shows "drun0 G d (parse_fun_return_list E d) whatever"
  unfolding parse_fun_return_list_def
  by ((intro drun_rules nested loops fun_return_rules | simp only: drun_simps |
      (use assms in \<open>auto simp: made_def; fail\<close>)[1])+)

lemmas fun_rules = drun_any [OF generic_decl_ok] drun_any [OF typed_params_ok] drun_any [OF fun_returns_ok]

lemma fun_type_ok:
  assumes "0 < rem d" and "2 * rem d \<le> n"
  shows "drun0 G d (parse_fun_type E d) (made G d)"
  unfolding parse_fun_type_def
  by ((intro drun_rules nested loops fun_rules | simp only: drun_simps |
      (use assms in \<open>auto simp: made_def; fail\<close>)[1])+)

lemma fun_type_any:
  assumes "2 * rem d + 1 < n"
  shows "drun0 G d (parse_fun_type E d) whatever"
  unfolding parse_fun_type_def
  by ((intro drun_rules nested loops fun_rules | simp only: drun_simps |
      (use assms in \<open>auto simp: made_def; fail\<close>)[1])+)

subsection \<open>Primary and suffixed types\<close>

lemma one_token_ok:
  assumes "0 < rem d"
  shows "drun0 G d (one_token E k d) (made G d)"
  unfolding one_token_def
  by ((intro drun_rules nested loops | simp only: drun_simps |
      (use assms in \<open>auto simp: made_def; fail\<close>)[1])+)

lemmas one_token_rules = drun_made_tail [OF one_token_ok]

lemma name_type_ok:
  assumes "0 < rem d" and "2 * rem d \<le> n"
  shows "drun0 G d (parse_name_or_func_type E d) (made G d)"
  unfolding parse_name_or_func_type_def
  by ((intro drun_rules nested loops drun_made_tail [OF fun_type_ok] one_token_rules | simp only: drun_simps |
      (use assms in \<open>auto simp: made_def; fail\<close>)[1])+)

lemma infer_type_ok:
  assumes "dtoken d \<noteq> TkEof"
  shows "drun0 G d (parse_infer_type E d) (made G d)"
  unfolding parse_infer_type_def
  by ((intro drun_rules nested loops | simp only: drun_simps |
      (use assms in \<open>auto simp: made_def; fail\<close>)[1])+)

lemma vararg_type_ok:
  assumes "0 < rem d"
  shows "drun0 G d (parse_vararg_type E d) (made G d)"
  unfolding parse_vararg_type_def
  by ((intro drun_rules nested loops | simp only: drun_simps |
      (use assms in \<open>auto simp: made_def; fail\<close>)[1])+)

lemma constructor_type_ok:
  assumes "0 < rem d" and "2 * rem d \<le> n"
  shows "drun0 G d (parse_constructor_type E d) (made G d)"
  unfolding parse_constructor_type_def Let_def
  by ((intro drun_rules nested loops | simp only: drun_simps |
      (use assms in \<open>auto simp: made_def; fail\<close>)[1])+)

lemmas primary_rules = drun_made_tail [OF object_type_ok] drun_made_tail [OF tuple_type_ok]
  drun_made_tail [OF paren_type_ok] one_token_rules drun_made_tail [OF name_type_ok]
  drun_made_tail [OF infer_type_ok] drun_made_tail [OF vararg_type_ok] drun_made_tail [OF constructor_type_ok]

lemma primary_type_ok:
  assumes "2 * rem d \<le> n"
  shows "drun0 G d (parse_primary_type E d) (made G d)"
proof (rule drun_good)
  assume good: "dgood G d"
  show "drun0 G d (parse_primary_type E d) (made G d)"
    unfolding parse_primary_type_def
    by ((intro drun_fail drun_if drun_if_bind drun_token_text primary_rules | simp only: drun_simps |
        (use assms rem_pos [OF good] in \<open>auto simp: made_def is_literal_start_def; fail\<close>)[1])+)
qed

lemma run_bracket_suffix:
  assumes "0 < rem d" and "rem d = rem q" and "2 * rem d \<le> n"
    and "\<And>cm d'. rem d' < rem d \<Longrightarrow> valid_cm G cm d' \<Longrightarrow> drun G d0 ms d' (f cm d') Y"
  shows "drun G d0 ((m, q) # ms) d (attempt (bracket_suffix E m d) f) Y"
  unfolding bracket_suffix_def
  by ((intro drun_rules nested assms(4) | simp only: drun_simps | (use assms(1-3) in \<open>auto; fail\<close>)[1])+)

lemma suffixed_loop_ok:
  "2 * rem d \<le> n \<Longrightarrow> valid_cm G cm d \<Longrightarrow> drun0 G d (suffixed_loop E b cm d) (valid_cm G)"
proof (induction "rem d" arbitrary: d b cm rule: less_induct)
  case less
  have again: "drun G d0 ms d' (suffixed_loop E b cm d') Y" if "rem d' < rem d" "valid_cm G cm d'"
    "\<And>x d''. valid_cm G x d'' \<Longrightarrow> Y x d''" for d0 ms d' b cm Y
    by (rule drun_tail [OF less.hyps [OF that(1) _ that(2)]]) (use that less.prems in auto)
  show ?case
  proof (rule drun_good)
    assume good: "dgood G d"
    show "drun0 G d (suffixed_loop E b cm d) (valid_cm G)"
      by (subst suffixed_loop.simps)
        ((intro drun_rules run_bracket_suffix drun_further [OF type_list_ok] again | simp only: drun_simps |
          (use rem_pos [OF good] less.prems in \<open>auto; fail\<close>)[1])+)
  qed
qed

lemma simple_type_ok:
  assumes "2 * rem d \<le> n"
  shows "drun0 G d (parse_simple_type E d) (made G d)"
  unfolding parse_simple_type_def parse_suffixed_type_def
  by (rule drun_made [OF primary_type_ok [OF assms]], rule drun_tail [OF suffixed_loop_ok])
    (use assms in \<open>auto simp: made_def\<close>)

subsection \<open>Operators\<close>

lemma binary_operator_eof [simp]: "to_parse_binary_operator TkEof = TypeBinNone"
  by (simp add: to_parse_binary_operator_def)

lemma unary_operator_eof [simp]: "to_type_unary_operator TkEof = TypeUnNone"
  by (simp add: to_type_unary_operator_def)

lemma run_binary_token:
  assumes "0 < rem d" and "\<And>d'. rem d' < rem d \<Longrightarrow> drun G d0 ms d' (f d') Y"
  shows "drun G d0 ms d (binary_token E bop d \<bind> f) Y"
proof (cases "bop = Extends")
  case True
  have "binary_token E bop d \<bind> f = set_lexer_state (uni E) DExtends d \<bind> (\<lambda>d1. dbump (uni E) d1 \<bind>
      (\<lambda>d2. set_lexer_state (uni E) (doc_state (dlexer d)) d2 \<bind> f))"
    by (simp add: binary_token_def True Let_def)
  then show ?thesis
    by (simp only:) (rule drun_lexer_state, rule drun_bump, rule drun_lexer_state, rule assms(2), use assms(1) in auto)
next
  case False
  then show ?thesis
    by (simp add: binary_token_def) (rule drun_bump, rule assms(2), use assms(1) in auto)
qed

lemma drun_reset_state:
  assumes "drun0 G d m X"
  shows "drun0 G d (m \<bind> (\<lambda>(r, d). Some (r, set_parser_state st d))) (\<lambda>x d'. \<exists>d''. X x d'' \<and> rem d'' = rem d')"
proof -
  have "dsteps G d (set_parser_state st d')" if "dsteps G d d'" for d'
    using that dgood_with_state(2) [of G d' st] by (auto simp: dsteps_def intro: grows_trans)
  with assms show ?thesis by (cases m) (auto simp: drun_def dpost_def simp del: dparsing.simps)
qed

lemma binary_operand_ok:
  assumes "2 * rem d < n"
  shows "drun0 G d (binary_operand E bop limit d) (\<lambda>_ d'. rem d' < rem d)"
proof (cases "bop = Extends")
  case True
  have "drun0 G d (dsub E limit (set_parser_state PExtends d)) (made G (set_parser_state PExtends d))"
    by (rule drun0_parser_state, rule dsub_ok) (use assms in simp)
  from drun_reset_state [OF this, of "dstate d"] True show ?thesis
    by (auto simp: binary_operand_def Let_def made_def elim: drun_weaken)
next
  case False
  then show ?thesis
    by (simp add: binary_operand_def) (rule drun_weaken [OF dsub_ok [OF assms]], simp add: made_def)
qed

lemma type_binary_loop_ok:
  "2 * rem d \<le> n \<Longrightarrow> valid_cm G cm d \<Longrightarrow> drun0 G d (type_binary_loop E limit cm d) (valid_cm G)"
proof (induction "rem d" arbitrary: d cm rule: less_induct)
  case less
  have again: "drun G d0 ms d' (type_binary_loop E limit cm d') Y" if "rem d' < rem d" "valid_cm G cm d'"
    "\<And>x d''. valid_cm G x d'' \<Longrightarrow> Y x d''" for d0 ms d' cm Y
    by (rule drun_tail [OF less.hyps [OF that(1) _ that(2)]]) (use that less.prems in auto)
  let ?bop = "to_parse_binary_operator (dtoken d)"
  show ?case
  proof (rule drun_good)
    assume good: "dgood G d"
    show "drun0 G d (type_binary_loop E limit cm d) (valid_cm G)"
    proof (cases "?bop = TypeBinNone")
      case True
      then show ?thesis
        by (subst type_binary_loop.simps) (use less.prems in \<open>simp add: drun_return\<close>)
    next
      case False
      then obtain pr where pr: "type_get_priority ?bop = Some pr" using type_get_priority_total by blast
      have pos: "0 < rem d" using rem_pos [OF good] False by fastforce
      show ?thesis
        by (subst type_binary_loop.simps)
          ((intro drun_rules run_binary_token drun_bind_call [OF binary_operand_ok] again |
            simp only: drun_simps False if_False dres.case pr Let_def [of "to_parse_binary_operator (dtoken d)"]
              Let_def [of "drange d"] |
            (use pos less.prems in \<open>auto; fail\<close>)[1])+)
    qed
  qed
qed

lemma unary_type_ok:
  assumes "0 < rem d" and "2 * rem d \<le> n"
  shows "drun0 G d (parse_unary_type E d) (made G d)"
  unfolding parse_unary_type_def
  by ((intro drun_rules drun_bind_call [OF dsub_ok] | simp only: drun_simps dres.case Let_def [of "drange d"] |
      (use assms in \<open>auto simp: made_def; fail\<close>)[1])+)

lemma sub_type_ok:
  assumes "2 * rem d \<le> n"
  shows "drun0 G d (parse_sub_type E remaining limit d) (made G d)"
proof (rule drun_good)
  assume good: "dgood G d"
  have loop: "drun0 G d (attempt m (\<lambda>cm d. type_binary_loop E limit cm d)) (made G d)"
    if "drun0 G d m (made G d)" for m
    by (rule drun_made [OF that], rule drun_tail [OF type_binary_loop_ok]) (use assms in \<open>auto simp: made_def\<close>)
  have "0 < rem d" if "to_type_unary_operator (dtoken d) \<noteq> TypeUnNone"
    using that rem_pos [OF good] by fastforce
  with loop [OF unary_type_ok] loop [OF simple_type_ok] assms
  show "drun0 G d (parse_sub_type E remaining limit d) (made G d)"
    by (simp add: parse_sub_type_def drun_fail)
qed

subsection \<open>Types\<close>

lemma one_line_type_ok:
  assumes "2 * rem d < n"
  shows "drun0 G d (parse_one_line_type E d) whatever"
  unfolding parse_one_line_type_def
  by ((intro drun_rules nested | simp only: drun_simps | (use assms in \<open>auto; fail\<close>)[1])+)

lemma union_lines_ok: "2 * rem d \<le> n \<Longrightarrow> drun0 G d (union_lines E d) (\<lambda>_ d'. dtoken d = TkDocContinueOr \<longrightarrow> rem d' < rem d)"
proof (induction "rem d" arbitrary: d rule: less_induct)
  case less
  have again: "drun G d0 ms d' (union_lines E d') Y" if "rem d' < rem d"
    "\<And>x d''. rem d'' \<le> rem d' \<Longrightarrow> dparsing G d0 ms d'' \<Longrightarrow> Y x d''" for d0 ms d' Y
    by (rule drun_tail [OF less.hyps [OF that(1)]]) (use that less.prems in auto)
  show ?case
  proof (rule drun_good)
    assume good: "dgood G d"
    show "drun0 G d (union_lines E d) (\<lambda>_ d'. dtoken d = TkDocContinueOr \<longrightarrow> rem d' < rem d)"
      by (subst union_lines.simps)
        ((intro drun_rules drun_any [OF one_line_type_ok] again | simp only: drun_simps |
          (use less.prems rem_pos [OF good] in \<open>auto; fail\<close>)[1])+)
  qed
qed

lemma multi_line_union_ok:
  assumes "dtoken d = TkDocContinueOr" and "2 * rem d \<le> n"
  shows "drun0 G d (parse_multi_line_union_type E d) (made G d)"
  unfolding parse_multi_line_union_type_def
  by ((intro drun_rules drun_attempt [OF union_lines_ok] | simp only: drun_simps |
      (use assms in \<open>auto simp: made_def; fail\<close>)[1])+)

lemma type_loop_ok:
  "2 * rem d \<le> n \<Longrightarrow> valid_cm G cm d \<Longrightarrow> drun0 G d (type_loop E cm d) (valid_cm G)"
proof (induction "rem d" arbitrary: d cm rule: less_induct)
  case less
  have again: "drun G d0 ms d' (type_loop E cm d') Y" if "rem d' < rem d" "valid_cm G cm d'"
    "\<And>x d''. valid_cm G x d'' \<Longrightarrow> Y x d''" for d0 ms d' cm Y
    by (rule drun_tail [OF less.hyps [OF that(1) _ that(2)]]) (use that less.prems in auto)
  show ?case
  proof (rule drun_good)
    assume good: "dgood G d"
    show "drun0 G d (type_loop E cm d) (valid_cm G)"
      by (subst type_loop.simps)
        ((intro drun_rules nested again | simp only: drun_simps |
          (use less.prems rem_pos [OF good] in \<open>auto; fail\<close>)[1])+)
  qed
qed

lemma parse_type_ok:
  assumes "2 * rem d < n"
  shows "drun0 G d (parse_type E d) (made G d)"
proof (cases "dtoken d = TkDocContinueOr")
  case True
  with multi_line_union_ok [OF True] assms show ?thesis by (simp add: parse_type_def)
next
  case False
  then show ?thesis unfolding parse_type_def
    by (simp, intro drun_made [OF dsub_ok] drun_tail [OF type_loop_ok]) (use assms in \<open>auto simp: made_def\<close>)
qed

end

section \<open>The knot\<close>

lemma denv_uni [simp]: "uni (denv_at U rs n) = U"
  by (cases n) simp_all

lemma denv_at_ok: "doc_env (denv_at U rs n) n G"
proof (induction n)
  case 0
  show ?case by unfold_locales simp_all
next
  case (Suc n)
  show ?case
    by unfold_locales (simp_all add: doc_env.sub_type_ok [OF Suc.IH] doc_env.parse_type_ok [OF Suc.IH])
qed

interpretation types: doc_env "denv_at U rs n" n G for U rs n G
  by (rule denv_at_ok)

end
