(* ===== verification/Doc_Tag_Safe.thy ===== *)
theory Doc_Tag_Safe
  imports Doc_Type_Safe
begin

text \<open>
  The tags, the loop over a comment and \<open>LuaDocParser::parse\<close>: on every group of comments the
  documentation parser returns, and its events eat the text of the group in adjacent
  pieces.
\<close>

section \<open>Tags\<close>

context doc_env
begin

lemmas type_rules = drun_made [OF parse_type_ok] drun_made_tail [OF parse_type_ok]
  drun_further [OF type_list_ok] drun_further_tail [OF type_list_ok]
  drun_any [OF comma_loop_ok] drun_any_tail [OF comma_loop_ok]
  drun_any [OF generic_decl_ok] drun_any [OF fun_type_any] drun_any [OF typed_params_ok]

lemma run_open_tag:
  assumes "0 < rem d" and "st \<noteq> DDescription"
    and "\<And>m q d'. rem d' < rem d \<Longrightarrow> drun G d0 ((m, q) # ms) d' (f (m, d')) Y"
  shows "drun G d0 ms d (open_tag E st k d \<bind> f) Y"
  unfolding open_tag_def
  by ((intro drun_rules assms(3) | simp only: drun_simps | (use assms(1,2) in \<open>auto; fail\<close>)[1])+)

lemma run_close_tag:
  assumes "\<And>cm d'. rem d' \<le> rem d \<Longrightarrow> dparsing G d0 ms d' \<Longrightarrow> Y cm d'"
  shows "drun G d0 ((m, q) # ms) d (close_tag E m d) Y"
  unfolding close_tag_def
  by ((intro drun_rules | simp only: drun_simps | (use assms in \<open>auto; fail\<close>)[1])+)

lemmas tag_rules = run_open_tag run_close_tag

lemma type_flag_list_ok:
  "drun0 G d (parse_doc_type_flag E d) whatever"
  unfolding parse_doc_type_flag_def
  by ((intro drun_rules type_rules | simp only: drun_simps |
      (use TrueI in \<open>auto; fail\<close>)[1])+)

lemmas flag_list_rules = drun_any [OF type_flag_list_ok]

lemma modifier_flag_ok:
  "drun0 G d (modifier_flag E d) whatever"
  unfolding modifier_flag_def
  by ((intro drun_rules type_rules flag_list_rules | simp only: drun_simps |
      (use TrueI in \<open>auto; fail\<close>)[1])+)

lemma type_flag_ok:
  "drun0 G d (type_flag E d) whatever"
  unfolding type_flag_def
  by ((intro drun_rules type_rules flag_list_rules | simp only: drun_simps |
      (use TrueI in \<open>auto; fail\<close>)[1])+)

lemma default_call_loop_ok: "drun0 G d (default_call_loop E depth d) whatever"
proof (induction "rem d" arbitrary: d depth rule: less_induct)
  case less
  have again: "drun G d0 ms d' (default_call_loop E depth d') Y" if "rem d' < rem d"
    "\<And>x d''. rem d'' \<le> rem d' \<Longrightarrow> dparsing G d0 ms d'' \<Longrightarrow> Y x d''" for d0 ms d' depth Y
    by (rule drun_any_tail [OF less.hyps [OF that(1)]]) (use that in auto)
  show ?case
  proof (rule drun_good)
    assume good: "dgood G d"
    show "drun0 G d (default_call_loop E depth d) whatever"
      by (subst default_call_loop.simps)
        ((intro drun_rules again | simp only: drun_simps | (use rem_pos [OF good] in \<open>auto; fail\<close>)[1])+)
  qed
qed

lemma default_body_ok:
  "drun0 G d (default_value_body E d) whatever"
  unfolding default_value_body_def parse_doc_default_call_value_def
  by ((intro drun_rules type_rules drun_any_tail [OF default_call_loop_ok] | simp only: drun_simps |
      (use TrueI in \<open>auto; fail\<close>)[1])+)

lemma default_node_ok:
  "drun0 G d (parse_doc_default_value E d) whatever"
  unfolding parse_doc_default_value_def
  by ((intro drun_rules type_rules drun_any [OF default_body_ok] | simp only: drun_simps |
      (use TrueI in \<open>auto; fail\<close>)[1])+)

lemma default_value_ok:
  "drun0 G d (default_value E d) whatever"
  unfolding default_value_def
  by ((intro drun_rules type_rules drun_any [OF default_node_ok] | simp only: drun_simps |
      (use TrueI in \<open>auto; fail\<close>)[1])+)

lemma enum_field_ok:
  "drun0 G d (parse_enum_field E d) whatever"
  unfolding parse_enum_field_def
  by ((intro drun_rules type_rules | simp only: drun_simps |
      (use TrueI in \<open>auto; fail\<close>)[1])+)

lemma enum_lines_ok: "drun0 G d (enum_lines E d) whatever"
proof (induction "rem d" arbitrary: d rule: less_induct)
  case less
  have again: "drun G d0 ms d' (enum_lines E d') Y" if "rem d' < rem d"
    "\<And>x d''. rem d'' \<le> rem d' \<Longrightarrow> dparsing G d0 ms d'' \<Longrightarrow> Y x d''" for d0 ms d' Y
    by (rule drun_any_tail [OF less.hyps [OF that(1)]]) (use that in auto)
  show ?case
  proof (rule drun_good)
    assume good: "dgood G d"
    show "drun0 G d (enum_lines E d) whatever"
      by (subst enum_lines.simps)
        ((intro drun_rules again drun_any [OF enum_field_ok] | simp only: drun_simps | (use rem_pos [OF good] in \<open>auto; fail\<close>)[1])+)
  qed
qed

lemma enum_field_list_ok:
  "drun0 G d (parse_enum_field_list E d) whatever"
  unfolding parse_enum_field_list_def
  by ((intro drun_rules type_rules drun_any [OF enum_lines_ok] | simp only: drun_simps |
      (use TrueI in \<open>auto; fail\<close>)[1])+)

lemma dotted_loop_ok: "drun0 G d (step (dotted_loop E d)) whatever"
proof (induction "rem d" arbitrary: d rule: less_induct)
  case less
  have again: "drun G d0 ms d' (dotted_loop E d' \<bind> f) Y" if "rem d' < rem d"
    "\<And>d''. rem d'' \<le> rem d' \<Longrightarrow> drun G d0 ms d'' (f d'') Y" for d0 ms d' f Y
    by (rule drun_state [OF less.hyps [OF that(1)]]) (use that in auto)
  show ?case
  proof (rule drun_good)
    assume good: "dgood G d"
    show "drun0 G d (step (dotted_loop E d)) whatever"
      by (subst dotted_loop.simps)
        ((intro drun_rules again | simp only: drun_simps | (use rem_pos [OF good] in \<open>auto; fail\<close>)[1])+)
  qed
qed

lemma module_path_ok:
  "drun0 G d (module_path E d) whatever"
  unfolding module_path_def
  by ((intro drun_rules type_rules drun_state [OF dotted_loop_ok] | simp only: drun_simps |
      (use TrueI in \<open>auto; fail\<close>)[1])+)

lemma field_key_ok:
  assumes "2 * rem d < n"
  shows "drun0 G d (field_key E d) whatever"
  unfolding field_key_def
  by ((intro drun_rules type_rules | simp only: drun_simps |
      (use assms in \<open>auto; fail\<close>)[1])+)

lemma return_value_ok:
  assumes "2 * rem d < n"
  shows "drun0 G d (return_value E d) whatever"
  unfolding return_value_def
  by ((intro drun_rules type_rules drun_any [OF default_value_ok] | simp only: drun_simps |
      (use assms in \<open>auto; fail\<close>)[1])+)

lemma op_type_ok:
  assumes "2 * rem d < n"
  shows "drun0 G d (parse_op_type E d) whatever"
  unfolding parse_op_type_def
  by ((intro drun_rules type_rules | simp only: drun_simps |
      (use assms in \<open>auto; fail\<close>)[1])+)

lemma cast_loop_ok: "valid_cm G cm d \<Longrightarrow> drun0 G d (cast_loop E cm d) whatever"
proof (induction "rem d" arbitrary: d cm rule: less_induct)
  case less
  have again: "drun G d0 ms d' (cast_loop E cm d') Y" if "rem d' < rem d" "valid_cm G cm d'"
    "\<And>x d''. rem d'' \<le> rem d' \<Longrightarrow> dparsing G d0 ms d'' \<Longrightarrow> Y x d''" for d0 ms d' cm Y
    by (rule drun_any_tail [OF less.hyps [OF that(1,2)]]) (use that in auto)
  show ?case
  proof (rule drun_good)
    assume good: "dgood G d"
    show "drun0 G d (cast_loop E cm d) whatever"
      by (subst cast_loop.simps)
        ((intro drun_rules again | simp only: drun_simps |
          (use rem_pos [OF good] less.prems in \<open>auto; fail\<close>)[1])+)
  qed
qed

lemma cast_expr_ok:
  assumes "dtoken d \<noteq> TkEof"
  shows "drun0 G d (parse_cast_expr E d) whatever"
proof (rule drun_good)
  assume "dgood G d"
  then have "0 < rem d" using assms by (rule rem_pos)
  show "drun0 G d (parse_cast_expr E d) whatever"
    unfolding parse_cast_expr_def
    by (rule drun_made [OF one_token_ok [OF \<open>0 < rem d\<close>]], rule drun_any_tail [OF cast_loop_ok]) auto
qed

lemma code_list_ok:
  "drun0 G d (parse_diagnostic_code_list E d) whatever"
  unfolding parse_diagnostic_code_list_def
  by ((intro drun_rules type_rules | simp only: drun_simps |
      (use TrueI in \<open>auto; fail\<close>)[1])+)

lemma version_ok:
  "drun0 G d (parse_version E d) whatever"
  unfolding parse_version_def
  by ((intro drun_rules type_rules | simp only: drun_simps |
      (use TrueI in \<open>auto; fail\<close>)[1])+)

lemma path_loop_ok: "drun0 G d (path_loop E d) whatever"
proof (induction "rem d" arbitrary: d rule: less_induct)
  case less
  have again: "drun G d0 ms d' (path_loop E d') Y" if "rem d' < rem d"
    "\<And>x d''. rem d'' \<le> rem d' \<Longrightarrow> dparsing G d0 ms d'' \<Longrightarrow> Y x d''" for d0 ms d' Y
    by (rule drun_any_tail [OF less.hyps [OF that(1)]]) (use that in auto)
  show ?case
  proof (rule drun_good)
    assume good: "dgood G d"
    show "drun0 G d (path_loop E d) whatever"
      by (subst path_loop.simps)
        ((intro drun_rules again | simp only: drun_simps | (use rem_pos [OF good] in \<open>auto; fail\<close>)[1])+)
  qed
qed

lemma type_attribute_ok:
  assumes "2 * rem d + 1 < n"
  shows "drun0 G d (parse_type_attribute E d) whatever"
  unfolding parse_type_attribute_def
  by ((intro drun_rules type_rules | simp only: drun_simps |
      (use assms in \<open>auto; fail\<close>)[1])+)

lemma attribute_arg_ok:
  "drun0 G d (parse_attribute_arg E d) (\<lambda>_ d'. rem d = 0 \<or> rem d' < rem d)"
  unfolding parse_attribute_arg_def
  by ((intro drun_rules type_rules | simp only: drun_simps |
      (use TrueI in \<open>auto; fail\<close>)[1])+)

lemma attribute_args_ok: "drun0 G d (attribute_args E d) whatever"
proof (induction "rem d" arbitrary: d rule: less_induct)
  case less
  have again: "drun G d0 ms d' (attribute_args E d') Y" if "rem d' < rem d"
    "\<And>x d''. rem d'' \<le> rem d' \<Longrightarrow> dparsing G d0 ms d'' \<Longrightarrow> Y x d''" for d0 ms d' Y
    by (rule drun_any_tail [OF less.hyps [OF that(1)]]) (use that in auto)
  show ?case
  proof (rule drun_good)
    assume good: "dgood G d"
    show "drun0 G d (attribute_args E d) whatever"
      by (subst attribute_args.simps)
        ((intro drun_rules again drun_attempt [OF attribute_arg_ok] | simp only: drun_simps |
          (use rem_pos [OF good] in \<open>auto; fail\<close>)[1])+)
  qed
qed

lemma attribute_arg_list_ok:
  "drun0 G d (parse_attribute_arg_list E d) whatever"
  unfolding parse_attribute_arg_list_def
  by ((intro drun_rules drun_any [OF attribute_args_ok] | simp only: drun_simps |
      (use TrueI in \<open>auto; fail\<close>)[1])+)

lemma attribute_use_ok:
  assumes "2 * rem d < n"
  shows "drun0 G d (parse_doc_attribute_use E d) (further d)"
  unfolding parse_doc_attribute_use_def
  by ((intro drun_rules type_rules drun_any [OF attribute_arg_list_ok] | simp only: drun_simps |
      (use assms in \<open>auto; fail\<close>)[1])+)

lemma attribute_uses_ok: "2 * rem d < n \<Longrightarrow> drun0 G d (attribute_uses E d) whatever"
proof (induction "rem d" arbitrary: d rule: less_induct)
  case less
  have again: "drun G d0 ms d' (attribute_uses E d') Y" if "rem d' < rem d"
    "\<And>x d''. rem d'' \<le> rem d' \<Longrightarrow> dparsing G d0 ms d'' \<Longrightarrow> Y x d''" for d0 ms d' Y
    by (rule drun_any_tail [OF less.hyps [OF that(1)]]) (use that less.prems in auto)
  show ?case
    by (subst attribute_uses.simps)
      ((intro drun_rules again drun_further [OF attribute_use_ok] | simp only: drun_simps |
        (use less.prems in \<open>auto; fail\<close>)[1])+)
qed

subsection \<open>Every tag returns\<close>

lemmas helper_rules = flag_list_rules drun_any [OF modifier_flag_ok] drun_any [OF type_flag_ok]
  drun_any [OF default_value_ok] drun_any [OF enum_field_list_ok] drun_any [OF module_path_ok]
  drun_any [OF field_key_ok] drun_any [OF return_value_ok] drun_any [OF op_type_ok]
  drun_any [OF cast_expr_ok] drun_any [OF code_list_ok] drun_any [OF version_ok] drun_any [OF path_loop_ok]
  drun_any [OF type_attribute_ok] drun_any [OF attribute_uses_ok]

lemma parse_type_any: "2 * rem d < n \<Longrightarrow> drun0 G d (parse_type E d) whatever"
  by (rule drun_weaken [OF parse_type_ok]) simp_all

lemma expect_any: "drun0 G d (expect E k d) whatever"
  by ((intro drun_rules | simp only: drun_simps | (use TrueI in \<open>auto; fail\<close>)[1])+)

lemma declaration_tags_ok:
  assumes "0 < rem d" and "2 * rem d \<le> n"
  shows "drun0 G d (parse_tag_simple E k d) whatever"
    and "drun0 G d (parse_tag_class E d) whatever"
    and "drun0 G d (parse_tag_enum E d) whatever"
    and "drun0 G d (parse_tag_alias E d) whatever"
    and "drun0 G d (parse_tag_module E d) whatever"
    and "drun0 G d (parse_tag_field E d) whatever"
    and "drun0 G d (parse_tag_type E d) whatever"
    and "drun0 G d (parse_tag_param E d) whatever"
    and "drun0 G d (parse_tag_return E d) whatever"
  unfolding parse_tag_simple_def parse_tag_class_def parse_tag_enum_def parse_tag_alias_def parse_tag_module_def
    parse_tag_field_def parse_tag_type_def parse_tag_param_def parse_tag_return_def
  by ((intro drun_rules tag_rules type_rules helper_rules | simp only: drun_simps |
      (use assms in \<open>auto intro: parse_type_any return_value_ok; fail\<close>)[1])+)

lemma other_tags_ok:
  assumes "0 < rem d" and "2 * rem d \<le> n"
  shows "drun0 G d (parse_tag_return_cast E d) whatever"
    and "drun0 G d (parse_tag_generic E d) whatever"
    and "drun0 G d (parse_tag_see E d) whatever"
    and "drun0 G d (parse_tag_as E d) whatever"
    and "drun0 G d (parse_tag_overload E d) whatever"
    and "drun0 G d (parse_tag_cast E d) whatever"
    and "drun0 G d (parse_tag_source E d) whatever"
    and "drun0 G d (parse_tag_diagnostic E d) whatever"
    and "drun0 G d (parse_tag_version E d) whatever"
    and "drun0 G d (parse_tag_operator E d) whatever"
  unfolding parse_tag_return_cast_def parse_tag_generic_def parse_tag_see_def parse_tag_as_def
    parse_tag_overload_def parse_tag_cast_def parse_tag_source_def parse_tag_diagnostic_def parse_tag_version_def
    parse_tag_operator_def
  by ((intro drun_rules tag_rules type_rules helper_rules | simp only: drun_simps |
      (use assms in \<open>auto intro: op_type_ok version_ok; fail\<close>)[1])+)

lemma small_tags_ok:
  assumes "0 < rem d" and "2 * rem d \<le> n"
  shows "drun0 G d (parse_tag_mapping E d) whatever"
    and "drun0 G d (parse_tag_namespace E d) whatever"
    and "drun0 G d (parse_tag_using E d) whatever"
    and "drun0 G d (parse_tag_meta E d) whatever"
    and "drun0 G d (parse_tag_realm E d) whatever"
    and "drun0 G d (parse_tag_fileparam E d) whatever"
    and "drun0 G d (parse_tag_outparam E d) whatever"
    and "drun0 G d (parse_tag_export E d) whatever"
    and "drun0 G d (parse_tag_language E d) whatever"
    and "drun0 G d (parse_tag_attribute E d) whatever"
    and "drun0 G d (parse_tag_attribute_use E b d) whatever"
    and "drun0 G d (parse_tag_call_generic E d) whatever"
    and "drun0 G d (parse_tag_schema E d) whatever"
  unfolding parse_tag_mapping_def parse_tag_namespace_def parse_tag_using_def parse_tag_meta_def parse_tag_realm_def
    parse_tag_fileparam_def parse_tag_outparam_def parse_tag_export_def parse_tag_language_def
    parse_tag_attribute_def parse_tag_attribute_use_def parse_tag_call_generic_def parse_tag_schema_def
  by ((intro drun_rules tag_rules type_rules helper_rules | simp only: drun_simps |
      (use assms in \<open>auto; fail\<close>)[1])+)

lemma tag_detail_ok:
  assumes "2 * rem d \<le> n"
  shows "drun0 G d (parse_tag_detail E d) whatever"
proof (rule drun_good)
  assume good: "dgood G d"
  show "drun0 G d (parse_tag_detail E d) whatever"
  proof (cases "dtoken d = TkEof")
    case True
    have "drun0 G d (Some (DOk empty_marker, d)) whatever" by (rule drun_return) simp
    then show ?thesis by (simp add: parse_tag_detail_def True)
  next
    case False
    then have "0 < rem d" by (rule rem_pos [OF good])
    note tags = declaration_tags_ok [OF this assms] other_tags_ok [OF this assms] small_tags_ok [OF this assms]
    show ?thesis unfolding parse_tag_detail_def Let_def
      by (intro drun_if tags drun_return TrueI)
  qed
qed

text \<open>The ends of the nodes that a failed tag left open.\<close>

lemma node_ends_ok:
  assumes "dgood G d0"
  shows "dsteps G d0 d \<Longrightarrow> mark_level (lua_parser d0) + k \<le> mark_level (lua_parser d) \<Longrightarrow>
    \<exists>d'. dpush_node_ends k d = Some d' \<and> dsteps G d0 d'"
proof (induction k arbitrary: d)
  case (Suc k)
  let ?p = "(lua_parser d)\<lparr>events := devents d @ [NodeEnd], mark_level := mark_level (lua_parser d) - 1\<rparr>"
  let ?d = "d\<lparr>lua_parser := ?p\<rparr>"
  have good: "dgood G d" using Suc.prems(1) by (simp add: dsteps_def)
  have "dgood G ?d" "rem ?d = rem d" by (rule dgood_lua [OF good]; force simp: keeps_def devents_def)+
  with Suc.prems have "dsteps G d0 ?d"
    by (auto simp: dsteps_def grows_def devents_def intro: starts_snoc)
  moreover have "dpush_node_end d = Some ?d"
    using Suc.prems(2) by (simp add: dpush_node_end_def push_node_end_def devents_def)
  ultimately show ?case using Suc.IH [of ?d] Suc.prems(2) by simp
qed simp

lemma parse_tag_ok:
  assumes "2 * rem d \<le> n"
  shows "drun0 G d (step (parse_tag E d)) whatever"
  unfolding drun_def
proof
  assume "dparsing G d [] d"
  then have good: "dgood G d" by simp
  from tag_detail_ok [OF assms] good obtain r d' where
    run: "parse_tag_detail E d = Some (r, d')" and s: "dsteps G d d'"
    by (auto simp: drun_def wp_iff dpost_def dsteps_refl)
  show "wp (step (parse_tag E d)) (dpost G d whatever)"
  proof (cases r)
    case (DOk x)
    then show ?thesis using run s by (simp add: parse_tag_def step_def dpost_def)
  next
    case (DErr e)
    let ?d = "dpush_error e d'"
    have "dgood G d'" using s by (simp add: dsteps_def)
    from dsteps_trans [OF s dpush_error_ok(1) [OF this, of e]] have s': "dsteps G d ?d" .
    then have "mark_level (lua_parser d) \<le> mark_level (lua_parser ?d)" by (simp add: dsteps_def grows_def)
    with node_ends_ok [OF good s', of "mark_level (lua_parser ?d) - mark_level (lua_parser d)"]
    show ?thesis using run DErr by (auto simp: parse_tag_def step_def dpost_def Let_def)
  qed
qed

lemmas tag_run = drun_state [OF parse_tag_ok]

section \<open>Comments\<close>

lemma normal_comment_ok:
  assumes "0 < rem d"
  shows "drun0 G d (step (normal_comment E d)) (further d)"
  unfolding normal_comment_def
  by ((intro drun_rules drun_mark [unfolded Let_def] bump_while_rules | simp only: drun_simps | (use assms in \<open>auto; fail\<close>)[1])+)

lemma docs_step_ok:
  assumes "0 < rem d" and "2 * rem d \<le> n"
  shows "drun0 G d (step (docs_step E d)) (further d)"
  unfolding docs_step_def parse_long_tag_def
  by ((intro drun_rules tag_run drun_state [OF normal_comment_ok] | simp only: drun_simps | (use assms in \<open>auto; fail\<close>)[1])+)

lemma stuck_not_eof: "dgood G d \<Longrightarrow> stuck_inside d \<Longrightarrow> dtoken d \<noteq> TkEof"
  using dgood_at_end [of G d] by (auto simp: stuck_inside_def at_end_def doc_is_invalid_def split: option.splits)

lemma after_step_ok:
  assumes "dgood G d"
  shows "\<exists>d'. (if stuck_inside d then bump_to_end U d else set_lexer_state U DInit d) = Some d' \<and> dsteps G d d'"
  using bump_to_end_ok [OF assms stuck_not_eof [OF assms], of U] set_lexer_state_ok [OF assms, of U DInit] by auto

lemma parse_docs_ok:
  assumes "uni E = U"
  shows "dgood G d \<Longrightarrow> 2 * rem d \<le> n \<Longrightarrow> \<exists>d'. parse_docs E d = Some d' \<and> dsteps G d d' \<and> dtoken d' = TkEof"
proof (induction "rem d" arbitrary: d rule: less_induct)
  case less
  show ?case
  proof (cases "dtoken d = TkEof")
    case True
    with less.prems show ?thesis by (subst parse_docs.simps) (simp add: dsteps_refl)
  next
    case False
    then have "0 < rem d" by (rule rem_pos [OF less.prems(1)])
    from docs_step_ok [OF this less.prems(2)] less.prems(1) obtain d1 where
      d1: "docs_step E d = Some d1" "dsteps G d d1" "rem d1 < rem d"
      by (cases "docs_step E d") (auto simp: drun_def dpost_def dsteps_refl step_def)
    then have "dgood G d1" by (simp add: dsteps_def)
    from after_step_ok [OF this] obtain d2 where
      d2: "(if stuck_inside d1 then bump_to_end (uni E) d1 else set_lexer_state (uni E) DInit d1) = Some d2"
      "dsteps G d1 d2" by blast
    then have "rem d2 \<le> rem d1" "dgood G d2" by (simp_all add: dsteps_def grows_def)
    with d1(3) less.hyps [of d2] less.prems(2) obtain d3 where
      d3: "parse_docs E d2 = Some d3" "dsteps G d2 d3" "dtoken d3 = TkEof" by auto
    have "parse_docs E d = Some d3"
      using d1(1) d2(1) d3(1) False by (subst parse_docs.simps) (simp split: if_splits)
    moreover have "dsteps G d d3" by (rule dsteps_trans [OF dsteps_trans [OF d1(2) d2(2)] d3(2)])
    ultimately show ?thesis using d3(3) by blast
  qed
qed

lemma parse_comment_ok:
  assumes "dgood G d" and "2 * rem d \<le> n"
  shows "\<exists>d'. parse_comment E d = Some d' \<and> dsteps G d d' \<and> dtoken d' = TkEof"
proof -
  from dmark_ok [OF assms(1), of Comment] obtain m d1 where
    d1: "dmark Comment d = (m, d1)" "opened_at G m d d1" "rem d1 = rem d" by blast
  then have "dgood G d1" by (simp add: opened_at_def dsteps_def)
  with parse_docs_ok [of "uni E" d1] assms(2) d1(3) obtain d2 where
    d2: "parse_docs E d1 = Some d2" "dsteps G d1 d2" "dtoken d2 = TkEof" by auto
  from dcomplete_ok [OF opened_steps [OF d1(2) d2(2)]] obtain cm d3 where
    "dcomplete m d2 = Some (cm, d3)" "dsteps G d d3" "dtoken d3 = dtoken d2" by blast
  with d1(1) d2 show ?thesis by (simp add: parse_comment_def)
qed

end

section \<open>The documentation parser\<close>

text \<open>The first token of a group is a comment: the parser starts by holding its first piece.\<close>

lemma dinit_ok:
  assumes G: "fits G"
  shows "\<exists>d. dinit U (doc_parser_new (base G) (group_toks G)) = Some d \<and> dgood G d \<and>
    mark_level (base G) \<le> mark_level (lua_parser d)"
proof -
  let ?d = "doc_parser_new (base G) (group_toks G)" and ?t = "group_toks G ! 0" and ?w = "words G ! 0"
  have G0: "words G \<noteq> []" "\<not> is_space_token (kind ?t)" "length (group_toks G) = length (words G)"
    and rng: "token_range ?t = new_range (off G []) (blen ?w)" and w: "?w \<noteq> []"
    using G nth_mem [of 0 "words G"] by (fastforce simp: fits_def)+
  then have w0: "words_to G (Suc 0) = ?w" by (cases "words G") simp_all
  let ?lx = "doc_lexer_new (origin_text (base G))"
  from doc_reset_ok [OF G, of 0 ?lx "[]" ?w "kind ?t"] G0 w w0 obtain lx where
    lx: "doc_reset (kind ?t) (token_range ?t) ?lx = Some lx" "lex_at G 0 lx []" "\<not> doc_is_invalid lx"
    by (auto simp: rng doc_lexer_new_def)
  from doc_lex_ok [OF G lx(2,3), of U] obtain k lx' v where
    lex: "doc_lex U lx = Some (k, lx')" "v \<noteq> []" "piece_kind k" "lex_at G 0 lx' v"
    "doc_token_range lx' = Some (new_range (off G []) (blen v))" by auto
  let ?d1 = "?d\<lparr>dlexer := lx', dtoken := k, drange := new_range (off G []) (blen v)\<rparr>"
  have read: "lex_token U ?d = Some (token_new k (new_range (off G []) (blen v)), ?d\<lparr>dlexer := lx'\<rparr>)"
    using G0 lx(1) lex(1,5) piece_kindD [OF lex(3)]
    by (subst lex_token.simps) (simp add: doc_parser_new_def doc_lexer_new_def doc_is_invalid_def Let_def)
  have "holding G ?d1 [] v"
    using G lex(2-4) by (simp add: holding_def ate_def keeps_def devents_def doc_parser_new_def)
  then have good: "dgood G ?d1" by (auto simp: dgood_def)
  from eat_between_ok [OF this, of "skipped_between (doc_state lx')" U] obtain d where
    d: "eat_between U (skipped_between (doc_state lx')) ?d1 = Some d" "dsteps G ?d1 d" by auto
  have "dinit U ?d = Some d"
    using G0 read d(1) piece_kindD [OF lex(3)]
    by (auto simp: dinit_def dbump_def dis_invalid_kind_def calc_next_current_token_def doc_parser_new_def token_new_def)
  with d(2) show ?thesis by (auto simp: dsteps_def grows_def doc_parser_new_def)
qed

lemma rem_body: "dgood G d \<Longrightarrow> rem d \<le> blen (body G)"
  using rem_holding(1) rem_at_end by (fastforce simp: dgood_def)

theorem doc_parser_ok:
  assumes "fits G" and "2 * blen (body G) \<le> n"
  shows "\<exists>p' new. doc_parser_parse U rs n (group_toks G) (base G) = Some p' \<and> keeps (base G) p' \<and>
    events p' = events (base G) @ new \<and> pieces (off G []) (eaten new) (body G) \<and>
    mark_level (base G) \<le> mark_level p'"
proof -
  from dinit_ok [OF assms(1), of U] obtain d where
    d: "dinit U (doc_parser_new (base G) (group_toks G)) = Some d" "dgood G d"
    "mark_level (base G) \<le> mark_level (lua_parser d)" by blast
  have "2 * rem d \<le> n" using rem_body [OF d(2)] assms(2) by simp
  from types.parse_comment_ok [OF d(2) this, of U rs] obtain d' where
    d': "parse_comment (denv_at U rs n) d = Some d'" "dsteps G d d'" "dtoken d' = TkEof" by blast
  then have "at_end G d'" "mark_level (base G) \<le> mark_level (lua_parser d')"
    using dgood_at_end [of G d'] d(3) by (auto simp: dsteps_def grows_def)
  with d(1) d'(1) show ?thesis
    by (auto simp: at_end_def ate_def doc_parser_parse_def devents_def)
qed

end
