(* ===== verification/Parser_Steps.thy ===== *)
theory Parser_Steps
  imports Parser_Inv
begin

text \<open>
  The primitive steps of the grammar keep the invariant. Proofs about grammar functions use
  the judgement \<open>run p0 ms p m Q\<close>: from the state \<open>p\<close>, reached from \<open>p0\<close> with the markers \<open>ms\<close>
  open, the run \<open>m\<close> returns and its result satisfies \<open>Q\<close>.
\<close>

section \<open>Steps as relations\<close>

lemma token_on_the_right [simp]: "TokenKind n = current_token p \<longleftrightarrow> current_token p = TokenKind n"
  by (rule eq_commute)

lemma not_plain [simp]: "\<not> plain SkNone" "\<not> plain Block"
  by (simp_all add: plain_def)

lemma good_start_ge: "good p \<Longrightarrow> tokens_ok p" "good p \<Longrightarrow> cursor_ok p"
  by (simp_all add: good_def)

lemma eaten_tok_events [simp]: "eaten (map tok_event ts) = map token_pair ts"
  by (induction ts) (simp_all add: tok_event_def token_pair_def)

lemma tok_event_map: "map tok_event ts = map (\<lambda>t. EatToken (kind t) (token_range t)) ts"
  by (simp add: tok_event_def)

lemma take_drop_take: "i \<le> j \<Longrightarrow> take i xs @ drop i (take j xs) = take j xs"
  by (metis append_take_drop_id min.absorb1 take_take)

lemma pbump_good:
  assumes "good p" and "current_token p \<noteq> TkEof"
  shows "\<exists>p'. pbump dp p = Some p' \<and> good p' \<and> runs p p' \<and> left_tokens p' < left_tokens p \<and>
    solid (events p') \<and> errors p' = errors p"
proof -
  let ?i = "token_index p"
  let ?j = "skip_trivia (tokens p) (?i + 1)"
  let ?new = "drop ?i (take ?j (tokens p))"
  let ?p = "p\<lparr>events := events p @ map tok_event ?new, token_index := ?j,
    current_token := (if length (tokens p) \<le> ?j then TkEof else kind (tokens p ! ?j))\<rparr>"
  have i: "?i < length (tokens p)"
    using good_left [OF assms(1)] assms(2) by (auto simp: left_tokens_def)
  note cur = good_current [OF assms(1) i]
  have off: "\<not> enable_emmylua_doc (parse_config p)"
    using assms(1) by (simp add: good_def tokens_ok_def)
  have run: "pbump dp p = Some ?p" by (rule pbump_off [OF off i cur(1,3)])
  have j: "?i < ?j" "?j \<le> length (tokens p)"
    using skip_trivia_le [of "?i + 1" "tokens p"] skip_trivia_bound [of "?i + 1" "tokens p"] i by auto
  have new: "?new = tokens p ! ?i # map ((!) (tokens p)) [Suc ?i ..< ?j]"
    using map_nth_interval [OF j(2), of ?i] upt_Cons [OF j(1)] by simp
  have "tok_event (tokens p ! ?i) = EatToken (current_token p) (token_range (tokens p ! ?i))"
    by (simp add: tok_event_def cur(1))
  moreover have "current_token p \<notin> {TkWhitespace, TkEndOfLine, TkDocContinue}"
    using cur(2,3) by (auto simp: is_trivia_kind_def lexed_kind_def)
  ultimately have "solid (events p @ [tok_event (tokens p ! ?i)])" by simp
  from solid_tokens [OF this, of kind token_range "map ((!) (tokens p)) [Suc ?i ..< ?j]"]
  have solid: "solid (events ?p)"
    unfolding new by (simp add: tok_event_def o_def)
  have "extends p ?p"
    unfolding extends_def tok_event_map by (rule exI [of _ "events p"]) simp
  with solid j(1) have runs: "runs p ?p" by (simp add: runs_def same_input_def)
  have "cursor_ok ?p"
    using j(2) skip_trivia_stop [of "tokens p" "?i + 1"] by (simp add: cursor_ok_def)
  moreover have "wf_events (events ?p)" "clean ?p \<longrightarrow> ends_ok (events ?p)"
    using assms(1) wf_events_tokens [of "events p" kind token_range]
      ends_ok_tokens [of "events p" kind token_range]
    by (auto simp: good_def tok_event_map)
  moreover have "eaten (events ?p) = map token_pair (take ?j (tokens p))"
    using assms(1) take_drop_take [of ?i ?j "tokens p"] j(1)
    by (simp add: good_def flip: map_append)
  ultimately have "good ?p" using assms(1) by (simp add: good_def tokens_ok_def)
  moreover have "left_tokens ?p < left_tokens p" using i j by (simp add: left_tokens_def)
  ultimately show ?thesis using run runs solid by auto
qed

lemma left_same: "tokens p' = tokens p \<Longrightarrow> token_index p' = token_index p \<Longrightarrow> left_tokens p' = left_tokens p"
  by (simp add: left_tokens_def)

lemma mark_fields [simp]:
  "events (snd (mark k p)) = events p @ [NodeStart k 0]"
  "mark_level (snd (mark k p)) = Suc (mark_level p)"
  "tokens (snd (mark k p)) = tokens p" "origin_text (snd (mark k p)) = origin_text p"
  "parse_config (snd (mark k p)) = parse_config p" "token_index (snd (mark k p)) = token_index p"
  "current_token (snd (mark k p)) = current_token p" "errors (snd (mark k p)) = errors p"
  "fst (mark k p) = Marker (length (events p))"
  for p :: LuaParser
  by (simp_all add: mark_def)

lemma mark_good:
  assumes "good p" and "plain k \<or> k = Block" and "k = Block \<Longrightarrow> solid (events p)"
  shows "good (snd (mark k p))"
proof -
  have "wf_events (events p @ [NodeStart k 0])"
    using assms by (intro wf_events_snoc) (auto simp: good_def)
  moreover have "clean p \<longrightarrow> ends_ok (events p @ [NodeStart k 0])"
    using assms(1) by (auto simp: good_def intro: ends_ok_snoc)
  ultimately show ?thesis using assms(1)
    by (simp add: good_def tokens_ok_def cursor_ok_def)
qed

definition valid_marker :: "CompleteMarker \<Rightarrow> LuaParser \<Rightarrow> bool" where
  "valid_marker cm p \<longleftrightarrow> cm_start cm < length (events p) \<and> is_start (events p ! cm_start cm)"

text \<open>The state \<open>p\<close> was reached after the marker \<open>m\<close> of kind \<open>k\<close> was placed in state \<open>q\<close>.\<close>

definition opened :: "Marker \<Rightarrow> LuaSyntaxKind \<Rightarrow> LuaParser \<Rightarrow> LuaParser \<Rightarrow> bool" where
  "opened m k q p \<longleftrightarrow> good q \<and> good p \<and> (plain k \<or> k = Block) \<and> m = Marker (length (events q)) \<and>
     runs (snd (mark k q)) p"

lemma opened_events:
  assumes "opened m k q p"
  obtains a k' r es where "events p = a @ NodeStart k' r # es" and "list_all2 sim (events q) a"
    and "plain k' \<or> k' = Block" and "k' = Block \<longleftrightarrow> k = Block" and "clean p \<Longrightarrow> closed es"
    and "position m = length a"
proof -
  from assms have op: "extends (snd (mark k q)) p" "m = Marker (length (events q))" "plain k \<or> k = Block"
    by (simp_all add: opened_def runs_def)
  from op(1) obtain es1 es2 where es: "events p = es1 @ es2"
    "list_all2 sim (events q @ [NodeStart k 0]) es1" "clean p \<longrightarrow> closed es2"
    unfolding extends_def by auto
  from es(2) obtain a e where a: "es1 = a @ [e]" "list_all2 sim (events q) a" "sim (NodeStart k 0) e"
    by (auto simp: list_all2_append1 list_all2_Cons1)
  from a(3) obtain k' r where e: "e = NodeStart k' r" using sim_start by blast
  with a(3) op(3) have "plain k' \<or> k' = Block" "k' = Block \<longleftrightarrow> k = Block" by auto
  then show ?thesis
    using that [of a k' r es2] es(1,3) a(1,2) e op(2) list_all2_lengthD [OF a(2)] by simp
qed

lemma opened_same: "opened m k q p \<Longrightarrow> tokens p = tokens q \<and> same_input q p \<and> token_index q \<le> token_index p \<and>
    (\<exists>xs. errors p = errors q @ xs) \<and> mark_level q < mark_level p"
  by (auto simp: opened_def runs_def same_input_def)

lemma opened_good: "opened m k q p \<Longrightarrow> good p"
  by (simp add: opened_def)

text \<open>A marker may be abandoned once an error has been reported.\<close>

lemma opened_drop:
  assumes "opened m k q p" and "\<not> clean p" and "solid (events q) \<Longrightarrow> solid (events p)"
  shows "runs q p"
proof -
  have "runs (snd (mark k q)) p" using assms(1) by (simp add: opened_def)
  then obtain es1 es2 where "events p = es1 @ es2" "list_all2 sim (events q @ [NodeStart k 0]) es1"
    by (auto simp: runs_def extends_def)
  then obtain us vs where "events p = us @ vs @ es2" "list_all2 sim (events q) us"
    by (auto simp: list_all2_append1)
  then have "extends q p" unfolding extends_def using assms(2) by blast
  with opened_same [OF assms(1)] assms(3) show ?thesis by (auto simp: runs_def)
qed

lemma eaten_empty: "good p \<Longrightarrow> eaten (events p) = [] \<Longrightarrow> token_index p = 0 \<or> tokens p = []"
  by (auto simp: good_def)

lemma eaten_same_left:
  assumes "good p" "good q" "tokens p = tokens q" "eaten (events p) = eaten (events q)"
  shows "left_tokens p = left_tokens q"
proof -
  from assms have "length (take (token_index p) (tokens q)) = length (take (token_index q) (tokens q))"
    unfolding good_def by (metis length_map)
  with good_bound [OF assms(1)] good_bound [OF assms(2)] assms(3) show ?thesis
    by (simp add: left_tokens_def)
qed

lemma opened_token_eaten:
  assumes "opened m k q p" and "clean p" and "left_tokens p < left_tokens q \<or> solid (events q)"
  shows "eaten (events p) \<noteq> []"
proof -
  note same = opened_same [OF assms(1)]
  have gq: "good q" and gp: "good p" using assms(1) by (simp_all add: opened_def)
  have "0 < token_index p \<and> tokens p \<noteq> []" if "left_tokens p < left_tokens q"
    using that same by (auto simp: left_tokens_def)
  moreover have "0 < token_index p \<and> tokens p \<noteq> []" if "solid (events q)"
  proof -
    have "clean q" using assms(2) same by auto
    with gq have "ends_ok (events q)" by (simp add: good_def)
    from solid_ends_eaten [OF that this] gq have "token_index q \<noteq> 0" "tokens q \<noteq> []"
      by (auto simp: good_def)
    with same show ?thesis by auto
  qed
  ultimately show ?thesis using assms(3) gp by (auto simp: good_def)
qed

lemma complete_good:
  assumes op: "opened m k q p" and side: "clean p \<Longrightarrow> left_tokens p < left_tokens q \<or> solid (events q)"
  shows "\<exists>cm p'. complete m p = Some (cm, p') \<and> good p' \<and> runs q p' \<and>
    token_index p' = token_index p \<and> current_token p' = current_token p \<and> errors p' = errors p \<and>
    (left_tokens p < left_tokens q \<longrightarrow> solid (events p') \<and> (k \<noteq> Block \<longrightarrow> valid_marker cm p')) \<and>
    (length (events p) \<noteq> Suc (length (events q)) \<longrightarrow> solid (events p')) \<and>
    length (events q) < length (events p')"
proof -
  from opened_events [OF op] obtain a k' r es where ev: "events p = a @ NodeStart k' r # es"
    and sims: "list_all2 sim (events q) a" and k': "plain k' \<or> k' = Block" "k' = Block \<longleftrightarrow> k = Block"
    and closed: "clean p \<Longrightarrow> closed es" and pos: "position m = length a" by blast
  note same = opened_same [OF op] and len = list_all2_lengthD [OF sims]
  have gq: "good q" and gp: "good p" using op by (simp_all add: opened_def)
  have start: "start_at (events p) (position m) = Some (k', r)"
    by (simp add: start_at_def ev pos)
  show ?thesis
  proof (cases "es = []")
    case True
    let ?p = "p\<lparr>events := a @ [NodeStart SkNone r]\<rparr>"
    have run: "complete m p = Some (\<lparr>cm_start = 0, cm_kind = SkNone\<rparr>, ?p)"
      by (simp add: complete_def start) (simp add: ev pos True)
    have "wf_events (a @ [NodeStart SkNone r])"
      using gp True by (auto simp: good_def wf_events_def ev intro: links_erase_last blocks_ok_erase_last kinds_ok_erase_last)
    moreover have "clean p \<longrightarrow> ends_ok (a @ [NodeStart SkNone r])"
      using gp True by (auto simp: good_def ev dest: ends_ok_butlast intro: ends_ok_snoc)
    ultimately have good: "good ?p"
      using gp True by (simp add: good_def tokens_ok_def cursor_ok_def ev)
    have "solid (a @ [NodeStart SkNone r]) = solid (events q)"
      by (simp add: solid_snoc skippable_def sims_solid [OF sims])
    moreover have "extends q ?p"
      unfolding extends_def using sims
      by (intro exI [of _ a] exI [of _ "[NodeStart SkNone r]"]) (simp add: closed_def)
    ultimately have "runs q ?p" using same by (auto simp: runs_def same_input_def)
    moreover have "left_tokens p = left_tokens q"
      using same by (intro eaten_same_left [OF gp gq]) (simp_all add: ev True sims_eaten [OF sims])
    ultimately show ?thesis using run good len by (simp add: ev True)
  next
    case False
    let ?p = "p\<lparr>events := events p @ [NodeEnd], mark_level := mark_level p - 1\<rparr>"
    have run: "complete m p = Some (\<lparr>cm_start = position m, cm_kind = k'\<rparr>, ?p)"
      using same False by (simp add: complete_def start push_node_end_def) (simp add: ev pos)
    have "wf_events (events p @ [NodeEnd])"
      using gp by (intro wf_events_snoc) (auto simp: good_def)
    moreover have "clean p \<longrightarrow> ends_ok (events p @ [NodeEnd])"
      using gp opened_token_eaten [OF op _ side] by (auto simp: good_def intro: ends_ok_snoc)
    ultimately have good: "good ?p"
      using gp by (simp add: good_def tokens_ok_def cursor_ok_def)
    have "clean p \<longrightarrow> closed (NodeStart k' r # es @ [NodeEnd])"
      using closed k'(1) closed_bracket [of k'] by (auto simp: plain_def)
    then have "extends q ?p"
      unfolding extends_def using sims
      by (intro exI [of _ a] exI [of _ "NodeStart k' r # es @ [NodeEnd]"]) (simp add: ev)
    then have "runs q ?p" using same by (auto simp: runs_def same_input_def)
    moreover have "k \<noteq> Block \<Longrightarrow> valid_marker \<lparr>cm_start = position m, cm_kind = k'\<rparr> ?p"
      using k' by (simp add: valid_marker_def ev pos is_start_def nth_append)
    moreover have "length (events q) < length (events ?p)" using len by (simp add: ev)
    ultimately show ?thesis using run good by simp
  qed
qed

lemma valid_marker_runs: "valid_marker cm p \<Longrightarrow> runs p p' \<Longrightarrow> valid_marker cm p'"
proof -
  assume v: "valid_marker cm p" and "runs p p'"
  then obtain a b where "events p' = a @ b" and sims: "list_all2 sim (events p) a"
    by (auto simp: runs_def extends_def)
  moreover have "cm_start cm < length a" using v list_all2_lengthD [OF sims] by (simp add: valid_marker_def)
  ultimately show ?thesis
    using v sim_is_start [OF sims_nth [OF sims]] by (simp add: valid_marker_def nth_append)
qed

lemma is_startE:
  assumes "is_start e"
  obtains k q where "e = NodeStart k q" "plain k"
  using assms by (auto simp: is_start_def split: MarkEvent.splits)

lemma precede_good:
  assumes "good p" and "valid_marker cm p" and k: "plain k"
  shows "\<exists>m p'. precede cm k p = Some (m, p') \<and> opened m k p p' \<and>
    token_index p' = token_index p \<and> current_token p' = current_token p \<and> errors p' = errors p"
proof -
  let ?i = "cm_start cm" and ?n = "length (events p)"
  have i: "?i < ?n" "is_start (events p ! ?i)" using assms(2) by (simp_all add: valid_marker_def)
  then obtain c r where at: "events p ! ?i = NodeStart c r" "plain c"
    by (auto elim: is_startE)
  let ?es = "(events p)[?i := NodeStart c ?n] @ [NodeStart k 0, Trivia]"
  let ?p = "(snd (mark k p))\<lparr>events := ?es\<rparr>"
  have sims: "list_all2 sim (events p) ((events p)[?i := NodeStart c ?n])"
    using i at by (intro sims_update) auto
  have run: "precede cm k p = Some (Marker ?n, ?p)"
    using i at by (simp add: precede_def mark_def start_at_def push_event_def nth_append list_update_append)
  have "blocks_ok ((events p)[?i := NodeStart c ?n])"
    using assms(1) sims_blocks_ok [OF sims] by (simp add: good_def wf_events_def)
  moreover have block: "k \<noteq> Block" using k by auto
  ultimately have "blocks_ok ?es"
    using k block blocks_ok_snoc [of "(events p)[?i := NodeStart c ?n]" "NodeStart k 0"]
      blocks_ok_snoc [of "(events p)[?i := NodeStart c ?n] @ [NodeStart k 0]" Trivia] by simp
  moreover have "links ?es"
    using assms(1) i at k by (intro links_precede) (auto simp: good_def wf_events_def)
  moreover have "kinds_ok ?es"
    using assms(1) sims_kinds_ok [OF sims] k by (auto simp: good_def wf_events_def kinds_ok_def)
  moreover have "clean p \<longrightarrow> ends_ok ?es"
    using assms(1) sims_ends_ok [OF sims]
      ends_ok_snoc [of "(events p)[?i := NodeStart c ?n]" "NodeStart k 0"]
      ends_ok_snoc [of "(events p)[?i := NodeStart c ?n] @ [NodeStart k 0]" Trivia]
    by (auto simp: good_def)
  ultimately have "good ?p"
    using assms(1) by (simp add: good_def tokens_ok_def cursor_ok_def wf_events_def sims_eaten [OF sims])
  moreover have "runs (snd (mark k p)) ?p"
  proof -
    have "extends (snd (mark k p)) ?p" unfolding extends_def
      by (intro exI [of _ "(events p)[?i := NodeStart c ?n] @ [NodeStart k 0]"] exI [of _ "[Trivia]"])
        (simp add: closed_def list_all2_appendI [OF sims])
    moreover have "k \<noteq> SkNone" using k by auto
    ultimately show ?thesis by (simp add: runs_def same_input_def)
  qed
  ultimately have "opened (Marker ?n) k p ?p" using assms(1) k by (simp add: opened_def)
  with run show ?thesis by auto
qed

lemma set_kind_good:
  assumes op: "opened m k q p" and k: "k \<noteq> Block" "plain c"
  shows "\<exists>p'. set_kind m c p = Some p' \<and> good p' \<and> runs p p' \<and>
    token_index p' = token_index p \<and> current_token p' = current_token p \<and> errors p' = errors p"
proof -
  from opened_events [OF op] obtain a k' r es where ev: "events p = a @ NodeStart k' r # es"
    and "list_all2 sim (events q) a" and k': "plain k' \<or> k' = Block" "k' = Block \<longleftrightarrow> k = Block"
    and "clean p \<Longrightarrow> closed es" and pos: "position m = length a" by blast
  have gp: "good p" using op by (simp add: opened_def)
  let ?es = "(events p)[length a := NodeStart c r]"
  let ?p = "p\<lparr>events := ?es\<rparr>"
  have at: "length a < length (events p)" "events p ! length a = NodeStart k' r" by (simp_all add: ev)
  have run: "set_kind m c p = Some ?p"
    using at by (simp add: set_kind_def start_at_def pos)
  have sims: "list_all2 sim (events p) ?es" using at k k' by (intro sims_update) auto
  have "links ?es"
    using gp k k' by (intro links_set_kind [OF _ at]) (auto simp: good_def wf_events_def)
  then have "good ?p"
    using gp sims_blocks_ok [OF sims] sims_ends_ok [OF sims] sims_kinds_ok [OF sims]
    by (simp add: good_def tokens_ok_def cursor_ok_def wf_events_def sims_eaten [OF sims])
  moreover have "extends p ?p"
    unfolding extends_def using sims by (intro exI [of _ ?es] exI [of _ "[]"]) simp
  then have "runs p ?p" by (simp add: runs_def same_input_def sims_solid [OF sims])
  ultimately show ?thesis using run by simp
qed

lemma push_node_end_good:
  assumes "good p" and "mark_level p \<noteq> 0" and "\<not> clean p"
  shows "\<exists>p'. push_node_end p = Some p' \<and> good p' \<and> tokens p' = tokens p \<and>
    origin_text p' = origin_text p \<and> parse_config p' = parse_config p \<and> token_index p' = token_index p \<and>
    current_token p' = current_token p \<and> errors p' = errors p \<and> mark_level p' = mark_level p - 1 \<and>
    events p' = events p @ [NodeEnd]"
proof -
  have "wf_events (events p @ [NodeEnd])"
    using assms(1) by (intro wf_events_snoc) (auto simp: good_def)
  with assms show ?thesis
    by (simp add: push_node_end_def good_def tokens_ok_def cursor_ok_def)
qed

lemma report_good:
  assumes "good p"
  shows "report msg rng p = Some (push_error msg rng p)" and "good (push_error msg rng p)"
    and "runs p (push_error msg rng p)" and "\<not> clean (push_error msg rng p)"
proof -
  show "good (push_error msg rng p)"
    using assms by (simp add: push_error_def good_def tokens_ok_def cursor_ok_def)
  have "extends p (push_error msg rng p)" unfolding extends_def
    by (intro exI [of _ "events p"] exI [of _ "[]"]) (simp add: push_error_def)
  then show "runs p (push_error msg rng p)"
    by (simp add: push_error_def runs_def same_input_def)
qed (simp_all add: report_def push_error_def)

section \<open>The run judgement\<close>

type_synonym open_markers = "(Marker \<times> LuaSyntaxKind \<times> LuaParser) list"

fun parsing :: "LuaParser \<Rightarrow> open_markers \<Rightarrow> LuaParser \<Rightarrow> bool" where
  "parsing p0 [] p = (good p \<and> runs p0 p)"
| "parsing p0 ((m, k, q) # ms) p = (parsing p0 ms q \<and> opened m k q p)"

definition run :: "LuaParser \<Rightarrow> open_markers \<Rightarrow> LuaParser \<Rightarrow> 'a option \<Rightarrow> ('a \<Rightarrow> bool) \<Rightarrow> bool" where
  "run p0 ms p m Q \<longleftrightarrow> (parsing p0 ms p \<longrightarrow> wp m Q)"

lemmas run_simps = prod.case res.case Option.bind.simps Option.bind_assoc

named_theorems run_rules \<open>rules of the judgement, one per primitive step and per grammar function\<close>

lemma parsing_good: "parsing p0 ms p \<Longrightarrow> good p"
  by (cases "(p0, ms, p)" rule: parsing.cases) (auto simp: opened_def)

lemma parsing_runs: "parsing p0 ms p \<Longrightarrow> good p' \<Longrightarrow> runs p p' \<Longrightarrow> parsing p0 ms p'"
  by (cases "(p0, ms, p)" rule: parsing.cases) (auto simp: opened_def intro: runs_trans)

text \<open>A run of a grammar function: it starts with no marker of its own open.\<close>

lemma run_start: "good p \<Longrightarrow> run p [] p m Q \<Longrightarrow> wp m Q"
  by (simp add: run_def)

lemma run_weaken: "run p0 ms p m Q \<Longrightarrow> (\<And>x. Q x \<Longrightarrow> Q' x) \<Longrightarrow> run p0 ms p m Q'"
  unfolding run_def by (blast intro: wp_conseq)

lemma run_return [run_rules]: "(parsing p0 ms p \<Longrightarrow> Q x) \<Longrightarrow> run p0 ms p (Some x) Q"
  by (simp add: run_def)

lemma run_if [run_rules]:
  "(b \<Longrightarrow> run p0 ms p m Q) \<Longrightarrow> (\<not> b \<Longrightarrow> run p0 ms p n Q) \<Longrightarrow>
   run p0 ms p (if b then m else n) Q"
  by simp

lemma run_bind:
  assumes "good p \<Longrightarrow> wp m (\<lambda>x. good (st x) \<and> runs p (st x) \<and> X x)"
    and "\<And>x. X x \<Longrightarrow> left_tokens (st x) \<le> left_tokens p \<Longrightarrow> (clean (st x) \<Longrightarrow> clean p) \<Longrightarrow>
      (solid (events p) \<Longrightarrow> solid (events (st x))) \<Longrightarrow> run p0 ms (st x) (f x) Q"
  shows "run p0 ms p (m \<bind> f) Q"
  unfolding run_def
proof
  assume "parsing p0 ms p"
  with parsing_good have "wp m (\<lambda>x. good (st x) \<and> runs p (st x) \<and> X x)" using assms(1) by blast
  moreover have "wp (f x) Q" if "good (st x) \<and> runs p (st x) \<and> X x" for x
    using assms(2) [of x] that parsing_runs [OF \<open>parsing p0 ms p\<close>] runs_clean [of p "st x"]
      runs_solid [of p "st x"] by (simp add: run_def runs_left)
  ultimately show "wp (m \<bind> f) Q" by (auto intro: wp_conseq)
qed

text \<open>
  The same at the end of a function, and for a step whose result is joined from several
  branches.
\<close>

lemma run_tail:
  assumes "good p \<Longrightarrow> wp m (\<lambda>x. good (st x) \<and> runs p (st x) \<and> X x)"
    and "\<And>x. X x \<Longrightarrow> left_tokens (st x) \<le> left_tokens p \<Longrightarrow> (clean (st x) \<Longrightarrow> clean p) \<Longrightarrow>
      (solid (events p) \<Longrightarrow> solid (events (st x))) \<Longrightarrow> parsing p0 ms (st x) \<Longrightarrow> Q x"
  shows "run p0 ms p m Q"
proof -
  have "run p0 ms p (m \<bind> Some) Q"
    by (rule run_bind [OF assms(1)]) (auto intro: run_return assms(2))
  then show ?thesis by simp
qed

lemma run_join:
  assumes "run p [] p m (\<lambda>p'. parsing p [] p' \<and> X p')"
    and "\<And>p'. X p' \<Longrightarrow> left_tokens p' \<le> left_tokens p \<Longrightarrow> (clean p' \<Longrightarrow> clean p) \<Longrightarrow>
      (solid (events p) \<Longrightarrow> solid (events p')) \<Longrightarrow> run p0 ms p' (f p') Q"
  shows "run p0 ms p (m \<bind> f) Q"
  by (rule run_bind [where st = "\<lambda>p. p" and X = X]) (use assms in \<open>auto simp: run_def\<close>)

section \<open>Rules of the primitive steps\<close>

lemma run_bump [run_rules]:
  assumes "current_token p \<noteq> TkEof"
    and "\<And>p'. left_tokens p' < left_tokens p \<Longrightarrow> solid (events p') \<Longrightarrow> errors p' = errors p \<Longrightarrow>
      length (events p) \<le> length (events p') \<Longrightarrow>
      run p0 ms p' (f p') Q"
  shows "run p0 ms p (pbump dp p \<bind> f) Q"
  by (rule run_bind [where st = "\<lambda>p. p" and X = "\<lambda>p'. left_tokens p' < left_tokens p \<and>
        solid (events p') \<and> errors p' = errors p \<and> length (events p) \<le> length (events p')"])
    (use pbump_good [of p dp] assms in \<open>auto simp: wp_iff dest: runs_grow\<close>)

lemma run_bump_tail [run_rules]:
  assumes "current_token p \<noteq> TkEof"
    and "\<And>p'. left_tokens p' < left_tokens p \<Longrightarrow> solid (events p') \<Longrightarrow> errors p' = errors p \<Longrightarrow>
      length (events p) \<le> length (events p') \<Longrightarrow>
      parsing p0 ms p' \<Longrightarrow> Q p'"
  shows "run p0 ms p (pbump dp p) Q"
  using run_bump [of p p0 ms Some Q dp] assms by (simp add: run_return)

lemma run_report [run_rules]:
  assumes "\<And>p'. left_tokens p' = left_tokens p \<Longrightarrow> current_token p' = current_token p \<Longrightarrow>
      token_index p' = token_index p \<Longrightarrow> \<not> clean p' \<Longrightarrow> (solid (events p) \<Longrightarrow> solid (events p')) \<Longrightarrow>
      length (events p) \<le> length (events p') \<Longrightarrow>
      run p0 ms p' (f p') Q"
  shows "run p0 ms p (report msg rng p \<bind> f) Q"
  by (rule run_bind [where st = "\<lambda>p. p" and X = "\<lambda>p'. left_tokens p' = left_tokens p \<and>
        current_token p' = current_token p \<and> token_index p' = token_index p \<and> \<not> clean p' \<and>
        length (events p) \<le> length (events p')"])
    (use report_good [of p msg rng] assms in \<open>auto simp: left_tokens_def push_error_def\<close>)

lemma run_report_tail [run_rules]:
  assumes "\<And>p'. left_tokens p' = left_tokens p \<Longrightarrow> current_token p' = current_token p \<Longrightarrow>
      token_index p' = token_index p \<Longrightarrow> \<not> clean p' \<Longrightarrow> (solid (events p) \<Longrightarrow> solid (events p')) \<Longrightarrow>
      length (events p) \<le> length (events p') \<Longrightarrow>
      parsing p0 ms p' \<Longrightarrow> Q p'"
  shows "run p0 ms p (report msg rng p) Q"
  using run_report [of p p0 ms Some Q msg rng] assms by (simp add: run_return)

lemma run_mark [run_rules]:
  assumes "plain k \<or> k = Block" and "k = Block \<Longrightarrow> solid (events p)"
    and "\<And>m p'. left_tokens p' = left_tokens p \<Longrightarrow> current_token p' = current_token p \<Longrightarrow>
      token_index p' = token_index p \<Longrightarrow> errors p' = errors p \<Longrightarrow>
      length (events p') = Suc (length (events p)) \<Longrightarrow>
      run p0 ((m, k, p) # ms) p' (f (m, p')) Q"
  shows "run p0 ms p (mark_p k p \<bind> f) Q"
proof -
  let ?p = "snd (mark k p)"
  have "opened (fst (mark k p)) k p ?p" if "good p"
    using mark_good [OF that assms(1,2)] that assms(1) by (simp add: opened_def)
  moreover have "run p0 ((fst (mark k p), k, p) # ms) ?p (f (mark k p)) Q"
    using assms(3) [of ?p "fst (mark k p)"]
    by (simp del: mark_fields(9)) (simp add: left_tokens_def)
  ultimately show ?thesis by (auto simp: run_def mark_p_def dest: parsing_good)
qed

lemma run_complete [run_rules]:
  assumes "clean p \<Longrightarrow> left_tokens p < left_tokens q \<or> solid (events q)"
    and "\<And>cm p'. left_tokens p' = left_tokens p \<Longrightarrow> current_token p' = current_token p \<Longrightarrow>
      token_index p' = token_index p \<Longrightarrow> errors p' = errors p \<Longrightarrow>
      (left_tokens p < left_tokens q \<Longrightarrow> solid (events p')) \<Longrightarrow>
      (left_tokens p < left_tokens q \<Longrightarrow> k \<noteq> Block \<Longrightarrow> valid_marker cm p') \<Longrightarrow>
      (solid (events q) \<Longrightarrow> solid (events p')) \<Longrightarrow>
      (length (events p) \<noteq> Suc (length (events q)) \<Longrightarrow> solid (events p')) \<Longrightarrow>
      length (events q) < length (events p') \<Longrightarrow> run p0 ms p' (f (cm, p')) Q"
  shows "run p0 ((m, k, q) # ms) p (complete m p \<bind> f) Q"
  unfolding run_def
proof
  assume "parsing p0 ((m, k, q) # ms) p"
  then have ps: "parsing p0 ms q" and op: "opened m k q p" by simp_all
  from complete_good [OF op assms(1)] obtain cm p' where c: "complete m p = Some (cm, p')" "good p'"
    "runs q p'" "token_index p' = token_index p" "current_token p' = current_token p"
    "errors p' = errors p" "left_tokens p < left_tokens q \<longrightarrow> solid (events p') \<and> (k \<noteq> Block \<longrightarrow> valid_marker cm p')"
    "length (events p) \<noteq> Suc (length (events q)) \<longrightarrow> solid (events p')"
    "length (events q) < length (events p')" by blast
  moreover have "left_tokens p' = left_tokens p"
    using opened_same [OF op] runs_tokens [OF c(3)] c(4) by (simp add: left_tokens_def)
  ultimately show "wp (complete m p \<bind> f) Q"
    using assms(2) [of p' cm] parsing_runs [OF ps c(2,3)] runs_solid [OF c(3)]
    by (simp add: run_def)
qed

lemma run_complete_tail [run_rules]:
  assumes "clean p \<Longrightarrow> left_tokens p < left_tokens q \<or> solid (events q)"
    and "\<And>cm p'. left_tokens p' = left_tokens p \<Longrightarrow> current_token p' = current_token p \<Longrightarrow>
      token_index p' = token_index p \<Longrightarrow> errors p' = errors p \<Longrightarrow>
      (left_tokens p < left_tokens q \<Longrightarrow> solid (events p')) \<Longrightarrow>
      (left_tokens p < left_tokens q \<Longrightarrow> k \<noteq> Block \<Longrightarrow> valid_marker cm p') \<Longrightarrow>
      (solid (events q) \<Longrightarrow> solid (events p')) \<Longrightarrow>
      (length (events p) \<noteq> Suc (length (events q)) \<Longrightarrow> solid (events p')) \<Longrightarrow>
      length (events q) < length (events p') \<Longrightarrow> parsing p0 ms p' \<Longrightarrow> Q (cm, p')"
  shows "run p0 ((m, k, q) # ms) p (complete m p) Q"
  using run_complete [of p q k p0 ms Some Q m] assms by (simp add: run_return)

lemma run_precede [run_rules]:
  assumes "valid_marker cm p" and "plain k"
    and "\<And>m p'. left_tokens p' = left_tokens p \<Longrightarrow> current_token p' = current_token p \<Longrightarrow>
      token_index p' = token_index p \<Longrightarrow> errors p' = errors p \<Longrightarrow>
      run p0 ((m, k, p) # ms) p' (f (m, p')) Q"
  shows "run p0 ms p (precede cm k p \<bind> f) Q"
  unfolding run_def
proof
  assume ps: "parsing p0 ms p"
  from precede_good [OF parsing_good [OF ps] assms(1,2)] obtain m p' where
    pr: "precede cm k p = Some (m, p')" and op: "opened m k p p'" and
    eq: "token_index p' = token_index p" "current_token p' = current_token p" "errors p' = errors p"
    by blast
  moreover have "left_tokens p' = left_tokens p"
    using opened_same [OF op] eq by (simp add: left_tokens_def)
  ultimately show "wp (precede cm k p \<bind> f) Q"
    using assms(3) [of p' m] ps by (simp add: run_def)
qed

lemma run_set_kind [run_rules]:
  assumes "k \<noteq> Block" "plain c"
    and "\<And>p'. left_tokens p' = left_tokens p \<Longrightarrow> current_token p' = current_token p \<Longrightarrow>
      token_index p' = token_index p \<Longrightarrow> errors p' = errors p \<Longrightarrow>
      (solid (events p) \<Longrightarrow> solid (events p')) \<Longrightarrow> peek_next_token p' = peek_next_token p \<Longrightarrow>
      run p0 ((m, k, q) # ms) p' (f p') Q"
  shows "run p0 ((m, k, q) # ms) p (set_kind m c p \<bind> f) Q"
  unfolding run_def
proof
  assume ps: "parsing p0 ((m, k, q) # ms) p"
  then have op: "opened m k q p" by simp
  from set_kind_good [OF op assms(1,2)] obtain p' where sk: "set_kind m c p = Some p'" "good p'"
    "runs p p'" and eq: "token_index p' = token_index p" "current_token p' = current_token p"
    "errors p' = errors p" by blast
  moreover have "left_tokens p' = left_tokens p" "peek_next_token p' = peek_next_token p"
    using runs_tokens [OF sk(3)] eq by (simp_all add: left_tokens_def peek_next_token_def Let_def)
  ultimately show "wp (set_kind m c p \<bind> f) Q"
    using assms(3) [of p'] parsing_runs [OF ps sk(2,3)] runs_solid [OF sk(3)]
    by (simp add: run_def del: parsing.simps)
qed

lemma run_set_kind_tail [run_rules]:
  assumes "k \<noteq> Block" "plain c"
    and "\<And>p'. left_tokens p' = left_tokens p \<Longrightarrow> current_token p' = current_token p \<Longrightarrow>
      token_index p' = token_index p \<Longrightarrow> errors p' = errors p \<Longrightarrow>
      (solid (events p) \<Longrightarrow> solid (events p')) \<Longrightarrow> peek_next_token p' = peek_next_token p \<Longrightarrow>
      parsing p0 ((m, k, q) # ms) p' \<Longrightarrow> Q p'"
  shows "run p0 ((m, k, q) # ms) p (set_kind m c p) Q"
  using run_set_kind [of k c p p0 m q ms Some Q] assms by (simp add: run_return del: parsing.simps)

lemma run_token_text [run_rules]:
  assumes "current_token p \<noteq> TkEof" and "\<And>x. run p0 ms p (f x) Q"
  shows "run p0 ms p (current_token_text p \<bind> f) Q"
  unfolding run_def
proof
  assume ps: "parsing p0 ms p"
  have g: "good p" by (rule parsing_good [OF ps])
  have "token_index p < length (tokens p)"
    using good_left [OF g] assms(1) good_bound [OF g] by (auto simp: left_tokens_def)
  moreover from this have "token_text (origin_text p) (tokens p ! token_index p) \<noteq> None"
    using g nth_mem unfolding good_def tokens_ok_def by blast
  ultimately show "wp (current_token_text p \<bind> f) Q"
    using assms(2) ps by (auto simp: current_token_text_def run_def)
qed

section \<open>Branches\<close>

text \<open>
  A branch whose result is a state is joined before the run goes on; a branch with a result
  beside the state is followed on each side.
\<close>

definition onward :: "LuaParser \<Rightarrow> LuaParser \<Rightarrow> bool" where
  "onward p p' \<longleftrightarrow> left_tokens p' \<le> left_tokens p \<and> (clean p' \<longrightarrow> clean p) \<and>
     (solid (events p) \<longrightarrow> solid (events p'))"

lemma run_join_open:
  assumes "run p0 ms p m (\<lambda>p'. parsing p0 ms p' \<and> onward p p')"
    and "\<And>p'. left_tokens p' \<le> left_tokens p \<Longrightarrow> (clean p' \<Longrightarrow> clean p) \<Longrightarrow>
      (solid (events p) \<Longrightarrow> solid (events p')) \<Longrightarrow> run p0 ms p' (f p') Q"
  shows "run p0 ms p (m \<bind> f) Q"
  using assms unfolding run_def onward_def by (cases m) simp_all

lemma run_if_advance:
  assumes "b \<Longrightarrow> run p0 ms p m (\<lambda>p'. parsing p0 ms p' \<and> onward p p' \<and> (clean p' \<longrightarrow> left_tokens p' < left_tokens p))"
    and "\<not> b \<Longrightarrow> run p0 ms p n (\<lambda>p'. parsing p0 ms p' \<and> onward p p' \<and> (clean p' \<longrightarrow> left_tokens p' < left_tokens p))"
    and "\<And>p'. left_tokens p' \<le> left_tokens p \<Longrightarrow> (clean p' \<Longrightarrow> clean p) \<Longrightarrow>
      (clean p' \<Longrightarrow> left_tokens p' < left_tokens p) \<Longrightarrow>
      (solid (events p) \<Longrightarrow> solid (events p')) \<Longrightarrow> run p0 ms p' (f p') Q"
  shows "run p0 ms p ((if b then m else n) \<bind> f) Q"
proof -
  have "run p0 ms p (if b then m else n)
      (\<lambda>p'. parsing p0 ms p' \<and> onward p p' \<and> (clean p' \<longrightarrow> left_tokens p' < left_tokens p))"
    using assms(1,2) by simp
  then show ?thesis using assms(3) unfolding run_def onward_def
    by (cases "if b then m else n") simp_all
qed

lemma run_if_join [run_rules]:
  assumes "b \<Longrightarrow> run p0 ms p m (\<lambda>p'. parsing p0 ms p' \<and> onward p p')"
    and "\<not> b \<Longrightarrow> run p0 ms p n (\<lambda>p'. parsing p0 ms p' \<and> onward p p')"
    and "\<And>p'. left_tokens p' \<le> left_tokens p \<Longrightarrow> (clean p' \<Longrightarrow> clean p) \<Longrightarrow>
      (solid (events p) \<Longrightarrow> solid (events p')) \<Longrightarrow> run p0 ms p' (f p') Q"
  shows "run p0 ms p ((if b then m else n) \<bind> f) Q"
  by (rule run_join_open) (use assms in auto)

lemma run_case_join [run_rules]:
  assumes "\<And>x. r = Ok x \<Longrightarrow> run p0 ms p (m x) (\<lambda>p'. parsing p0 ms p' \<and> onward p p')"
    and "\<And>e. r = Err e \<Longrightarrow> run p0 ms p (n e) (\<lambda>p'. parsing p0 ms p' \<and> onward p p')"
    and "\<And>p'. left_tokens p' \<le> left_tokens p \<Longrightarrow> (clean p' \<Longrightarrow> clean p) \<Longrightarrow>
      (solid (events p) \<Longrightarrow> solid (events p')) \<Longrightarrow> run p0 ms p' (f p') Q"
  shows "run p0 ms p ((case r of Ok x \<Rightarrow> m x | Err e \<Rightarrow> n e) \<bind> f) Q"
  by (rule run_join_open) (use assms in \<open>auto split: res.splits\<close>)

lemma onward_refl [simp]: "onward p p"
  by (simp add: onward_def)

lemma run_case_join_here:
  assumes "\<And>x. r = Ok x \<Longrightarrow> run p [] p (m x) (parsing p [])"
    and "\<And>e. r = Err e \<Longrightarrow> run p [] p (n e) (parsing p [])"
    and "\<And>p'. left_tokens p' \<le> left_tokens p \<Longrightarrow> (clean p' \<Longrightarrow> clean p) \<Longrightarrow>
      (solid (events p) \<Longrightarrow> solid (events p')) \<Longrightarrow> length (events p) \<le> length (events p') \<Longrightarrow>
      run p0 ms p' (f p') Q"
  shows "run p0 ms p ((case r of Ok x \<Rightarrow> m x | Err e \<Rightarrow> n e) \<bind> f) Q"
proof (rule run_join [where X = "\<lambda>p'. length (events p) \<le> length (events p')"])
  have "run p [] p (case r of Ok x \<Rightarrow> m x | Err e \<Rightarrow> n e) (parsing p [])"
    using assms(1,2) by (cases r) simp_all
  then show "run p [] p (case r of Ok x \<Rightarrow> m x | Err e \<Rightarrow> n e)
      (\<lambda>p'. parsing p [] p' \<and> length (events p) \<le> length (events p'))"
    by (rule run_weaken) (auto dest: runs_grow)
qed (rule assms(3))

lemma run_if_pair [run_rules]:
  "(b \<Longrightarrow> run p0 ms p (m \<bind> f) Q) \<Longrightarrow> (\<not> b \<Longrightarrow> run p0 ms p (n \<bind> f) Q) \<Longrightarrow>
   run p0 ms p ((if b then m else n) \<bind> f) Q" for f :: "'a \<times> LuaParser \<Rightarrow> 'b option"
  by simp

lemma run_case [run_rules]:
  assumes "\<And>x. r = Ok x \<Longrightarrow> run p0 ms p (m x) Q" and "\<And>e. r = Err e \<Longrightarrow> run p0 ms p (n e) Q"
  shows "run p0 ms p (case r of Ok x \<Rightarrow> m x | Err e \<Rightarrow> n e) Q"
  using assms by (cases r) simp_all

lemma plain_discr [simp]:
  "plain (SyntaxKind d) \<longleftrightarrow> SyntaxKind d \<notin> {SkNone, Block, Chunk, Comment, TypeMultiLineUnion, DocDescription}"
  by (simp add: plain_def)

end
