(* ===== verification/Grammar_Expr.thy ===== *)
theory Grammar_Expr
  imports Grammar_Base
begin

text \<open>
  \<open>crates/glua_parser/src/grammar/lua/expr.rs\<close>: expressions. Loops are \<open>partial_function\<close>s into
  the option type: a loop that never ended would be \<open>None\<close>, like a panic.
\<close>

section \<open>Operators\<close>

definition parse_expr :: "env \<Rightarrow> LuaParser \<Rightarrow> (ParseResult \<times> LuaParser) option" where
  "parse_expr E p = sub_expr E 0 p"

section \<open>Function parameters and bodies\<close>

definition parse_param_name ::
  "env \<Rightarrow> bool \<Rightarrow> LuaParser \<Rightarrow> (ParseResult \<times> bool \<times> LuaParser) option" where
  "parse_param_name E is_vararg p = do {
     (m, p) \<leftarrow> mark_p ParamName p;
     if current_token p = TkName then do {
       p \<leftarrow> bump_p E p;
       (cm, p) \<leftarrow> complete m p;
       Some (Ok cm, is_vararg, p)
     }
     else if current_token p = TkDots then do {
       p \<leftarrow> bump_p E p;
       p \<leftarrow> (if support_named_var_args (parse_config p) \<and> current_token p = TkName
            then bump_p E p else Some p);
       (cm, p) \<leftarrow> complete m p;
       Some (Ok cm, True, p)
     }
     else do {
       p \<leftarrow> report (''expected parameter name or '' @ quoted ''...'' @ '' (vararg)'')
              (current_token_range p) p;
       (_, p) \<leftarrow> complete m p;
       Some (Err UnexpectedToken, is_vararg, p)
     }
   }"

definition param_recovery_stop :: "LuaTokenKind \<Rightarrow> bool" where
  "param_recovery_stop k \<longleftrightarrow>
     k \<in> set [TkComma, TkRightParen, TkEof, TkEnd] \<or> is_statement_start_token k"

text \<open>The loop over the parameters; the flags are \<open>is_vararg\<close> and \<open>reported_trailing_after_vararg\<close>.\<close>

partial_function (option) param_loop :: "env \<Rightarrow> bool \<Rightarrow> bool \<Rightarrow> LuaParser \<Rightarrow> LuaParser option" where
  "param_loop E is_vararg reported p = do {
     (r, is_vararg, p) \<leftarrow> parse_param_name E is_vararg p;
     p \<leftarrow> (case r of
           Ok _ \<Rightarrow> Some p
         | Err _ \<Rightarrow> do {
             p \<leftarrow> report ''expected parameter name'' (current_token_range p) p;
             bump_until E param_recovery_stop p
           });
     if current_token p = TkComma then do {
       p \<leftarrow> bump_p E p;
       if current_token p = TkRightParen then
         report (''expected parameter name after '' @ quoted '','') (current_token_range p) p
       else if is_vararg \<and> \<not> reported then do {
         p \<leftarrow> report (''vararg '' @ quoted ''...'' @ '' must be the last parameter'')
                (current_token_range p) p;
         param_loop E is_vararg True p
       }
       else param_loop E is_vararg reported p
     }
     else Some p
   }"

declare param_loop.simps [code]

definition parse_param_list :: "env \<Rightarrow> LuaParser \<Rightarrow> (ParseResult \<times> LuaParser) option" where
  "parse_param_list E p = do {
     (m, p) \<leftarrow> mark_p ParamList p;
     p \<leftarrow> (if current_token p = TkLeftParen then bump_p E p
          else report (''expected '' @ quoted ''('' @ '' to start parameter list'')
                 (current_token_range p) p);
     p \<leftarrow> (if current_token p \<noteq> TkRightParen then param_loop E False False p else Some p);
     p \<leftarrow> (if current_token p = TkRightParen then bump_p E p
          else report (''expected '' @ quoted '')'' @ '' to close parameter list'')
                 (current_token_range p) p);
     (cm, p) \<leftarrow> complete m p;
     Some (Ok cm, p)
   }"

definition parse_closure_expr :: "env \<Rightarrow> LuaParser \<Rightarrow> (ParseResult \<times> LuaParser) option" where
  "parse_closure_expr E p = do {
     (m, p) \<leftarrow> mark_p ClosureExpr p;
     let start_range = current_token_range p;
     (_, p) \<leftarrow> if_token_bump E TkFunction p;
     (r, p) \<leftarrow> parse_param_list E p;
     case r of
       Err e \<Rightarrow> Some (Err e, p)
     | Ok _ \<Rightarrow> do {
         (r, p) \<leftarrow> (if current_token p \<noteq> TkEnd then block E p else Some (Ok empty_marker, p));
         case r of
           Err e \<Rightarrow> Some (Err e, p)
         | Ok _ \<Rightarrow> do {
             p \<leftarrow> (if current_token p = TkEnd then bump_p E p
                  else report (''expected '' @ quoted ''end'' @ '' to close function definition'')
                         start_range p);
             (cm, p) \<leftarrow> complete m p;
             Some (Ok cm, p)
           }
       }
   }"

section \<open>Table constructors\<close>

definition field_recovery_stop :: "LuaTokenKind \<Rightarrow> bool" where
  "field_recovery_stop k \<longleftrightarrow>
     k \<in> set [TkRightBracket, TkAssign, TkComma, TkSemicolon, TkRightBrace, TkEof]"

definition table_boundary :: "LuaTokenKind \<Rightarrow> bool" where
  "table_boundary k \<longleftrightarrow> k \<in> set [TkComma, TkSemicolon, TkRightBrace, TkEof]"

definition recover_to_table_boundary :: "env \<Rightarrow> LuaParser \<Rightarrow> LuaParser option" where
  "recover_to_table_boundary E p = bump_until E table_boundary p"

text \<open>\<open>match parse_expr(p) { Ok(_) => {} Err(_) => { p.push_error(...) } }\<close> at the current token.\<close>

definition expr_or_report :: "env \<Rightarrow> string \<Rightarrow> LuaParser \<Rightarrow> LuaParser option" where
  "expr_or_report E msg p = do {
     (r, p) \<leftarrow> parse_expr E p;
     case r of
       Ok _ \<Rightarrow> Some p
     | Err _ \<Rightarrow> report msg (current_token_range p) p
   }"

definition bracket_field :: "env \<Rightarrow> LuaParser \<Rightarrow> LuaParser option" where
  "bracket_field E p = do {
     p \<leftarrow> bump_p E p;
     (r, p) \<leftarrow> parse_expr E p;
     p \<leftarrow> (case r of
           Ok _ \<Rightarrow> Some p
         | Err _ \<Rightarrow> do {
             p \<leftarrow> report ''expected expression inside table index brackets''
                    (current_token_range p) p;
             bump_until E field_recovery_stop p
           });
     p \<leftarrow> (if current_token p = TkRightBracket then bump_p E p
          else report (''expected '' @ quoted '']'' @ '' to close table index'')
                 (current_token_range p) p);
     p \<leftarrow> (if current_token p = TkAssign then bump_p E p
          else report (''expected '' @ quoted ''='' @ '' after table index'')
                 (current_token_range p) p);
     expr_or_report E (''expected value expression after '' @ quoted ''='') p
   }"

definition parse_field_with_recovery :: "env \<Rightarrow> LuaParser \<Rightarrow> (ParseResult \<times> LuaParser) option" where
  "parse_field_with_recovery E p = do {
     (m, p) \<leftarrow> mark_p TableFieldValue p;
     p \<leftarrow> (if current_token p = TkLeftBracket then do {
             p \<leftarrow> set_kind m TableFieldAssign p;
             bracket_field E p
           }
           else if current_token p = TkName then
             (if peek_next_token p = TkAssign then do {
                p \<leftarrow> set_kind m TableFieldAssign p;
                p \<leftarrow> bump_p E p;
                p \<leftarrow> bump_p E p;
                expr_or_report E ''expected value expression after field name'' p
              }
              else expr_or_report E ''invalid table field expression'' p)
           else if current_token p = TkEof \<or> current_token p = TkLocal then
             report ''unexpected end of table field'' (current_token_range p) p
           else
             expr_or_report E
               ''invalid table field, expected expression, field assignment, or table end'' p);
     (cm, p) \<leftarrow> complete m p;
     Some (Ok cm, p)
   }"

text \<open>The fields after the first one.\<close>

partial_function (option) table_loop :: "env \<Rightarrow> Marker \<Rightarrow> LuaParser \<Rightarrow> LuaParser option" where
  "table_loop E m p =
     (if current_token p = TkComma \<or> current_token p = TkSemicolon then do {
        let separator_token = current_token p;
        p \<leftarrow> bump_p E p;
        if current_token p = TkRightBrace then Some p
        else do {
          (r, p) \<leftarrow> parse_field_with_recovery E p;
          case r of
            Ok cm \<Rightarrow> do {
              p \<leftarrow> (if cm_kind cm = TableFieldAssign then set_kind m TableObjectExpr p else Some p);
              table_loop E m p
            }
          | Err _ \<Rightarrow> do {
              p \<leftarrow> report (''invalid table field after '' @ quoted (token_kind_display separator_token))
                     (current_token_range p) p;
              p \<leftarrow> recover_to_table_boundary E p;
              if current_token p = TkRightBrace then Some p else table_loop E m p
            }
        }
      }
      else Some p)"

declare table_loop.simps [code]

text \<open>
  The search for a closing brace when one is missing; \<open>brace_count\<close> is an \<open>i32\<close> that starts
  at 1. The result says whether the brace was found.
\<close>

partial_function (option) find_brace :: "env \<Rightarrow> int \<Rightarrow> LuaParser \<Rightarrow> (bool \<times> LuaParser) option" where
  "find_brace E brace_count p =
     (if current_token p = TkEof then Some (False, p)
      else if current_token p = TkRightBrace then
        (if brace_count - 1 = 0 then do { p \<leftarrow> bump_p E p; Some (True, p) }
         else do { p \<leftarrow> bump_p E p; find_brace E (brace_count - 1) p })
      else if current_token p = TkLeftBrace then do {
        p \<leftarrow> bump_p E p; find_brace E (brace_count + 1) p }
      else if current_token p \<in> set [TkEnd, TkElse, TkElseIf, TkUntil, TkThen, TkDo]
      then Some (False, p)
      else do { p \<leftarrow> bump_p E p; find_brace E brace_count p })"

declare find_brace.simps [code]

definition close_table :: "env \<Rightarrow> LuaParser \<Rightarrow> LuaParser option" where
  "close_table E p =
     (if current_token p = TkRightBrace then bump_p E p
      else do {
        p \<leftarrow> report (''expected '' @ quoted ''}'' @ '' to close table constructor'')
               (current_token_range p) p;
        (found_brace, p) \<leftarrow> find_brace E 1 p;
        if \<not> found_brace
        then report ''table constructor was not properly closed'' (current_token_range p) p
        else Some p
      })"

definition parse_table_expr :: "env \<Rightarrow> LuaParser \<Rightarrow> (ParseResult \<times> LuaParser) option" where
  "parse_table_expr E p = do {
     (m, p) \<leftarrow> mark_p TableEmptyExpr p;
     p \<leftarrow> bump_p E p;
     if current_token p = TkRightBrace then do {
       p \<leftarrow> bump_p E p;
       (cm, p) \<leftarrow> complete m p;
       Some (Ok cm, p)
     }
     else do {
       (r, p) \<leftarrow> parse_field_with_recovery E p;
       p \<leftarrow> (case r of
             Ok cm \<Rightarrow>
               if cm_kind cm = TableFieldAssign then set_kind m TableObjectExpr p
               else if cm_kind cm = TableFieldValue then set_kind m TableArrayExpr p
               else Some p
           | Err _ \<Rightarrow> recover_to_table_boundary E p);
       p \<leftarrow> table_loop E m p;
       p \<leftarrow> close_table E p;
       (cm, p) \<leftarrow> complete m p;
       Some (Ok cm, p)
     }
   }"

section \<open>Suffixed expressions\<close>

definition call_start :: "LuaTokenKind \<Rightarrow> bool" where
  "call_start k \<longleftrightarrow> k \<in> set [TkLeftParen, TkLongString, TkString, TkLeftBrace]"

definition arg_recovery_stop :: "LuaTokenKind \<Rightarrow> bool" where
  "arg_recovery_stop k \<longleftrightarrow> k \<in> set [TkComma, TkRightParen, TkEof] \<or> is_statement_start_token k"

partial_function (option) arg_loop :: "env \<Rightarrow> LuaParser \<Rightarrow> LuaParser option" where
  "arg_loop E p = do {
     (r, p) \<leftarrow> parse_expr E p;
     case r of
       Err _ \<Rightarrow> do {
         p \<leftarrow> report ''expected argument expression'' (current_token_range p) p;
         p \<leftarrow> bump_until E arg_recovery_stop p;
         if current_token p = TkComma then do { p \<leftarrow> bump_p E p; arg_loop E p }
         else Some p
       }
     | Ok _ \<Rightarrow>
         if current_token p = TkComma then do {
           p \<leftarrow> bump_p E p;
           if current_token p = TkRightParen then
             report (''expected expression after '' @ quoted '','') (current_token_range p) p
           else arg_loop E p
         }
         else Some p
   }"

declare arg_loop.simps [code]

definition parse_args :: "env \<Rightarrow> LuaParser \<Rightarrow> (ParseResult \<times> LuaParser) option" where
  "parse_args E p = do {
     (m, p) \<leftarrow> mark_p CallArgList p;
     if current_token p = TkLeftParen then do {
       p \<leftarrow> bump_p E p;
       p \<leftarrow> (if current_token p \<noteq> TkRightParen then arg_loop E p else Some p);
       p \<leftarrow> (if current_token p = TkRightParen then bump_p E p
            else report (''expected '' @ quoted '')'' @ '' to close argument list'')
                   (current_token_range p) p);
       (cm, p) \<leftarrow> complete m p;
       Some (Ok cm, p)
     }
     else if current_token p = TkLeftBrace then do {
       (r, p) \<leftarrow> parse_table_expr E p;
       case r of
         Ok _ \<Rightarrow> do { (cm, p) \<leftarrow> complete m p; Some (Ok cm, p) }
       | Err e \<Rightarrow> do {
           p \<leftarrow> report ''invalid table constructor in function call'' (current_token_range p) p;
           (_, p) \<leftarrow> complete m p;
           Some (Err e, p)
         }
     }
     else if current_token p = TkString \<or> current_token p = TkLongString then do {
       (m1, p) \<leftarrow> mark_p LiteralExpr p;
       p \<leftarrow> bump_p E p;
       (_, p) \<leftarrow> complete m1 p;
       (cm, p) \<leftarrow> complete m p;
       Some (Ok cm, p)
     }
     else do {
       p \<leftarrow> report (''expected '' @ quoted ''('' @ '', string, or table constructor for function call'')
              (current_token_range p) p;
       (_, p) \<leftarrow> complete m p;
       Some (Err UnexpectedToken, p)
     }
   }"

definition parse_index_struct :: "env \<Rightarrow> LuaParser \<Rightarrow> (unit res \<times> LuaParser) option" where
  "parse_index_struct E p = do {
     let index_op_range = current_token_range p;
     if current_token p = TkLeftBracket then do {
       p \<leftarrow> bump_p E p;
       (r, p) \<leftarrow> parse_expr E p;
       case r of
         Err e \<Rightarrow> do {
           p \<leftarrow> report ''expected expression inside table index brackets'' index_op_range p;
           Some (Err e, p)
         }
       | Ok _ \<Rightarrow> do {
           (r, p) \<leftarrow> expect_token E TkRightBracket p;
           case r of
             Err e \<Rightarrow> do {
               p \<leftarrow> report (''expected '' @ quoted '']'' @ '' to close table index'') index_op_range p;
               Some (Err e, p)
             }
           | Ok _ \<Rightarrow> Some (Ok (), p)
         }
     }
     else if current_token p = TkDot then do {
       p \<leftarrow> bump_p E p;
       (r, p) \<leftarrow> expect_token E TkName p;
       case r of
         Err e \<Rightarrow> do {
           p \<leftarrow> report (''expected field name after '' @ quoted ''.'') index_op_range p;
           Some (Err e, p)
         }
       | Ok _ \<Rightarrow> Some (Ok (), p)
     }
     else if current_token p = TkColon then do {
       p \<leftarrow> bump_p E p;
       let name_token_range = current_token_range p;
       (r, p) \<leftarrow> expect_token E TkName p;
       case r of
         Err e \<Rightarrow> do {
           p \<leftarrow> report (''expected method name after '' @ quoted '':'') index_op_range p;
           Some (Err e, p)
         }
       | Ok _ \<Rightarrow>
           if \<not> call_start (current_token p) then do {
             p \<leftarrow> report (''colon accessor must be followed by a function call or table ''
                      @ ''constructor or string literal'') name_token_range p;
             Some (Err UnexpectedToken, p)
           }
           else Some (Ok (), p)
     }
     else do {
       p \<leftarrow> report ''expect index struct'' (current_token_range p) p;
       Some (Err UnexpectedToken, p)
     }
   }"

definition special_call_kind :: "SpecialFunction \<Rightarrow> LuaSyntaxKind" where
  "special_call_kind f = (case f of
      SpRequire \<Rightarrow> RequireCallExpr | SpAssert \<Rightarrow> AssertCallExpr | SpError \<Rightarrow> ErrorCallExpr
    | SpType \<Rightarrow> TypeCallExpr | SpSetmetaatable \<Rightarrow> SetmetatableCallExpr | SpNone \<Rightarrow> SkNone)"

definition parse_name_or_special_function ::
  "env \<Rightarrow> LuaParser \<Rightarrow> (ParseResult \<times> LuaParser) option" where
  "parse_name_or_special_function E p = do {
     (m, p) \<leftarrow> mark_p NameExpr p;
     name \<leftarrow> current_token_text p;
     let special_kind = special_call_kind (get_special_function (parse_config p) name);
     p \<leftarrow> bump_p E p;
     (cm, p) \<leftarrow> complete m p;
     if special_kind = SkNone then Some (Ok cm, p)
     else if call_start (current_token p) then do {
       (m1, p) \<leftarrow> precede cm special_kind p;
       (r, p) \<leftarrow> parse_args E p;
       (cm, p) \<leftarrow> complete m1 p;
       Some (case r of Err e \<Rightarrow> Err e | Ok _ \<Rightarrow> Ok cm, p)
     }
     else Some (Ok cm, p)
   }"

text \<open>The loop over the suffixes of a primary expression.\<close>

partial_function (option) suffix_loop ::
  "env \<Rightarrow> CompleteMarker \<Rightarrow> LuaParser \<Rightarrow> (ParseResult \<times> LuaParser) option" where
  "suffix_loop E cm p =
     (if current_token p \<in> set [TkDot, TkColon, TkLeftBracket] then do {
        (m, p) \<leftarrow> precede cm IndexExpr p;
        (r, p) \<leftarrow> parse_index_struct E p;
        (cm, p) \<leftarrow> complete m p;
        case r of Err e \<Rightarrow> Some (Err e, p) | Ok _ \<Rightarrow> suffix_loop E cm p
      }
      else if call_start (current_token p) then do {
        (m, p) \<leftarrow> precede cm CallExpr p;
        (r, p) \<leftarrow> parse_args E p;
        (cm, p) \<leftarrow> complete m p;
        case r of Err e \<Rightarrow> Some (Err e, p) | Ok _ \<Rightarrow> suffix_loop E cm p
      }
      else Some (Ok cm, p))"

declare suffix_loop.simps [code]

definition parse_paren_expr :: "env \<Rightarrow> LuaParser \<Rightarrow> (ParseResult \<times> LuaParser) option" where
  "parse_paren_expr E p = do {
     (m, p) \<leftarrow> mark_p ParenExpr p;
     let paren_range = current_token_range p;
     p \<leftarrow> bump_p E p;
     (r, p) \<leftarrow> parse_expr E p;
     case r of
       Err e \<Rightarrow> do {
         p \<leftarrow> report ''expected expression inside parentheses'' paren_range p;
         (_, p) \<leftarrow> complete m p;
         Some (Err e, p)
       }
     | Ok _ \<Rightarrow> do {
         p \<leftarrow> (if current_token p = TkRightParen then bump_p E p
              else report (''expected '' @ quoted '')'' @ '' to close parentheses'') paren_range p);
         (cm, p) \<leftarrow> complete m p;
         Some (Ok cm, p)
       }
   }"

definition parse_suffixed_expr :: "env \<Rightarrow> LuaParser \<Rightarrow> (ParseResult \<times> LuaParser) option" where
  "parse_suffixed_expr E p = do {
     (r, p) \<leftarrow> (if current_token p = TkName then parse_name_or_special_function E p
               else if current_token p = TkLeftParen then parse_paren_expr E p
               else do {
                 p \<leftarrow> report (''expect primary expression (identifier or ''
                          @ ''parenthesized expression)'') (current_token_range p) p;
                 Some (Err UnexpectedToken, p)
               });
     case r of Err e \<Rightarrow> Some (Err e, p) | Ok cm \<Rightarrow> suffix_loop E cm p
   }"

section \<open>Simple expressions and operators\<close>

definition literal_start :: "LuaTokenKind \<Rightarrow> bool" where
  "literal_start k \<longleftrightarrow>
     k \<in> set [TkInt, TkFloat, TkComplex, TkNil, TkTrue, TkFalse, TkDots, TkString, TkLongString]"

definition simple_expr_error :: "LuaTokenKind \<Rightarrow> string" where
  "simple_expr_error k =
     (if k = TkEof then ''unexpected end of file, expected expression''
      else if k = TkRightParen then ''unexpected '' @ quoted '')'' @ '', expected expression''
      else if k = TkRightBrace then ''unexpected '' @ quoted ''}'' @ '', expected expression''
      else if k = TkRightBracket then ''unexpected '' @ quoted '']'' @ '', expected expression''
      else if k = TkComma then ''unexpected '' @ quoted '','' @ '', expected expression''
      else if k = TkSemicolon then ''unexpected '' @ quoted '';'' @ '', expected expression''
      else if k = TkEnd then ''unexpected '' @ quoted ''end'' @ '', expected expression''
      else if k = TkElse then ''unexpected '' @ quoted ''else'' @ '', expected expression''
      else if k = TkElseIf then ''unexpected '' @ quoted ''elseif'' @ '', expected expression''
      else if k = TkThen then ''unexpected '' @ quoted ''then'' @ '', expected expression''
      else if k = TkDo then ''unexpected '' @ quoted ''do'' @ '', expected expression''
      else if k = TkUntil then ''unexpected '' @ quoted ''until'' @ '', expected expression''
      else ''unexpected token '' @ quoted (token_kind_display k) @ '', expected expression'')"

definition parse_simple_expr :: "env \<Rightarrow> LuaParser \<Rightarrow> (ParseResult \<times> LuaParser) option" where
  "parse_simple_expr E p =
     (if literal_start (current_token p) then do {
        (m, p) \<leftarrow> mark_p LiteralExpr p;
        p \<leftarrow> bump_p E p;
        (cm, p) \<leftarrow> complete m p;
        Some (Ok cm, p)
      }
      else if current_token p = TkLeftBrace then parse_table_expr E p
      else if current_token p = TkFunction then parse_closure_expr E p
      else if current_token p = TkName \<or> current_token p = TkLeftParen then parse_suffixed_expr E p
      else do {
        p \<leftarrow> report (simple_expr_error (current_token p)) (current_token_range p) p;
        Some (Err UnexpectedToken, p)
      })"

definition parse_unary_expr :: "env \<Rightarrow> LuaParser \<Rightarrow> (ParseResult \<times> LuaParser) option" where
  "parse_unary_expr E p = do {
     (m, p) \<leftarrow> mark_p UnaryExpr p;
     let op_range = current_token_range p;
     let op_token = current_token p;
     p \<leftarrow> bump_p E p;
     (r, p) \<leftarrow> sub_expr E UNARY_PRIORITY p;
     p \<leftarrow> (case r of
           Ok _ \<Rightarrow> Some p
         | Err _ \<Rightarrow> report (''unary operator '' @ quoted (token_kind_display op_token)
                      @ '' is not followed by an expression'') op_range p);
     (cm, p) \<leftarrow> complete m p;
     Some (Ok cm, p)
   }"

text \<open>The loop over the binary operators that bind tighter than \<open>limit\<close>.\<close>

partial_function (option) binary_loop ::
  "env \<Rightarrow> int \<Rightarrow> CompleteMarker \<Rightarrow> LuaParser \<Rightarrow> (ParseResult \<times> LuaParser) option" where
  "binary_loop E limit cm p =
     (let bop = to_binary_operator (current_token p) in
      if bop = BinNop then Some (Ok cm, p)
      else do {
        priority \<leftarrow> get_priority bop;
        if left priority > limit then do {
          let op_range = current_token_range p;
          let op_token = current_token p;
          (m, p) \<leftarrow> precede cm BinaryExpr p;
          p \<leftarrow> bump_p E p;
          (r, p) \<leftarrow> sub_expr E (right priority) p;
          case r of
            Err e \<Rightarrow> do {
              p \<leftarrow> report (''binary operator '' @ quoted (token_kind_display op_token)
                       @ '' is not followed by an expression'') op_range p;
              (_, p) \<leftarrow> complete m p;
              Some (Err e, p)
            }
          | Ok _ \<Rightarrow> do { (cm, p) \<leftarrow> complete m p; binary_loop E limit cm p }
        }
        else Some (Ok cm, p)
      })"

declare binary_loop.simps [code]

text \<open>\<open>remaining\<close> is what \<open>stacker::remaining_stack()\<close> answers at this call.\<close>

definition parse_sub_expr ::
  "env \<Rightarrow> nat option \<Rightarrow> int \<Rightarrow> LuaParser \<Rightarrow> (ParseResult \<times> LuaParser) option" where
  "parse_sub_expr E remaining limit p =
     (if parser_stack_exhausted remaining then do {
        p \<leftarrow> report ''expression is too deeply nested'' (current_token_range p) p;
        Some (Err UnexpectedToken, p)
      }
      else do {
        (r, p) \<leftarrow> (if to_unary_operator (current_token p) \<noteq> UnNop then parse_unary_expr E p
                  else parse_simple_expr E p);
        case r of Err e \<Rightarrow> Some (Err e, p) | Ok cm \<Rightarrow> binary_loop E limit cm p
      })"

end
