(* ===== verification/Expr_Safe.thy ===== *)
theory Expr_Safe
  imports Parser_Steps Grammar_Expr
begin

text \<open>
  Expressions keep the parser's invariant, consume input when they succeed and report an
  error when they fail. The locale \<open>grammar_env\<close> is the contract of the two recursive entry
  points at nesting budget \<open>n\<close>; the lemmas inside it are proved once and used for every
  nesting level. An expression nests again only after a token has been consumed, a block may
  start an expression at once: a budget of twice the number of tokens left is always enough.
\<close>

section \<open>Contracts\<close>

text \<open>An expression: success consumes a token and gives a node that can be wrapped, failure is reported.\<close>

fun expr_post :: "LuaParser \<Rightarrow> ParseResult \<times> LuaParser \<Rightarrow> bool" where
  "expr_post p (Ok cm, p') = (good p' \<and> runs p p' \<and> left_tokens p' < left_tokens p \<and> valid_marker cm p')"
| "expr_post p (Err e, p') = (good p' \<and> runs p p' \<and> \<not> clean p')"

text \<open>A block, or an operation that may succeed without consuming.\<close>

fun block_post :: "LuaParser \<Rightarrow> 'a res \<times> LuaParser \<Rightarrow> bool" where
  "block_post p (Ok _, p') = (good p' \<and> runs p p')"
| "block_post p (Err e, p') = (good p' \<and> runs p p' \<and> \<not> clean p')"

text \<open>A node that is complete, and consumes input unless an error was reported.\<close>

fun node_post :: "LuaParser \<Rightarrow> 'a res \<times> LuaParser \<Rightarrow> bool" where
  "node_post p (Ok _, p') = (good p' \<and> runs p p' \<and> (clean p' \<longrightarrow> left_tokens p' < left_tokens p))"
| "node_post p (Err e, p') = (good p' \<and> runs p p' \<and> \<not> clean p')"

definition stays :: "LuaParser \<Rightarrow> LuaParser \<Rightarrow> bool" where
  "stays p p' \<longleftrightarrow> good p' \<and> runs p p'"

definition advances :: "LuaParser \<Rightarrow> LuaParser \<Rightarrow> bool" where
  "advances p p' \<longleftrightarrow> good p' \<and> runs p p' \<and> (clean p' \<longrightarrow> left_tokens p' < left_tokens p)"

lemma expr_post_iff:
  "expr_post p x \<longleftrightarrow> good (snd x) \<and> runs p (snd x) \<and>
     (case fst x of Ok cm \<Rightarrow> left_tokens (snd x) < left_tokens p \<and> valid_marker cm (snd x)
      | Err _ \<Rightarrow> \<not> clean (snd x))"
  by (cases "(p, x)" rule: expr_post.cases) simp_all

lemma block_post_iff:
  "block_post p x \<longleftrightarrow> good (snd x) \<and> runs p (snd x) \<and>
     (case fst x of Ok _ \<Rightarrow> True | Err _ \<Rightarrow> \<not> clean (snd x))"
  by (cases "(p, x)" rule: block_post.cases) simp_all

lemma node_post_iff:
  "node_post p x \<longleftrightarrow> good (snd x) \<and> runs p (snd x) \<and>
     (case fst x of Ok _ \<Rightarrow> clean (snd x) \<longrightarrow> left_tokens (snd x) < left_tokens p
      | Err _ \<Rightarrow> \<not> clean (snd x))"
  by (cases "(p, x)" rule: node_post.cases) simp_all

text \<open>How a caller uses the contracts: as a step followed by \<open>f\<close>, and as its last step.\<close>

lemma run_expr_bind:
  assumes "good p \<Longrightarrow> wp m (expr_post p)"
    and "\<And>cm p'. left_tokens p' < left_tokens p \<Longrightarrow> (clean p' \<Longrightarrow> clean p) \<Longrightarrow>
      (solid (events p) \<Longrightarrow> solid (events p')) \<Longrightarrow> valid_marker cm p' \<Longrightarrow> run p0 ms p' (f (Ok cm, p')) Q"
    and "\<And>e p'. left_tokens p' \<le> left_tokens p \<Longrightarrow> \<not> clean p' \<Longrightarrow>
      (solid (events p) \<Longrightarrow> solid (events p')) \<Longrightarrow> run p0 ms p' (f (Err e, p')) Q"
  shows "run p0 ms p (m \<bind> f) Q"
proof (rule run_bind [where st = snd and X = "\<lambda>x. case fst x of
        Ok cm \<Rightarrow> left_tokens (snd x) < left_tokens p \<and> valid_marker cm (snd x) | Err _ \<Rightarrow> \<not> clean (snd x)"])
  show "wp m (\<lambda>x. good (snd x) \<and> runs p (snd x) \<and> (case fst x of Ok cm \<Rightarrow> left_tokens (snd x) < left_tokens p \<and> valid_marker cm (snd x) | Err _ \<Rightarrow> \<not> clean (snd x)))" if "good p"
    using assms(1) [OF that] by (simp only: expr_post_iff [abs_def])
qed (auto split: res.splits intro!: assms(2,3))

lemma run_block_bind:
  assumes "good p \<Longrightarrow> wp m (block_post p)"
    and "\<And>r p'. left_tokens p' \<le> left_tokens p \<Longrightarrow> (clean p' \<Longrightarrow> clean p) \<Longrightarrow>
      (solid (events p) \<Longrightarrow> solid (events p')) \<Longrightarrow> run p0 ms p' (f (Ok r, p')) Q"
    and "\<And>e p'. left_tokens p' \<le> left_tokens p \<Longrightarrow> \<not> clean p' \<Longrightarrow>
      (solid (events p) \<Longrightarrow> solid (events p')) \<Longrightarrow> run p0 ms p' (f (Err e, p')) Q"
  shows "run p0 ms p (m \<bind> f) Q"
proof (rule run_bind [where st = snd and X = "\<lambda>x. case fst x of Ok _ \<Rightarrow> True | Err _ \<Rightarrow> \<not> clean (snd x)"])
  show "wp m (\<lambda>x. good (snd x) \<and> runs p (snd x) \<and> (case fst x of Ok _ \<Rightarrow> True | Err _ \<Rightarrow> \<not> clean (snd x)))" if "good p"
    using assms(1) [OF that] by (simp only: block_post_iff [abs_def])
qed (auto split: res.splits intro!: assms(2,3))

lemma run_node_bind:
  assumes "good p \<Longrightarrow> wp m (node_post p)"
    and "\<And>r p'. left_tokens p' \<le> left_tokens p \<Longrightarrow> (clean p' \<Longrightarrow> clean p) \<Longrightarrow>
      (clean p' \<Longrightarrow> left_tokens p' < left_tokens p) \<Longrightarrow>
      (solid (events p) \<Longrightarrow> solid (events p')) \<Longrightarrow> run p0 ms p' (f (Ok r, p')) Q"
    and "\<And>e p'. left_tokens p' \<le> left_tokens p \<Longrightarrow> \<not> clean p' \<Longrightarrow>
      (solid (events p) \<Longrightarrow> solid (events p')) \<Longrightarrow> run p0 ms p' (f (Err e, p')) Q"
  shows "run p0 ms p (m \<bind> f) Q"
proof (rule run_bind [where st = snd and X = "\<lambda>x. case fst x of
        Ok _ \<Rightarrow> clean (snd x) \<longrightarrow> left_tokens (snd x) < left_tokens p | Err _ \<Rightarrow> \<not> clean (snd x)"])
  show "wp m (\<lambda>x. good (snd x) \<and> runs p (snd x) \<and> (case fst x of Ok _ \<Rightarrow> clean (snd x) \<longrightarrow> left_tokens (snd x) < left_tokens p | Err _ \<Rightarrow> \<not> clean (snd x)))" if "good p"
    using assms(1) [OF that] by (simp only: node_post_iff [abs_def])
qed (auto split: res.splits intro!: assms(2,3))

lemma run_stays_bind:
  assumes "good p \<Longrightarrow> wp m (stays p)"
    and "\<And>p'. left_tokens p' \<le> left_tokens p \<Longrightarrow> (clean p' \<Longrightarrow> clean p) \<Longrightarrow>
      (solid (events p) \<Longrightarrow> solid (events p')) \<Longrightarrow> run p0 ms p' (f p') Q"
  shows "run p0 ms p (m \<bind> f) Q"
  by (rule run_bind [where st = "\<lambda>p. p" and X = "\<lambda>_. True"]) (auto intro: assms simp: assms(1) [unfolded stays_def [abs_def]])

lemma run_advances_bind:
  assumes "good p \<Longrightarrow> wp m (advances p)"
    and "\<And>p'. left_tokens p' \<le> left_tokens p \<Longrightarrow> (clean p' \<Longrightarrow> clean p) \<Longrightarrow>
      (clean p' \<Longrightarrow> left_tokens p' < left_tokens p) \<Longrightarrow>
      (solid (events p) \<Longrightarrow> solid (events p')) \<Longrightarrow> run p0 ms p' (f p') Q"
  shows "run p0 ms p (m \<bind> f) Q"
  by (rule run_bind [where st = "\<lambda>p. p" and X = "\<lambda>p'. clean p' \<longrightarrow> left_tokens p' < left_tokens p"])
    (auto intro!: assms(2) simp: assms(1) [unfolded advances_def [abs_def]])

lemma run_bind_tail: "(\<And>f. run p0 ms p (m \<bind> Some) Q) \<Longrightarrow> run p0 ms p m Q"
  by simp

lemma run_expr_tail:
  assumes "good p \<Longrightarrow> wp m (expr_post p)"
    and "\<And>cm p'. left_tokens p' < left_tokens p \<Longrightarrow> (clean p' \<Longrightarrow> clean p) \<Longrightarrow>
      (solid (events p) \<Longrightarrow> solid (events p')) \<Longrightarrow> valid_marker cm p' \<Longrightarrow> parsing p0 ms p' \<Longrightarrow> Q (Ok cm, p')"
    and "\<And>e p'. left_tokens p' \<le> left_tokens p \<Longrightarrow> \<not> clean p' \<Longrightarrow>
      (solid (events p) \<Longrightarrow> solid (events p')) \<Longrightarrow> parsing p0 ms p' \<Longrightarrow> Q (Err e, p')"
  shows "run p0 ms p m Q"
  using run_expr_bind [of p m p0 ms Some Q] assms by (simp add: run_return)

lemma run_stays_tail:
  assumes "good p \<Longrightarrow> wp m (stays p)"
    and "\<And>p'. left_tokens p' \<le> left_tokens p \<Longrightarrow> (clean p' \<Longrightarrow> clean p) \<Longrightarrow>
      (solid (events p) \<Longrightarrow> solid (events p')) \<Longrightarrow> parsing p0 ms p' \<Longrightarrow> Q p'"
  shows "run p0 ms p m Q"
  using run_stays_bind [of p m p0 ms Some Q] assms by (simp add: run_return)

lemma run_advances_tail:
  assumes "good p \<Longrightarrow> wp m (advances p)"
    and "\<And>p'. left_tokens p' \<le> left_tokens p \<Longrightarrow> (clean p' \<Longrightarrow> clean p) \<Longrightarrow>
      (clean p' \<Longrightarrow> left_tokens p' < left_tokens p) \<Longrightarrow>
      (solid (events p) \<Longrightarrow> solid (events p')) \<Longrightarrow> parsing p0 ms p' \<Longrightarrow> Q p'"
  shows "run p0 ms p m Q"
  using run_advances_bind [of p m p0 ms Some Q] assms by (simp add: run_return)

section \<open>Helpers\<close>

text \<open>The pattern \<open>if p.current_token() == k { p.bump() } else { p.push_error(..) }\<close>.\<close>

lemma run_bump_or_report [run_rules]:
  assumes "b \<Longrightarrow> current_token p \<noteq> TkEof"
    and "\<And>p'. left_tokens p' \<le> left_tokens p \<Longrightarrow> (clean p' \<Longrightarrow> clean p) \<Longrightarrow>
      (clean p' \<Longrightarrow> left_tokens p' < left_tokens p) \<Longrightarrow> (b \<Longrightarrow> left_tokens p' < left_tokens p) \<Longrightarrow>
      (solid (events p) \<Longrightarrow> solid (events p')) \<Longrightarrow> length (events p) \<le> length (events p') \<Longrightarrow>
      run p0 ms p' (f p') Q"
  shows "run p0 ms p ((if b then pbump dp p else report msg rng p) \<bind> f) Q"
  by (rule run_join [where X = "\<lambda>p'. (clean p' \<longrightarrow> left_tokens p' < left_tokens p) \<and>
      (b \<longrightarrow> left_tokens p' < left_tokens p) \<and> length (events p) \<le> length (events p')"])
    (auto intro!: run_rules assms simp: assms(1) dest: runs_grow)

lemma run_expect_token [run_rules]:
  assumes "k \<noteq> TkEof"
    and "\<And>p'. left_tokens p' < left_tokens p \<Longrightarrow> (clean p' \<Longrightarrow> clean p) \<Longrightarrow>
      solid (events p') \<Longrightarrow> run p0 ms p' (f (Ok (), p')) Q"
    and "\<And>e. run p0 ms p (f (Err e, p)) Q"
  shows "run p0 ms p (expect_token E k p \<bind> f) Q"
  unfolding expect_token_def by (auto intro!: run_rules assms simp: assms(1) if_distrib [of "\<lambda>m. m \<bind> f"])

lemma run_if_token_bump [run_rules]:
  assumes "k \<noteq> TkEof"
    and "\<And>r p'. left_tokens p' \<le> left_tokens p \<Longrightarrow> (clean p' \<Longrightarrow> clean p) \<Longrightarrow>
      (current_token p = k \<Longrightarrow> left_tokens p' < left_tokens p) \<Longrightarrow>
      (solid (events p) \<Longrightarrow> solid (events p')) \<Longrightarrow> run p0 ms p' (f (r, p')) Q"
  shows "run p0 ms p (if_token_bump E k p \<bind> f) Q"
  unfolding if_token_bump_def by (auto intro!: run_rules assms simp: assms(1) if_distrib [of "\<lambda>m. m \<bind> f"])

lemma bump_until_ok: "stop TkEof \<Longrightarrow> good p \<Longrightarrow> wp (bump_until E stop p) (\<lambda>p'. stays p p' \<and> stop (current_token p'))"
proof (induction "left_tokens p" arbitrary: p rule: less_induct)
  case less
  show ?case
  proof (cases "stop (current_token p)")
    case True
    with less.prems show ?thesis by (simp add: bump_until.simps [of E stop p] stays_def)
  next
    case False
    with less.prems(1) have "current_token p \<noteq> TkEof" by auto
    from pbump_good [OF less.prems(2) this, of "doc_parse E"] obtain p' where
      p': "pbump (doc_parse E) p = Some p'" "good p'" "runs p p'" "left_tokens p' < left_tokens p" by blast
    have "wp (bump_until E stop p') (\<lambda>p''. stays p' p'' \<and> stop (current_token p''))"
      by (rule less.hyps [OF p'(4) less.prems(1) p'(2)])
    then show ?thesis using p' False
      by (subst bump_until.simps) (auto simp: stays_def elim!: wp_conseq intro: runs_trans)
  qed
qed

lemma run_bump_until [run_rules]:
  assumes "stop TkEof"
    and "\<And>p'. left_tokens p' \<le> left_tokens p \<Longrightarrow> (clean p' \<Longrightarrow> clean p) \<Longrightarrow>
      (solid (events p) \<Longrightarrow> solid (events p')) \<Longrightarrow> stop (current_token p') \<Longrightarrow>
      length (events p) \<le> length (events p') \<Longrightarrow> run p0 ms p' (f p') Q"
  shows "run p0 ms p (bump_until E stop p \<bind> f) Q"
  by (rule run_bind [where st = "\<lambda>p. p" and X = "\<lambda>p'. stop (current_token p') \<and> length (events p) \<le> length (events p')"])
    (use bump_until_ok [of stop p E] assms(1) in
      \<open>auto intro!: assms(2) elim!: wp_conseq dest: runs_grow simp: stays_def\<close>)

lemma run_bump_until_tail [run_rules]:
  assumes "stop TkEof"
    and "\<And>p'. left_tokens p' \<le> left_tokens p \<Longrightarrow> (clean p' \<Longrightarrow> clean p) \<Longrightarrow>
      (solid (events p) \<Longrightarrow> solid (events p')) \<Longrightarrow> stop (current_token p') \<Longrightarrow>
      length (events p) \<le> length (events p') \<Longrightarrow> parsing p0 ms p' \<Longrightarrow> Q p'"
  shows "run p0 ms p (bump_until E stop p) Q"
  using run_bump_until [of stop p p0 ms Some Q E] assms by (simp add: run_return)

section \<open>Parameters\<close>

lemma parse_param_name_ok:
  assumes "good p"
  shows "wp (parse_param_name E v p) (\<lambda>(r, _, p').
    node_post p (r, p') \<and> length (events p) < length (events p'))"
  unfolding parse_param_name_def
  by (rule run_start [OF assms]) ((intro run_rules | simp only: run_simps |
    (auto simp: support_named_var_args_def onward_def; fail)[1])+)

lemma run_param_name [run_rules]:
  assumes "\<And>r v' p'. left_tokens p' \<le> left_tokens p \<Longrightarrow> (clean p' \<Longrightarrow> clean p) \<Longrightarrow>
      (clean p' \<Longrightarrow> left_tokens p' < left_tokens p) \<Longrightarrow>
      (solid (events p) \<Longrightarrow> solid (events p')) \<Longrightarrow> length (events p) < length (events p') \<Longrightarrow>
      run p0 ms p' (f (r, v', p')) Q"
  shows "run p0 ms p (parse_param_name E v p \<bind> f) Q"
  by (rule run_bind [where st = "\<lambda>(r, v, p). p" and X = "\<lambda>(r, v, p').
        (clean p' \<longrightarrow> left_tokens p' < left_tokens p) \<and> length (events p) < length (events p')"])
    (auto intro!: assms wp_conseq [OF parse_param_name_ok] simp: node_post_iff split: res.splits)

lemma param_stop_eof [simp]: "param_recovery_stop TkEof"
  by (simp add: param_recovery_stop_def)

lemma param_loop_ok:
  "good p \<Longrightarrow> wp (param_loop E v rep p) (\<lambda>p'. stays p p' \<and> length (events p) < length (events p'))"
proof (induction "left_tokens p" arbitrary: p v rep rule: less_induct)
  case less
  have again: "run p0 ms q (param_loop E v rep q) Q"
    if "left_tokens q < left_tokens p" and "\<And>q'. left_tokens q' \<le> left_tokens q \<Longrightarrow> length (events q) \<le> length (events q') \<Longrightarrow>
      parsing p0 ms q' \<Longrightarrow> Q q'"
    for p0 ms q v rep Q
    by (rule run_tail [where st = "\<lambda>p. p" and X = "\<lambda>q'. length (events q) \<le> length (events q')"])
      (auto intro!: that wp_conseq [OF less.hyps] simp: stays_def dest: runs_grow)
  have "run p [] p (param_loop E v rep p) (\<lambda>p'. parsing p [] p' \<and> length (events p) < length (events p'))"
    by (subst param_loop.simps)
      ((intro run_case_join_here run_rules again | simp only: run_simps | (auto simp: onward_def; fail)[1])+)
  then show ?case using less.prems by (simp add: run_def stays_def)
qed

lemma run_param_loop [run_rules]:
  assumes "\<And>p'. left_tokens p' \<le> left_tokens p \<Longrightarrow> (clean p' \<Longrightarrow> clean p) \<Longrightarrow>
      length (events p) < length (events p') \<Longrightarrow> parsing p0 ms p' \<Longrightarrow> Q p'"
  shows "run p0 ms p (param_loop E v rep p) Q"
  by (rule run_tail [where st = "\<lambda>p. p" and X = "\<lambda>p'. length (events p) < length (events p')"])
    (auto intro!: assms wp_conseq [OF param_loop_ok] simp: stays_def)

lemma run_params [run_rules]:
  assumes "\<And>p'. left_tokens p' \<le> left_tokens p \<Longrightarrow> (clean p' \<Longrightarrow> clean p) \<Longrightarrow>
      (\<not> b \<and> current_token p' = current_token p) \<or> length (events p) < length (events p') \<Longrightarrow>
      run p0 ms p' (f p') Q"
  shows "run p0 ms p ((if b then param_loop E v rep p else Some p) \<bind> f) Q"
  by (rule run_join [where X = "\<lambda>p'. (\<not> b \<and> current_token p' = current_token p) \<or>
      length (events p) < length (events p')"])
    (auto intro!: run_rules assms)

lemma parse_param_list_ok:
  assumes "good p"
  shows "wp (parse_param_list E p) (\<lambda>x. node_post p x \<and> solid (events (snd x)))"
  unfolding parse_param_list_def
  by (rule run_start [OF assms]) ((intro run_rules | simp only: run_simps | (auto simp: onward_def; fail)[1])+)

lemma run_param_list [run_rules]:
  assumes "\<And>r p'. left_tokens p' \<le> left_tokens p \<Longrightarrow> (clean p' \<Longrightarrow> clean p) \<Longrightarrow>
      (clean p' \<Longrightarrow> left_tokens p' < left_tokens p) \<Longrightarrow> solid (events p') \<Longrightarrow>
      run p0 ms p' (f (Ok r, p')) Q"
    and "\<And>e p'. left_tokens p' \<le> left_tokens p \<Longrightarrow> \<not> clean p' \<Longrightarrow> solid (events p') \<Longrightarrow>
      run p0 ms p' (f (Err e, p')) Q"
  shows "run p0 ms p (parse_param_list E p \<bind> f) Q"
  by (rule run_bind [where st = snd and X = "\<lambda>x. solid (events (snd x)) \<and> (case fst x of
        Ok _ \<Rightarrow> clean (snd x) \<longrightarrow> left_tokens (snd x) < left_tokens p | Err _ \<Rightarrow> \<not> clean (snd x))"])
    (auto intro!: assms wp_conseq [OF parse_param_list_ok] simp: node_post_iff split: res.splits)

section \<open>Expressions, given the recursive calls\<close>

locale grammar_env =
  fixes E :: env and n :: nat
  assumes sub_expr_ok: "good p \<Longrightarrow> 2 * left_tokens p < n \<Longrightarrow> wp (sub_expr E limit p) (expr_post p)"
    and block_ok: "good p \<Longrightarrow> 2 * left_tokens p + 1 < n \<Longrightarrow> solid (events p) \<Longrightarrow> wp (block E p) (block_post p)"
begin

lemma parse_expr_ok: "good p \<Longrightarrow> 2 * left_tokens p < n \<Longrightarrow> wp (parse_expr E p) (expr_post p)"
  by (simp add: parse_expr_def sub_expr_ok)

lemmas env_rules =
  run_expr_bind [OF sub_expr_ok] run_expr_bind [OF parse_expr_ok] run_block_bind [OF block_ok]

lemma expr_or_report_ok: "good p \<Longrightarrow> 2 * left_tokens p < n \<Longrightarrow> wp (expr_or_report E msg p) (advances p)"
  unfolding expr_or_report_def
  by (rule run_start, assumption)
    ((intro run_rules env_rules | simp only: run_simps | (auto simp: advances_def onward_def; fail)[1])+)

lemmas expr_or_report_rules = run_advances_bind [OF expr_or_report_ok] run_advances_tail [OF expr_or_report_ok]

lemma closure_ok:
  assumes "good p" and "solid (events p)" and "2 * left_tokens p + 1 < n"
  shows "wp (parse_closure_expr E p) (node_post p)"
  unfolding parse_closure_expr_def Let_def
  by (rule run_start [OF assms(1)])
    ((intro run_rules env_rules | simp only: run_simps |
      (use assms in \<open>auto intro: opened_drop simp: opened_good onward_def; fail\<close>)[1])+)

lemma closure_expr_ok:
  assumes "good p" and "current_token p = TkFunction" and "2 * left_tokens p \<le> n"
  shows "wp (parse_closure_expr E p) (expr_post p)"
  unfolding parse_closure_expr_def Let_def
  by (rule run_start [OF assms(1)])
    ((intro run_rules env_rules | simp only: run_simps |
      (use assms in \<open>auto intro: opened_drop simp: opened_good onward_def; fail\<close>)[1])+)

lemmas closure_rules = run_node_bind [OF closure_ok] run_expr_tail [OF closure_expr_ok]

subsection \<open>Tables\<close>

lemma stops_at_eof [simp]: "field_recovery_stop TkEof" "table_boundary TkEof" "arg_recovery_stop TkEof"
  by (simp_all add: field_recovery_stop_def table_boundary_def arg_recovery_stop_def)

lemma bracket_field_ok:
  assumes "good p" and "current_token p = TkLeftBracket" and "2 * left_tokens p \<le> n"
  shows "wp (bracket_field E p) (advances p)"
  unfolding bracket_field_def
  by (rule run_start [OF assms(1)])
    ((intro run_rules env_rules expr_or_report_rules | simp only: run_simps |
      (use assms in \<open>auto simp: advances_def onward_def; fail\<close>)[1])+)

lemmas bracket_rules = run_advances_bind [OF bracket_field_ok] run_advances_tail [OF bracket_field_ok]

lemma peek_assign:
  assumes "good p" and "peek_next_token p = TkAssign" and "pbump dp p = Some p'"
    and "current_token p \<noteq> TkEof"
  shows "current_token p' = TkAssign"
proof -
  have i: "token_index p < length (tokens p)"
    using good_left [OF assms(1)] assms(4) by (auto simp: left_tokens_def)
  have off: "\<not> enable_emmylua_doc (parse_config p)"
    using assms(1) by (simp add: good_def tokens_ok_def)
  from pbump_off [OF off i good_current(1,3) [OF assms(1) i], of dp] assms(2,3) show ?thesis
    by (auto simp: peek_next_token_def Let_def split: if_splits)
qed

lemma run_bump_peek:
  assumes "current_token p \<noteq> TkEof" and "peek_next_token p = TkAssign"
    and "\<And>p'. left_tokens p' < left_tokens p \<Longrightarrow> errors p' = errors p \<Longrightarrow> solid (events p') \<Longrightarrow>
      run p0 ms p' (f p') Q"
  shows "run p0 ms p (pbump dp p \<bind> (\<lambda>p. pbump dp p \<bind> f)) Q"
proof (rule run_bind [where st = "\<lambda>p. p" and X = "\<lambda>p'. left_tokens p' < left_tokens p \<and>
    errors p' = errors p \<and> current_token p' = TkAssign"])
  assume "good p"
  from pbump_good [OF this assms(1), of dp] peek_assign [OF this assms(2) _ assms(1), of dp]
  show "wp (pbump dp p) (\<lambda>p'. good p' \<and> runs p p' \<and> left_tokens p' < left_tokens p \<and>
      errors p' = errors p \<and> current_token p' = TkAssign)" by auto
qed (auto intro!: run_bump assms(3))

lemma field_ok:
  assumes "good p" and "2 * left_tokens p < n"
  shows "wp (parse_field_with_recovery E p) (\<lambda>(r, p'). (\<exists>cm. r = Ok cm) \<and> node_post p (r, p'))"
  unfolding parse_field_with_recovery_def
  by (rule run_start [OF assms(1)])
    ((intro run_if_advance run_bump_peek run_rules env_rules expr_or_report_rules bracket_rules |
      simp only: run_simps | (use assms in \<open>auto simp: onward_def; fail\<close>)[1])+)

lemma run_field:
  assumes "2 * left_tokens p < n"
    and "\<And>cm p'. left_tokens p' \<le> left_tokens p \<Longrightarrow> (clean p' \<Longrightarrow> clean p) \<Longrightarrow>
      (clean p' \<Longrightarrow> left_tokens p' < left_tokens p) \<Longrightarrow>
      (solid (events p) \<Longrightarrow> solid (events p')) \<Longrightarrow> run p0 ms p' (f (Ok cm, p')) Q"
  shows "run p0 ms p (parse_field_with_recovery E p \<bind> f) Q"
  by (rule run_bind [where st = snd and X = "\<lambda>(r, p'). (\<exists>cm. r = Ok cm) \<and>
        (clean p' \<longrightarrow> left_tokens p' < left_tokens p)"])
    (auto intro!: assms wp_conseq [OF field_ok] simp: node_post_iff)

text \<open>The loops run with the marker of the table open: they may change its kind.\<close>

lemma run_table_loop:
  assumes "2 * left_tokens p \<le> n" and "k \<noteq> Block"
    and "\<And>p'. left_tokens p' \<le> left_tokens p \<Longrightarrow> (clean p' \<Longrightarrow> clean p) \<Longrightarrow>
      (solid (events p) \<Longrightarrow> solid (events p')) \<Longrightarrow> parsing p0 ((m, k, q) # ms) p' \<Longrightarrow> Q p'"
  shows "run p0 ((m, k, q) # ms) p (table_loop E m p) Q"
  using assms(1,3)
proof (induction "left_tokens p" arbitrary: p rule: less_induct)
  case less
  have again: "run p0 ((m, k, q) # ms) p' (table_loop E m p') Q"
    if "left_tokens p' < left_tokens p" and "clean p' \<Longrightarrow> clean p"
      "solid (events p) \<Longrightarrow> solid (events p')" for p'
    by (rule less.hyps) (use that less.prems(1) in \<open>auto intro!: less.prems(2) simp del: parsing.simps\<close>)
  show ?case
    by (subst table_loop.simps, unfold Let_def recover_to_table_boundary_def)
      ((intro run_rules run_field again | simp only: run_simps |
        (use less.prems(1) assms(2) in \<open>auto simp: onward_def intro!: less.prems(2)
          simp del: parsing.simps; fail\<close>)[1])+)
qed

lemma find_brace_ok: "good p \<Longrightarrow> wp (find_brace E c p) (\<lambda>x. stays p (snd x))"
proof (induction "left_tokens p" arbitrary: p c rule: less_induct)
  case less
  have again: "run p0 ms p' (find_brace E c p') Q"
    if "left_tokens p' < left_tokens p" and "\<And>x. parsing p0 ms (snd x) \<Longrightarrow> Q x"
    for p' c and p0 :: LuaParser and ms Q
    by (rule run_tail [where st = snd and X = "\<lambda>_. True"])
      (auto intro!: that wp_conseq [OF less.hyps] simp: stays_def)
  show ?case
    by (rule run_start [OF less.prems], subst find_brace.simps)
      ((intro run_rules again | simp only: run_simps | (auto simp: stays_def; fail)[1])+)
qed

lemma run_find_brace:
  assumes "\<And>x. left_tokens (snd x) \<le> left_tokens p \<Longrightarrow> (clean (snd x) \<Longrightarrow> clean p) \<Longrightarrow>
      (solid (events p) \<Longrightarrow> solid (events (snd x))) \<Longrightarrow> run p0 ms (snd x) (f x) Q"
  shows "run p0 ms p (find_brace E c p \<bind> f) Q"
  by (rule run_bind [where st = snd and X = "\<lambda>_. True"])
    (auto intro!: assms wp_conseq [OF find_brace_ok] simp: stays_def)

lemma close_table_ok: "good p \<Longrightarrow> wp (close_table E p) (advances p)"
  unfolding close_table_def
  by (rule run_start, assumption)
    ((intro run_rules run_find_brace | simp only: run_simps split_beta |
      (auto simp: advances_def; fail)[1])+)

lemma table_ok:
  assumes "good p" and "current_token p = TkLeftBrace" and "2 * left_tokens p \<le> n"
  shows "wp (parse_table_expr E p) (expr_post p)"
  unfolding parse_table_expr_def recover_to_table_boundary_def
  by (rule run_start [OF assms(1)])
    ((intro run_join_open run_rules run_field run_table_loop run_advances_bind [OF close_table_ok] |
      simp only: run_simps | (use assms in \<open>auto simp: onward_def; fail\<close>)[1])+)

lemmas table_rules = run_expr_bind [OF table_ok] run_expr_tail [OF table_ok]

subsection \<open>Suffixes\<close>

lemma arg_loop_ok: "good p \<Longrightarrow> 2 * left_tokens p < n \<Longrightarrow> wp (arg_loop E p) (advances p)"
proof (induction "left_tokens p" arbitrary: p rule: less_induct)
  case less
  have again: "run p0 ms q (arg_loop E q) Q"
    if "left_tokens q < left_tokens p" and
      "\<And>q'. left_tokens q' \<le> left_tokens q \<Longrightarrow> parsing p0 ms q' \<Longrightarrow> Q q'"
    for p0 ms q Q
    by (rule run_advances_tail [OF less.hyps]) (use that less.prems in auto)
  show ?case
    by (rule run_start [OF less.prems(1)], subst arg_loop.simps)
      ((intro run_rules env_rules again | simp only: run_simps |
        (use less.prems in \<open>auto simp: advances_def; fail\<close>)[1])+)
qed

lemmas arg_rules = run_advances_bind [OF arg_loop_ok] run_advances_tail [OF arg_loop_ok]

lemma call_start_eof [simp]: "\<not> call_start TkEof"
  by (simp add: call_start_def)

lemma args_ok:
  assumes "good p" and "call_start (current_token p)" and "2 * left_tokens p \<le> n"
  shows "wp (parse_args E p) (expr_post p)"
  unfolding parse_args_def
  by (rule run_start [OF assms(1)])
    ((intro run_rules arg_rules table_rules | simp only: run_simps |
      (use assms in \<open>auto simp: onward_def call_start_def; fail\<close>)[1])+)

lemmas args_rules = run_expr_bind [OF args_ok]

lemma index_struct_ok:
  assumes "good p" and "current_token p \<in> set [TkDot, TkColon, TkLeftBracket]" and "2 * left_tokens p \<le> n"
  shows "wp (parse_index_struct E p)
    (\<lambda>(r, p'). good p' \<and> runs p p' \<and> left_tokens p' < left_tokens p \<and> (\<forall>e. r = Err e \<longrightarrow> \<not> clean p'))"
  unfolding parse_index_struct_def Let_def
  by (rule run_start [OF assms(1)])
    ((intro run_rules env_rules | simp only: run_simps |
      (use assms in \<open>auto; fail\<close>)[1])+)

lemma run_index_struct:
  assumes "current_token p \<in> set [TkDot, TkColon, TkLeftBracket]" and "2 * left_tokens p \<le> n"
    and "\<And>p'. left_tokens p' < left_tokens p \<Longrightarrow> (clean p' \<Longrightarrow> clean p) \<Longrightarrow>
      (solid (events p) \<Longrightarrow> solid (events p')) \<Longrightarrow> run p0 ms p' (f (Ok (), p')) Q"
    and "\<And>e p'. left_tokens p' < left_tokens p \<Longrightarrow> \<not> clean p' \<Longrightarrow>
      (solid (events p) \<Longrightarrow> solid (events p')) \<Longrightarrow> run p0 ms p' (f (Err e, p')) Q"
  shows "run p0 ms p (parse_index_struct E p \<bind> f) Q"
proof (rule run_bind [where st = snd and X = "\<lambda>x. left_tokens (snd x) < left_tokens p \<and>
    (\<forall>e. fst x = Err e \<longrightarrow> \<not> clean (snd x))"])
  assume "good p"
  show "wp (parse_index_struct E p) (\<lambda>x. good (snd x) \<and> runs p (snd x) \<and>
      left_tokens (snd x) < left_tokens p \<and> (\<forall>e. fst x = Err e \<longrightarrow> \<not> clean (snd x)))"
    by (rule wp_conseq [OF index_struct_ok [OF \<open>good p\<close> assms(1,2)]]) auto
next
  fix x :: "unit res \<times> LuaParser"
  assume "left_tokens (snd x) < left_tokens p \<and> (\<forall>e. fst x = Err e \<longrightarrow> \<not> clean (snd x))"
    "clean (snd x) \<Longrightarrow> clean p" "solid (events p) \<Longrightarrow> solid (events (snd x))"
  then show "run p0 ms (snd x) (f x) Q"
    by (cases x; cases "fst x") (auto intro!: assms(3,4))
qed

lemma special_call_kind_block [simp]: "special_call_kind f \<noteq> Block"
  by (simp add: special_call_kind_def split: SpecialFunction.split)

lemma special_call_kind_plain [simp]: "special_call_kind f \<noteq> SkNone \<Longrightarrow> plain (special_call_kind f)"
  by (simp add: special_call_kind_def split: SpecialFunction.splits)

lemma name_ok:
  assumes "good p" and "current_token p = TkName" and "2 * left_tokens p \<le> n"
  shows "wp (parse_name_or_special_function E p) (expr_post p)"
  unfolding parse_name_or_special_function_def Let_def
  by (rule run_start [OF assms(1)])
    ((intro run_rules args_rules | simp only: run_simps |
      (use assms in \<open>auto; fail\<close>)[1])+)

lemma suffix_loop_ok:
  "good p \<Longrightarrow> valid_marker cm p \<Longrightarrow> 2 * left_tokens p \<le> n \<Longrightarrow> wp (suffix_loop E cm p)
    (\<lambda>(r, p'). good p' \<and> runs p p' \<and> (case r of Ok cm' \<Rightarrow> valid_marker cm' p' | Err _ \<Rightarrow> \<not> clean p'))"
proof (induction "left_tokens p" arbitrary: p cm rule: less_induct)
  case less
  let ?P = "\<lambda>p (r, p'). good p' \<and> runs p p' \<and> (case r of Ok cm' \<Rightarrow> valid_marker cm' p' | Err _ \<Rightarrow> \<not> clean p')"
  have again: "run p [] q (suffix_loop E cm q) (?P p)"
    if "left_tokens q < left_tokens p" "valid_marker cm q" for q cm
    by (rule run_tail [where st = snd and X = "\<lambda>x. case fst x of Ok cm' \<Rightarrow> valid_marker cm' (snd x) | Err _ \<Rightarrow> \<not> clean (snd x)"])
      (use that less.prems(3) in \<open>auto intro!: wp_conseq [OF less.hyps] split: res.splits\<close>)
  show ?case
    by (rule run_start [OF less.prems(1)], subst suffix_loop.simps)
      ((intro run_rules args_rules run_index_struct again | simp only: run_simps |
        (use less.prems in \<open>auto; fail\<close>)[1])+)
qed

lemma run_suffix_loop:
  assumes "valid_marker cm p" and "2 * left_tokens p \<le> n"
    and "\<And>cm' p'. left_tokens p' \<le> left_tokens p \<Longrightarrow> (clean p' \<Longrightarrow> clean p) \<Longrightarrow>
      (solid (events p) \<Longrightarrow> solid (events p')) \<Longrightarrow> valid_marker cm' p' \<Longrightarrow> parsing p0 ms p' \<Longrightarrow> Q (Ok cm', p')"
    and "\<And>e p'. \<not> clean p' \<Longrightarrow> (solid (events p) \<Longrightarrow> solid (events p')) \<Longrightarrow> parsing p0 ms p' \<Longrightarrow> Q (Err e, p')"
  shows "run p0 ms p (suffix_loop E cm p) Q"
  by (rule run_tail [where st = snd and X = "\<lambda>x. case fst x of Ok cm' \<Rightarrow> valid_marker cm' (snd x) | Err _ \<Rightarrow> \<not> clean (snd x)"])
    (use assms(1,2) in \<open>auto intro!: assms(3,4) wp_conseq [OF suffix_loop_ok] split: res.splits\<close>)

lemma paren_ok:
  assumes "good p" and "current_token p = TkLeftParen" and "2 * left_tokens p \<le> n"
  shows "wp (parse_paren_expr E p) (expr_post p)"
  unfolding parse_paren_expr_def Let_def
  by (rule run_start [OF assms(1)])
    ((intro run_rules env_rules | simp only: run_simps | (use assms in \<open>auto; fail\<close>)[1])+)

lemma suffixed_ok:
  assumes "good p" and "current_token p = TkName \<or> current_token p = TkLeftParen" and "2 * left_tokens p \<le> n"
  shows "wp (parse_suffixed_expr E p) (expr_post p)"
  unfolding parse_suffixed_expr_def
  by (rule run_start [OF assms(1)])
    ((intro run_rules run_expr_bind [OF name_ok] run_expr_bind [OF paren_ok] run_suffix_loop |
      simp only: run_simps | (use assms in \<open>auto; fail\<close>)[1])+)

subsection \<open>Operators\<close>

lemma simple_ok:
  assumes "good p" and "2 * left_tokens p \<le> n"
  shows "wp (parse_simple_expr E p) (expr_post p)"
  unfolding parse_simple_expr_def
  by (rule run_start [OF assms(1)])
    ((intro run_rules run_expr_tail [OF table_ok] run_expr_tail [OF closure_expr_ok]
        run_expr_tail [OF suffixed_ok] | simp only: run_simps |
      (use assms in \<open>auto simp: literal_start_def; fail\<close>)[1])+)

lemma unary_ok:
  assumes "good p" and "to_unary_operator (current_token p) \<noteq> UnNop" and "2 * left_tokens p \<le> n"
  shows "wp (parse_unary_expr E p) (expr_post p)"
proof -
  have "current_token p \<noteq> TkEof" using assms(2) by (auto simp: to_unary_operator_def)
  then show ?thesis
    unfolding parse_unary_expr_def Let_def
    by (intro run_start [OF assms(1)])
      ((intro run_rules env_rules | simp only: run_simps |
        (use assms in \<open>auto simp: onward_def; fail\<close>)[1])+)
qed

lemma run_priority:
  assumes "bop \<noteq> BinNop" and "\<And>t. run p0 ms p (f t) Q"
  shows "run p0 ms p (get_priority bop \<bind> f) Q"
proof -
  have "get_priority bop \<noteq> None" using assms(1) by (cases bop) (simp_all add: get_priority_def PRIORITY_def)
  with assms(2) show ?thesis by auto
qed

lemma binary_loop_ok:
  "good p \<Longrightarrow> valid_marker cm p \<Longrightarrow> 2 * left_tokens p \<le> n \<Longrightarrow> wp (binary_loop E limit cm p)
    (\<lambda>(r, p'). good p' \<and> runs p p' \<and> (case r of Ok cm' \<Rightarrow> valid_marker cm' p' | Err _ \<Rightarrow> \<not> clean p'))"
proof (induction "left_tokens p" arbitrary: p cm rule: less_induct)
  case less
  let ?P = "\<lambda>p (r, p'). good p' \<and> runs p p' \<and> (case r of Ok cm' \<Rightarrow> valid_marker cm' p' | Err _ \<Rightarrow> \<not> clean p')"
  have again: "run p [] q (binary_loop E limit cm q) (?P p)"
    if "left_tokens q < left_tokens p" "valid_marker cm q" for q cm
    by (rule run_tail [where st = snd and X = "\<lambda>x. case fst x of Ok cm' \<Rightarrow> valid_marker cm' (snd x) | Err _ \<Rightarrow> \<not> clean (snd x)"])
      (use that less.prems(3) in \<open>auto intro!: wp_conseq [OF less.hyps] split: res.splits\<close>)
  have eof: "to_binary_operator TkEof = BinNop" by (simp add: to_binary_operator_def)
  show ?case
    by (rule run_start [OF less.prems(1)], subst binary_loop.simps, unfold Let_def)
      ((intro run_rules env_rules again run_priority | simp only: run_simps |
        (use less.prems eof in \<open>auto; fail\<close>)[1])+)
qed

lemma run_binary_loop:
  assumes "valid_marker cm p" and "2 * left_tokens p \<le> n"
    and "\<And>cm' p'. left_tokens p' \<le> left_tokens p \<Longrightarrow> (clean p' \<Longrightarrow> clean p) \<Longrightarrow>
      (solid (events p) \<Longrightarrow> solid (events p')) \<Longrightarrow> valid_marker cm' p' \<Longrightarrow> parsing p0 ms p' \<Longrightarrow> Q (Ok cm', p')"
    and "\<And>e p'. \<not> clean p' \<Longrightarrow> (solid (events p) \<Longrightarrow> solid (events p')) \<Longrightarrow> parsing p0 ms p' \<Longrightarrow> Q (Err e, p')"
  shows "run p0 ms p (binary_loop E limit cm p) Q"
  by (rule run_tail [where st = snd and X = "\<lambda>x. case fst x of Ok cm' \<Rightarrow> valid_marker cm' (snd x) | Err _ \<Rightarrow> \<not> clean (snd x)"])
    (use assms(1,2) in \<open>auto intro!: assms(3,4) wp_conseq [OF binary_loop_ok] split: res.splits\<close>)

text \<open>\<open>parse_sub_expr\<close>, for one more token than its recursive calls can take.\<close>

lemma parse_sub_expr_ok:
  assumes "good p" and "2 * left_tokens p \<le> n"
  shows "wp (parse_sub_expr E remaining limit p) (expr_post p)"
  unfolding parse_sub_expr_def
  by (rule run_start [OF assms(1)])
    ((intro run_rules run_expr_bind [OF unary_ok] run_expr_bind [OF simple_ok] run_binary_loop |
      simp only: run_simps | (use assms in \<open>auto; fail\<close>)[1])+)

end

end
