(* ===== verification/Grammar_Stat.thy ===== *)
theory Grammar_Stat
  imports Grammar_Expr
begin

text \<open>
  \<open>crates/glua_parser/src/grammar/lua/stat.rs\<close> and the entry points of \<open>grammar/lua/mod.rs\<close>:
  statements, error recovery, blocks and the chunk. The section at the end ties the recursive
  knot between expressions and blocks.
\<close>

section \<open>Expectations and recovery\<close>

definition push_expr_error_lazy :: "string \<Rightarrow> LuaParser \<Rightarrow> LuaParser option" where
  "push_expr_error_lazy error_msg p = report error_msg (current_token_range p) p"

definition expect_keyword_with_recovery ::
  "env \<Rightarrow> LuaTokenKind \<Rightarrow> string \<Rightarrow> LuaParser \<Rightarrow> (bool \<times> LuaParser) option" where
  "expect_keyword_with_recovery E expected error_msg p =
     (if current_token p = expected then do { p \<leftarrow> bump_p E p; Some (True, p) }
      else do {
        p \<leftarrow> report error_msg (current_token_range p) p;
        Some (is_statement_start_token (current_token p), p)
      })"

definition opens_block :: "LuaTokenKind \<Rightarrow> bool" where
  "opens_block k \<longleftrightarrow> k \<in> set [TkIf, TkWhile, TkFor, TkDo, TkFunction]"

text \<open>\<open>depth\<close> is an \<open>i32\<close> that starts at 1 and ends the loop at 0: it stays a \<open>nat\<close> here.\<close>

partial_function (option) recover_block_end_loop :: "env \<Rightarrow> nat \<Rightarrow> LuaParser \<Rightarrow> LuaParser option" where
  "recover_block_end_loop E depth p =
     (if current_token p \<noteq> TkEof \<and> depth > 0 then
        (if opens_block (current_token p) then do {
           p \<leftarrow> bump_p E p;
           recover_block_end_loop E (depth + 1) p
         }
         else if current_token p = TkEnd then do {
           p \<leftarrow> (if depth - 1 = 0 then bump_p E p else Some p);
           recover_block_end_loop E (depth - 1) p
         }
         else if current_token p = TkElseIf \<or> current_token p = TkElse then
           (if depth = 1 then Some p
            else do { p \<leftarrow> bump_p E p; recover_block_end_loop E depth p })
         else if current_token p = TkUntil then
           (if depth - 1 = 0 then Some p
            else do { p \<leftarrow> bump_p E p; recover_block_end_loop E (depth - 1) p })
         else do { p \<leftarrow> bump_p E p; recover_block_end_loop E depth p })
      else Some p)"

declare recover_block_end_loop.simps [code]

definition recover_to_block_end :: "env \<Rightarrow> LuaParser \<Rightarrow> LuaParser option" where
  "recover_to_block_end E p = recover_block_end_loop E 1 p"

definition expect_end_keyword ::
  "env \<Rightarrow> SourceRange \<Rightarrow> string \<Rightarrow> LuaParser \<Rightarrow> LuaParser option" where
  "expect_end_keyword E start_range error_msg p =
     (if current_token p = TkEnd then bump_p E p
      else do {
        p \<leftarrow> report error_msg start_range p;
        recover_to_block_end E p
      })"

definition keyword_stop :: "LuaTokenKind list \<Rightarrow> LuaTokenKind \<Rightarrow> bool" where
  "keyword_stop keywords k \<longleftrightarrow>
     k = TkEof \<or> k \<in> set keywords \<or> is_statement_start_token k"

definition recover_to_keywords :: "env \<Rightarrow> LuaTokenKind list \<Rightarrow> LuaParser \<Rightarrow> LuaParser option" where
  "recover_to_keywords E keywords p = bump_until E (keyword_stop keywords) p"

section \<open>Lists\<close>

partial_function (option) expr_list_loop :: "env \<Rightarrow> LuaParser \<Rightarrow> (bool \<times> LuaParser) option" where
  "expr_list_loop E p =
     (if current_token p = TkComma then do {
        p \<leftarrow> bump_p E p;
        (r, p) \<leftarrow> parse_expr E p;
        case r of Err _ \<Rightarrow> Some (False, p) | Ok _ \<Rightarrow> expr_list_loop E p
      }
      else Some (True, p))"

declare expr_list_loop.simps [code]

text \<open>The result of \<open>parse_expr_list_impl\<close> is only asked for \<open>is_err\<close>: \<open>True\<close> is \<open>Ok\<close>.\<close>

definition parse_expr_list_impl :: "env \<Rightarrow> LuaParser \<Rightarrow> (bool \<times> LuaParser) option" where
  "parse_expr_list_impl E p = do {
     (r, p) \<leftarrow> parse_expr E p;
     case r of Err _ \<Rightarrow> Some (False, p) | Ok _ \<Rightarrow> expr_list_loop E p
   }"

text \<open>\<open>match expect_token(p, k) { Ok(_) => {} Err(_) => p.push_error(msg at the current token) }\<close>\<close>

definition expect_or_report :: "env \<Rightarrow> LuaTokenKind \<Rightarrow> string \<Rightarrow> LuaParser \<Rightarrow> LuaParser option" where
  "expect_or_report E token msg p = do {
     (r, p) \<leftarrow> expect_token E token p;
     case r of Ok _ \<Rightarrow> Some p | Err _ \<Rightarrow> report msg (current_token_range p) p
   }"

text \<open>\<open>if parse_expr(p).is_err() { push_expr_error_lazy(p, msg); }\<close> and the same for lists.\<close>

definition list_or_report :: "env \<Rightarrow> string \<Rightarrow> LuaParser \<Rightarrow> LuaParser option" where
  "list_or_report E msg p = do {
     (ok, p) \<leftarrow> parse_expr_list_impl E p;
     if ok then Some p else push_expr_error_lazy msg p
   }"

section \<open>Local declarations\<close>

definition parse_attrib :: "env \<Rightarrow> LuaParser \<Rightarrow> (ParseResult \<times> LuaParser) option" where
  "parse_attrib E p = do {
     (m, p) \<leftarrow> mark_p Attribute p;
     let rng = current_token_range p;
     p \<leftarrow> bump_p E p;
     p \<leftarrow> expect_or_report E TkName (''expected attribute name after '' @ quoted ''<'') p;
     p \<leftarrow> expect_or_report E TkGt (''expected '' @ quoted ''>'' @ '' after attribute name'') p;
     p \<leftarrow> (if \<not> support_local_attrib (parse_config p) then
            report (''local attribute is not supported for current version: ''
                    @ level_display (level (parse_config p))) rng p
          else Some p);
     (cm, p) \<leftarrow> complete m p;
     Some (Ok cm, p)
   }"

definition parse_local_name :: "env \<Rightarrow> bool \<Rightarrow> LuaParser \<Rightarrow> (ParseResult \<times> LuaParser) option" where
  "parse_local_name E support_attrib p = do {
     (m, p) \<leftarrow> mark_p LocalName p;
     p \<leftarrow> expect_or_report E TkName (''expected variable name after '' @ quoted ''local'') p;
     (r, p) \<leftarrow> (if support_attrib \<and> current_token p = TkLt then parse_attrib E p
               else Some (Ok empty_marker, p));
     case r of
       Err e \<Rightarrow> Some (Err e, p)
     | Ok _ \<Rightarrow> do { (cm, p) \<leftarrow> complete m p; Some (Ok cm, p) }
   }"

partial_function (option) name_list_loop :: "env \<Rightarrow> bool \<Rightarrow> LuaParser \<Rightarrow> LuaParser option" where
  "name_list_loop E support_attrib p =
     (if current_token p = TkComma then do {
        p \<leftarrow> bump_p E p;
        (r, p) \<leftarrow> parse_local_name E support_attrib p;
        p \<leftarrow> (case r of
              Ok _ \<Rightarrow> Some p
            | Err _ \<Rightarrow> report (''expected variable name after '' @ quoted '','') (current_token_range p) p);
        name_list_loop E support_attrib p
      }
      else Some p)"

declare name_list_loop.simps [code]

definition parse_variable_name_list ::
  "env \<Rightarrow> bool \<Rightarrow> LuaParser \<Rightarrow> (ParseResult \<times> LuaParser) option" where
  "parse_variable_name_list E support_attrib p = do {
     (r, p) \<leftarrow> parse_local_name E support_attrib p;
     case r of
       Err e \<Rightarrow> Some (Err e, p)
     | Ok _ \<Rightarrow> do {
         p \<leftarrow> name_list_loop E support_attrib p;
         Some (Ok empty_marker, p)
       }
   }"

definition local_function :: "env \<Rightarrow> Marker \<Rightarrow> LuaParser \<Rightarrow> LuaParser option" where
  "local_function E m p = do {
     p \<leftarrow> bump_p E p;
     p \<leftarrow> set_kind m LocalFuncStat p;
     (r, p) \<leftarrow> parse_local_name E False p;
     p \<leftarrow> (case r of
           Ok _ \<Rightarrow> Some p
         | Err _ \<Rightarrow> report (''expected function name after '' @ quoted ''local function'')
                     (current_token_range p) p);
     (r, p) \<leftarrow> parse_closure_expr E p;
     case r of
       Ok _ \<Rightarrow> Some p
     | Err _ \<Rightarrow> report ''invalid function definition'' (current_token_range p) p
   }"

definition parse_local :: "env \<Rightarrow> LuaParser \<Rightarrow> (ParseResult \<times> LuaParser) option" where
  "parse_local E p = do {
     (m, p) \<leftarrow> mark_p LocalStat p;
     p \<leftarrow> bump_p E p;
     if current_token p = TkFunction then do {
       p \<leftarrow> local_function E m p;
       (_, p) \<leftarrow> if_token_bump E TkSemicolon p;
       (cm, p) \<leftarrow> complete m p;
       Some (Ok cm, p)
     }
     else if current_token p = TkName then do {
       (r, p) \<leftarrow> parse_variable_name_list E False p;
       case r of
         Err e \<Rightarrow> Some (Err e, p)
       | Ok _ \<Rightarrow> do {
           p \<leftarrow> (if is_assign_op (current_token p) then do {
                  p \<leftarrow> bump_p E p;
                  list_or_report E (''expected initialization expression after '' @ quoted ''='') p
                }
                else Some p);
           (_, p) \<leftarrow> if_token_bump E TkSemicolon p;
           (cm, p) \<leftarrow> complete m p;
           Some (Ok cm, p)
         }
     }
     else do {
       p \<leftarrow> report (''expected '' @ quoted ''function'' @ '' or variable name after '' @ quoted ''local'')
              (current_token_range p) p;
       Some (Err UnexpectedToken, p)
     }
   }"

section \<open>Control structures\<close>

definition parse_elseif_clause :: "env \<Rightarrow> LuaParser \<Rightarrow> (ParseResult \<times> LuaParser) option" where
  "parse_elseif_clause E p = do {
     (m, p) \<leftarrow> mark_p ElseIfClauseStat p;
     p \<leftarrow> bump_p E p;
     p \<leftarrow> expr_or_report E (''expected condition expression after '' @ quoted ''elseif'') p;
     (_, p) \<leftarrow> expect_keyword_with_recovery E TkThen
                (''expected '' @ quoted ''then'' @ '' after '' @ quoted ''elseif'' @ '' condition'') p;
     (r, p) \<leftarrow> block E p;
     case r of
       Err e \<Rightarrow> Some (Err e, p)
     | Ok _ \<Rightarrow> do { (cm, p) \<leftarrow> complete m p; Some (Ok cm, p) }
   }"

definition parse_else_clause :: "env \<Rightarrow> LuaParser \<Rightarrow> (ParseResult \<times> LuaParser) option" where
  "parse_else_clause E p = do {
     (m, p) \<leftarrow> mark_p ElseClauseStat p;
     p \<leftarrow> bump_p E p;
     (r, p) \<leftarrow> block E p;
     case r of
       Err e \<Rightarrow> Some (Err e, p)
     | Ok _ \<Rightarrow> do { (cm, p) \<leftarrow> complete m p; Some (Ok cm, p) }
   }"

text \<open>\<open>while p.current_token() == TkElseIf { parse_elseif_clause(p)?; }\<close>\<close>

partial_function (option) elseif_loop :: "env \<Rightarrow> LuaParser \<Rightarrow> (unit res \<times> LuaParser) option" where
  "elseif_loop E p =
     (if current_token p = TkElseIf then do {
        (r, p) \<leftarrow> parse_elseif_clause E p;
        case r of Err e \<Rightarrow> Some (Err e, p) | Ok _ \<Rightarrow> elseif_loop E p
      }
      else Some (Ok (), p))"

declare elseif_loop.simps [code]

text \<open>
  The statements that own blocks end alike: the closing keyword, an optional semicolon, and
  the completion of the node.
\<close>

definition close_stat ::
  "env \<Rightarrow> Marker \<Rightarrow> SourceRange \<Rightarrow> string \<Rightarrow> LuaParser \<Rightarrow> (ParseResult \<times> LuaParser) option" where
  "close_stat E m start_range msg p = do {
     p \<leftarrow> expect_end_keyword E start_range msg p;
     (_, p) \<leftarrow> if_token_bump E TkSemicolon p;
     (cm, p) \<leftarrow> complete m p;
     Some (Ok cm, p)
   }"

definition parse_if :: "env \<Rightarrow> LuaParser \<Rightarrow> (ParseResult \<times> LuaParser) option" where
  "parse_if E p = do {
     (m, p) \<leftarrow> mark_p IfStat p;
     let if_start_range = current_token_range p;
     p \<leftarrow> bump_p E p;
     (r, p) \<leftarrow> parse_expr E p;
     p \<leftarrow> (case r of
           Ok _ \<Rightarrow> Some p
         | Err _ \<Rightarrow> do {
             p \<leftarrow> push_expr_error_lazy (''expected condition expression after '' @ quoted ''if'') p;
             recover_to_keywords E [TkThen, TkEnd] p
           });
     (ok, p) \<leftarrow> expect_keyword_with_recovery E TkThen
                (''expected '' @ quoted ''then'' @ '' after if condition'') p;
     p \<leftarrow> (if \<not> ok then recover_to_keywords E [TkEnd, TkElseIf, TkElse] p else Some p);
     (r, p) \<leftarrow> (if current_token p \<notin> set [TkEnd, TkElseIf, TkElse, TkEof] then block E p
               else Some (Ok empty_marker, p));
     case r of
       Err e \<Rightarrow> Some (Err e, p)
     | Ok _ \<Rightarrow> do {
         (r, p) \<leftarrow> elseif_loop E p;
         case r of
           Err e \<Rightarrow> Some (Err e, p)
         | Ok _ \<Rightarrow> do {
             (r, p) \<leftarrow> (if current_token p = TkElse then parse_else_clause E p
                       else Some (Ok empty_marker, p));
             case r of
               Err e \<Rightarrow> Some (Err e, p)
             | Ok _ \<Rightarrow>
                 close_stat E m if_start_range
                   (''expected '' @ quoted ''end'' @ '' to close if statement'') p
           }
       }
   }"

text \<open>The body of a loop: skipped when recovery stopped at an \<open>end\<close> or at the end of the file.\<close>

definition loop_body :: "env \<Rightarrow> LuaParser \<Rightarrow> (ParseResult \<times> LuaParser) option" where
  "loop_body E p =
     (if current_token p \<noteq> TkEnd \<and> current_token p \<noteq> TkEof then block E p
      else Some (Ok empty_marker, p))"

definition parse_while :: "env \<Rightarrow> LuaParser \<Rightarrow> (ParseResult \<times> LuaParser) option" where
  "parse_while E p = do {
     (m, p) \<leftarrow> mark_p WhileStat p;
     let while_start_range = current_token_range p;
     p \<leftarrow> bump_p E p;
     (r, p) \<leftarrow> parse_expr E p;
     p \<leftarrow> (case r of
           Ok _ \<Rightarrow> Some p
         | Err _ \<Rightarrow> do {
             p \<leftarrow> push_expr_error_lazy (''expected condition expression after '' @ quoted ''while'') p;
             recover_to_keywords E [TkDo, TkEnd] p
           });
     (ok, p) \<leftarrow> expect_keyword_with_recovery E TkDo
                (''expected '' @ quoted ''do'' @ '' after while condition'') p;
     p \<leftarrow> (if \<not> ok then recover_to_keywords E [TkEnd] p else Some p);
     (r, p) \<leftarrow> loop_body E p;
     case r of
       Err e \<Rightarrow> Some (Err e, p)
     | Ok _ \<Rightarrow>
         close_stat E m while_start_range
           (''expected '' @ quoted ''end'' @ '' to close while statement'') p
   }"

definition parse_do :: "env \<Rightarrow> LuaParser \<Rightarrow> (ParseResult \<times> LuaParser) option" where
  "parse_do E p = do {
     (m, p) \<leftarrow> mark_p DoStat p;
     let do_start_range = current_token_range p;
     p \<leftarrow> bump_p E p;
     (r, p) \<leftarrow> block E p;
     case r of
       Err e \<Rightarrow> Some (Err e, p)
     | Ok _ \<Rightarrow>
         close_stat E m do_start_range
           (''expected '' @ quoted ''end'' @ '' after '' @ quoted ''do'' @ '' block'') p
   }"

definition numeric_for :: "env \<Rightarrow> LuaParser \<Rightarrow> LuaParser option" where
  "numeric_for E p = do {
     p \<leftarrow> bump_p E p;
     p \<leftarrow> expr_or_report E ''expected start value expression in numeric for loop'' p;
     p \<leftarrow> (if current_token p = TkComma then bump_p E p
          else report (''expected '' @ quoted '','' @ '' after start value in numeric for loop'')
                 (current_token_range p) p);
     p \<leftarrow> expr_or_report E ''expected end value expression in numeric for loop'' p;
     if current_token p = TkComma then do {
       p \<leftarrow> bump_p E p;
       expr_or_report E ''expected step value expression in numeric for loop'' p
     }
     else Some p
   }"

partial_function (option) for_names :: "env \<Rightarrow> LuaParser \<Rightarrow> LuaParser option" where
  "for_names E p =
     (if current_token p = TkComma then do {
        p \<leftarrow> bump_p E p;
        p \<leftarrow> (if current_token p = TkName then bump_p E p
             else report (''expected variable name after '' @ quoted '','') (current_token_range p) p);
        for_names E p
      }
      else Some p)"

declare for_names.simps [code]

definition generic_for :: "env \<Rightarrow> Marker \<Rightarrow> LuaParser \<Rightarrow> LuaParser option" where
  "generic_for E m p = do {
     p \<leftarrow> set_kind m ForRangeStat p;
     p \<leftarrow> for_names E p;
     p \<leftarrow> (if current_token p = TkIn then bump_p E p
          else report (''expected '' @ quoted ''in'' @ '' after variable list in generic for loop'')
                 (current_token_range p) p);
     list_or_report E (''expected iterator expression after '' @ quoted ''in'') p
   }"

definition parse_for :: "env \<Rightarrow> LuaParser \<Rightarrow> (ParseResult \<times> LuaParser) option" where
  "parse_for E p = do {
     (m, p) \<leftarrow> mark_p ForStat p;
     let for_start_range = current_token_range p;
     p \<leftarrow> bump_p E p;
     p \<leftarrow> (if current_token p = TkName then bump_p E p
          else do {
            p \<leftarrow> report (''expected variable name after '' @ quoted ''for'') (current_token_range p) p;
            recover_to_keywords E [TkAssign, TkIn, TkComma, TkDo, TkEnd] p
          });
     p \<leftarrow> (if current_token p = TkAssign then numeric_for E p
          else if current_token p = TkComma \<or> current_token p = TkIn then generic_for E m p
          else report (''expected '' @ quoted ''='' @ '' for numeric for loop or '' @ quoted '',''
                       @ '' or '' @ quoted ''in'' @ '' for generic for loop'')
                 (current_token_range p) p);
     (ok, p) \<leftarrow> expect_keyword_with_recovery E TkDo
                (''expected '' @ quoted ''do'' @ '' in for statement'') p;
     p \<leftarrow> (if \<not> ok then recover_to_keywords E [TkEnd] p else Some p);
     (r, p) \<leftarrow> loop_body E p;
     case r of
       Err e \<Rightarrow> Some (Err e, p)
     | Ok _ \<Rightarrow>
         close_stat E m for_start_range
           (''expected '' @ quoted ''end'' @ '' to close for statement'') p
   }"

definition parse_repeat :: "env \<Rightarrow> LuaParser \<Rightarrow> (ParseResult \<times> LuaParser) option" where
  "parse_repeat E p = do {
     (m, p) \<leftarrow> mark_p RepeatStat p;
     p \<leftarrow> bump_p E p;
     (r, p) \<leftarrow> block E p;
     case r of
       Err e \<Rightarrow> Some (Err e, p)
     | Ok _ \<Rightarrow> do {
         p \<leftarrow> expect_or_report E TkUntil (''expected '' @ quoted ''until'' @ '' after repeat block'') p;
         p \<leftarrow> expr_or_report E (''expected condition expression after '' @ quoted ''until'') p;
         (_, p) \<leftarrow> if_token_bump E TkSemicolon p;
         (cm, p) \<leftarrow> complete m p;
         Some (Ok cm, p)
       }
   }"

section \<open>Functions\<close>

partial_function (option) func_name_dots ::
  "env \<Rightarrow> CompleteMarker \<Rightarrow> LuaParser \<Rightarrow> (CompleteMarker \<times> LuaParser) option" where
  "func_name_dots E cm p =
     (if current_token p = TkDot then do {
        (m, p) \<leftarrow> precede cm IndexExpr p;
        p \<leftarrow> bump_p E p;
        p \<leftarrow> expect_or_report E TkName (''expected name after '' @ quoted ''.'') p;
        (cm, p) \<leftarrow> complete m p;
        func_name_dots E cm p
      }
      else Some (cm, p))"

declare func_name_dots.simps [code]

definition func_name_colon ::
  "env \<Rightarrow> CompleteMarker \<Rightarrow> LuaParser \<Rightarrow> (CompleteMarker \<times> LuaParser) option" where
  "func_name_colon E cm p =
     (if current_token p = TkColon then do {
        (m, p) \<leftarrow> precede cm IndexExpr p;
        p \<leftarrow> bump_p E p;
        p \<leftarrow> expect_or_report E TkName (''expected name after '' @ quoted '':'') p;
        complete m p
      }
      else Some (cm, p))"

definition parse_func_name :: "env \<Rightarrow> LuaParser \<Rightarrow> (ParseResult \<times> LuaParser) option" where
  "parse_func_name E p = do {
     (m, p) \<leftarrow> mark_p NameExpr p;
     (r, p) \<leftarrow> expect_token E TkName p;
     case r of
       Err _ \<Rightarrow> do {
         p \<leftarrow> report (''expected function name after '' @ quoted ''function'') (current_token_range p) p;
         Some (Err UnexpectedToken, p)
       }
     | Ok _ \<Rightarrow>
         if current_token p = TkDot \<or> current_token p = TkColon then do {
           (cm, p) \<leftarrow> complete m p;
           (cm, p) \<leftarrow> func_name_dots E cm p;
           (cm, p) \<leftarrow> func_name_colon E cm p;
           Some (Ok cm, p)
         }
         else do { (cm, p) \<leftarrow> complete m p; Some (Ok cm, p) }
   }"

definition parse_function :: "env \<Rightarrow> LuaParser \<Rightarrow> (ParseResult \<times> LuaParser) option" where
  "parse_function E p = do {
     (m, p) \<leftarrow> mark_p FuncStat p;
     p \<leftarrow> bump_p E p;
     (r, p) \<leftarrow> parse_func_name E p;
     case r of
       Err e \<Rightarrow> Some (Err e, p)
     | Ok _ \<Rightarrow> do {
         (r, p) \<leftarrow> parse_closure_expr E p;
         case r of
           Err e \<Rightarrow> Some (Err e, p)
         | Ok _ \<Rightarrow> do {
             (_, p) \<leftarrow> if_token_bump E TkSemicolon p;
             (cm, p) \<leftarrow> complete m p;
             Some (Ok cm, p)
           }
       }
   }"

section \<open>Simple statements\<close>

definition block_follow :: "LuaTokenKind \<Rightarrow> bool" where
  "block_follow k \<longleftrightarrow> k \<in> set [TkElse, TkElseIf, TkEnd, TkEof, TkUntil]"

definition parse_return :: "env \<Rightarrow> LuaParser \<Rightarrow> (ParseResult \<times> LuaParser) option" where
  "parse_return E p = do {
     (m, p) \<leftarrow> mark_p ReturnStat p;
     p \<leftarrow> bump_p E p;
     p \<leftarrow> (if \<not> block_follow (current_token p) \<and> current_token p \<noteq> TkSemicolon
          then list_or_report E ''expected expression in return statement'' p else Some p);
     (_, p) \<leftarrow> if_token_bump E TkSemicolon p;
     (cm, p) \<leftarrow> complete m p;
     Some (Ok cm, p)
   }"

definition parse_break :: "env \<Rightarrow> LuaParser \<Rightarrow> (ParseResult \<times> LuaParser) option" where
  "parse_break E p = do {
     (m, p) \<leftarrow> mark_p BreakStat p;
     p \<leftarrow> bump_p E p;
     (_, p) \<leftarrow> if_token_bump E TkSemicolon p;
     (cm, p) \<leftarrow> complete m p;
     Some (Ok cm, p)
   }"

definition parse_goto :: "env \<Rightarrow> LuaParser \<Rightarrow> (ParseResult \<times> LuaParser) option" where
  "parse_goto E p = do {
     (m, p) \<leftarrow> mark_p GotoStat p;
     p \<leftarrow> bump_p E p;
     p \<leftarrow> expect_or_report E TkName (''expected label name after '' @ quoted ''goto'') p;
     (_, p) \<leftarrow> if_token_bump E TkSemicolon p;
     (cm, p) \<leftarrow> complete m p;
     Some (Ok cm, p)
   }"

definition parse_empty_stat :: "env \<Rightarrow> LuaParser \<Rightarrow> (ParseResult \<times> LuaParser) option" where
  "parse_empty_stat E p = do {
     (m, p) \<leftarrow> mark_p EmptyStat p;
     p \<leftarrow> bump_p E p;
     (cm, p) \<leftarrow> complete m p;
     Some (Ok cm, p)
   }"

definition parse_label_stat :: "env \<Rightarrow> LuaParser \<Rightarrow> (ParseResult \<times> LuaParser) option" where
  "parse_label_stat E p = do {
     (m, p) \<leftarrow> mark_p LabelStat p;
     p \<leftarrow> bump_p E p;
     p \<leftarrow> expect_or_report E TkName (''expected label name after '' @ quoted ''goto'') p;
     p \<leftarrow> expect_or_report E TkDbColon (''expected '' @ quoted ''::'' @ '' after label name'') p;
     (cm, p) \<leftarrow> complete m p;
     Some (Ok cm, p)
   }"

section \<open>Assignments and calls\<close>

definition is_call_kind :: "LuaSyntaxKind \<Rightarrow> bool" where
  "is_call_kind k \<longleftrightarrow>
     k \<in> set [CallExpr, AssertCallExpr, ErrorCallExpr, RequireCallExpr, TypeCallExpr,
              SetmetatableCallExpr]"

definition is_lvalue_kind :: "LuaSyntaxKind \<Rightarrow> bool" where
  "is_lvalue_kind k \<longleftrightarrow> k = NameExpr \<or> k = IndexExpr"

definition invalid_lhs :: string where
  "invalid_lhs = ''invalid left-hand side in assignment (expected variable or table index)''"

partial_function (option) lvalue_loop :: "env \<Rightarrow> LuaParser \<Rightarrow> (unit res \<times> LuaParser) option" where
  "lvalue_loop E p =
     (if current_token p = TkComma then do {
        p \<leftarrow> bump_p E p;
        (r, p) \<leftarrow> parse_expr E p;
        case r of
          Ok cm \<Rightarrow>
            if \<not> is_lvalue_kind (cm_kind cm) then do {
              p \<leftarrow> report invalid_lhs (current_token_range p) p;
              Some (Err UnexpectedToken, p)
            }
            else lvalue_loop E p
        | Err _ \<Rightarrow> do {
            p \<leftarrow> report (''expected variable after '' @ quoted '','' @ '' in assignment'')
                   (current_token_range p) p;
            lvalue_loop E p
          }
      }
      else Some (Ok (), p))"

declare lvalue_loop.simps [code]

definition parse_assign_or_expr_or_global_stat ::
  "env \<Rightarrow> LuaParser \<Rightarrow> (ParseResult \<times> LuaParser) option" where
  "parse_assign_or_expr_or_global_stat E p = do {
     (m, p) \<leftarrow> mark_p AssignStat p;
     let rng = current_token_range p;
     (r, p) \<leftarrow> parse_expr E p;
     case r of
       Err e \<Rightarrow> do {
         p \<leftarrow> report ''expected expression in assignment or statement'' rng p;
         Some (Err e, p)
       }
     | Ok cm \<Rightarrow>
         if is_call_kind (cm_kind cm) then do {
           p \<leftarrow> set_kind m CallExprStat p;
           (_, p) \<leftarrow> if_token_bump E TkSemicolon p;
           (cm, p) \<leftarrow> complete m p;
           Some (Ok cm, p)
         }
         else if \<not> is_lvalue_kind (cm_kind cm) then do {
           p \<leftarrow> report invalid_lhs rng p;
           Some (Err UnexpectedToken, p)
         }
         else do {
           (r, p) \<leftarrow> lvalue_loop E p;
           case r of
             Err e \<Rightarrow> Some (Err e, p)
           | Ok _ \<Rightarrow>
               if is_assign_op (current_token p) then do {
                 p \<leftarrow> bump_p E p;
                 p \<leftarrow> list_or_report E
                        (''expected expression after '' @ quoted ''='' @ '' in assignment'') p;
                 (_, p) \<leftarrow> if_token_bump E TkSemicolon p;
                 (cm, p) \<leftarrow> complete m p;
                 Some (Ok cm, p)
               }
               else do {
                 p \<leftarrow> report (''expected '' @ quoted ''=''
                          @ '' for assignment or this is an incomplete statement'')
                        (previous_token_range p) p;
                 Some (Err UnexpectedToken, p)
               }
         }
   }"

section \<open>Statement lists, blocks, the chunk\<close>

definition parse_stat :: "env \<Rightarrow> LuaParser \<Rightarrow> (ParseResult \<times> LuaParser) option" where
  "parse_stat E p =
     (let k = current_token p in
      if k = TkIf then parse_if E p
      else if k = TkWhile then parse_while E p
      else if k = TkFor then parse_for E p
      else if k = TkFunction then parse_function E p
      else if k = TkLocal then parse_local E p
      else if k = TkReturn then parse_return E p
      else if k = TkBreak then parse_break E p
      else if k = TkDo then parse_do E p
      else if k = TkRepeat then parse_repeat E p
      else if k = TkGoto then parse_goto E p
      else if k = TkDbColon then parse_label_stat E p
      else if k = TkSemicolon then parse_empty_stat E p
      else parse_assign_or_expr_or_global_stat E p)"

text \<open>\<open>for _ in 0..n { p.push_node_end(); }\<close>\<close>

fun push_node_ends :: "nat \<Rightarrow> LuaParser \<Rightarrow> LuaParser option" where
  "push_node_ends 0 p = Some p"
| "push_node_ends (Suc n) p = do { p \<leftarrow> push_node_end p; push_node_ends n p }"

definition stat_recovery_stop :: "LuaTokenKind \<Rightarrow> bool" where
  "stat_recovery_stop k \<longleftrightarrow> k = TkEof \<or> block_follow k \<or> is_statement_start_token k"

text \<open>
  A failed statement leaves markers open; their ends are pushed here. The subtraction of the
  two levels is on \<open>usize\<close>: a panic when the level has dropped.
\<close>

partial_function (option) parse_stats :: "env \<Rightarrow> LuaParser \<Rightarrow> LuaParser option" where
  "parse_stats E p =
     (if block_follow (current_token p) then Some p
      else do {
        let lvl = mark_level p;
        let index = token_index p;
        (r, p) \<leftarrow> parse_stat E p;
        case r of
          Ok _ \<Rightarrow> parse_stats E p
        | Err _ \<Rightarrow>
            if mark_level p < lvl then None
            else do {
              p \<leftarrow> push_node_ends (mark_level p - lvl) p;
              p \<leftarrow> bump_until E stat_recovery_stop p;
              let can_continue = (current_token p \<noteq> TkEof \<and> \<not> block_follow (current_token p)
                                  \<and> is_statement_start_token (current_token p));
              if can_continue \<and> token_index p \<noteq> index then parse_stats E p else Some p
            }
      })"

declare parse_stats.simps [code]

definition parse_block ::
  "env \<Rightarrow> nat option \<Rightarrow> LuaParser \<Rightarrow> (ParseResult \<times> LuaParser) option" where
  "parse_block E remaining p =
     (if parser_stack_exhausted remaining then do {
        p \<leftarrow> report ''block is too deeply nested'' (current_token_range p) p;
        Some (Err UnexpectedToken, p)
      }
      else do {
        (m, p) \<leftarrow> mark_p Block p;
        p \<leftarrow> parse_stats E p;
        (cm, p) \<leftarrow> complete m p;
        Some (Ok cm, p)
      })"

definition unexpected_token_error :: "LuaTokenKind \<Rightarrow> string" where
  "unexpected_token_error k =
     (if k = TkRightBrace then
        ''unexpected '' @ quoted ''}'' @ '' - missing opening '' @ quoted ''{'' @ '' or extra closing brace''
      else if k = TkRightParen then
        ''unexpected '' @ quoted '')'' @ '' - missing opening '' @ quoted ''('' @ '' or extra closing parenthesis''
      else if k = TkRightBracket then
        ''unexpected '' @ quoted '']'' @ '' - missing opening '' @ quoted ''['' @ '' or extra closing bracket''
      else if k = TkElse then
        ''unexpected '' @ quoted ''else'' @ '' - missing corresponding '' @ quoted ''if'' @ '' statement''
      else if k = TkElseIf then
        ''unexpected '' @ quoted ''elseif'' @ '' - missing corresponding '' @ quoted ''if'' @ '' statement''
      else if k = TkEnd then
        ''unexpected '' @ quoted ''end'' @ '' - missing corresponding block statement''
      else if k = TkUntil then
        ''unexpected '' @ quoted ''until'' @ '' - missing corresponding '' @ quoted ''repeat'' @ '' statement''
      else if k = TkThen then
        ''unexpected '' @ quoted ''then'' @ '' - missing corresponding '' @ quoted ''if'' @ '' statement''
      else if k = TkDo then
        ''unexpected '' @ quoted ''do'' @ '' - missing corresponding loop statement''
      else ''unexpected token '' @ quoted (token_kind_display k) @ '' - expected statement'')"

partial_function (option) chunk_loop :: "env \<Rightarrow> LuaParser \<Rightarrow> LuaParser option" where
  "chunk_loop E p =
     (if current_token p = TkEof then Some p
      else do {
        let consume_count = token_index p;
        p \<leftarrow> parse_stats E p;
        if token_index p = consume_count then do {
          let error_range = current_token_range p;
          (m, p) \<leftarrow> mark_p UnknownStat p;
          p \<leftarrow> report (unexpected_token_error (current_token p)) error_range p;
          p \<leftarrow> bump_p E p;
          (_, p) \<leftarrow> complete m p;
          chunk_loop E p
        }
        else chunk_loop E p
      })"

declare chunk_loop.simps [code]

definition parse_chunk :: "env \<Rightarrow> LuaParser \<Rightarrow> LuaParser option" where
  "parse_chunk E p = do {
     (m, p) \<leftarrow> mark_p Block p;
     p \<leftarrow> init (doc_parse E) p;
     p \<leftarrow> chunk_loop E p;
     (_, p) \<leftarrow> complete m p;
     Some p
   }"

section \<open>The recursive knot\<close>

text \<open>
  \<open>env_at dp rs n\<close> lets expressions and blocks nest \<open>n\<close> deep; deeper calls do not return. What
  the stack query answers may differ from call to call: \<open>rs n p\<close> is its answer in a call of
  nesting budget \<open>n\<close> in parser state \<open>p\<close>. Every nested call is made after a token has been
  consumed, so a budget above the number of tokens is never used up, whatever \<open>rs\<close> answers.
\<close>

primrec env_at :: "doc_parser \<Rightarrow> (nat \<Rightarrow> LuaParser \<Rightarrow> nat option) \<Rightarrow> nat \<Rightarrow> env" where
  "env_at dp rs 0 = \<lparr>doc_parse = dp, sub_expr = \<lambda>_ _. None, block = \<lambda>_. None\<rparr>"
| "env_at dp rs (Suc n) =
     \<lparr>doc_parse = dp,
      sub_expr = \<lambda>limit p. parse_sub_expr (env_at dp rs n) (rs n p) limit p,
      block = \<lambda>p. parse_block (env_at dp rs n) (rs n p) p\<rparr>"

end
