(* ===== verification/Stat_Safe.thy ===== *)
theory Stat_Safe
  imports Expr_Safe Grammar_Stat
begin

text \<open>
  Statements, blocks and the chunk keep the parser's invariant; the recursive knot satisfies
  the contract \<open>grammar_env\<close> at every nesting budget; the chunk parser returns, at the end of
  the input, whatever the input is.
\<close>

section \<open>Failed statements\<close>

text \<open>A failed statement leaves at least one of its markers open, and has reported an error.\<close>

definition failed :: "LuaParser \<Rightarrow> LuaParser \<Rightarrow> bool" where
  "failed p p' \<longleftrightarrow> good p' \<and> \<not> clean p' \<and> same_input p p' \<and> token_index p \<le> token_index p' \<and>
     (\<exists>xs. errors p' = errors p @ xs) \<and> mark_level p < mark_level p' \<and>
     (\<exists>es1 es2. events p' = es1 @ es2 \<and> list_all2 sim (events p) es1)"

fun stat_post :: "LuaParser \<Rightarrow> ParseResult \<times> LuaParser \<Rightarrow> bool" where
  "stat_post p (Ok _, p') = (good p' \<and> runs p p' \<and> left_tokens p' < left_tokens p)"
| "stat_post p (Err _, p') = failed p p'"

lemma opened_prefix:
  assumes "opened m k q p"
  shows "\<exists>a b. events p = a @ b \<and> list_all2 sim (events q) a"
  using assms by (rule opened_events) blast

lemma opened_failed:
  assumes "opened m k q p" and "\<not> clean p"
  shows "failed q p"
  using opened_prefix [OF assms(1)] opened_same [OF assms(1)] opened_good [OF assms(1)] assms(2)
  unfolding failed_def by blast

lemma failed_trans:
  assumes op: "opened m k q p" and f: "failed p p'"
  shows "failed q p'"
proof -
  from opened_prefix [OF op] obtain a b where a: "events p = a @ b" "list_all2 sim (events q) a" by blast
  from f obtain es1 es2 where es: "events p' = es1 @ es2" "list_all2 sim (a @ b) es1"
    by (auto simp: failed_def a)
  then obtain c d where c: "es1 = c @ d" "list_all2 sim a c" by (auto simp: list_all2_append1)
  have "\<exists>es1 es2. events p' = es1 @ es2 \<and> list_all2 sim (events q) es1"
    using sims_trans [OF a(2) c(2)] es(1) c(1) by auto
  with opened_same [OF op] f show ?thesis unfolding failed_def same_input_def by auto
qed

lemma push_node_ends_ok:
  assumes "good p" "\<not> clean p" "k \<le> mark_level p"
  shows "\<exists>p'. push_node_ends k p = Some p' \<and> good p' \<and> tokens p' = tokens p \<and>
    origin_text p' = origin_text p \<and> parse_config p' = parse_config p \<and> token_index p' = token_index p \<and>
    current_token p' = current_token p \<and> errors p' = errors p \<and> mark_level p' = mark_level p - k \<and>
    events p' = events p @ replicate k NodeEnd"
  using assms
proof (induction k arbitrary: p)
  case (Suc k)
  then obtain q where q: "push_node_end p = Some q" "good q" "tokens q = tokens p"
    "origin_text q = origin_text p" "parse_config q = parse_config p" "token_index q = token_index p"
    "current_token q = current_token p" "errors q = errors p" "mark_level q = mark_level p - 1"
    "events q = events p @ [NodeEnd]"
    using push_node_end_good [of p] by auto
  with Suc.IH [of q] Suc.prems show ?case by (auto simp: replicate_app_Cons_same)
qed simp

lemma failed_recovers:
  assumes "failed p p'"
  shows "\<exists>q. push_node_ends (mark_level p' - mark_level p) p' = Some q \<and> good q \<and> runs p q \<and>
    token_index q = token_index p' \<and> current_token q = current_token p' \<and> \<not> clean q"
proof -
  have f: "good p'" "\<not> clean p'" "mark_level p < mark_level p'" using assms by (simp_all add: failed_def)
  then obtain k where k: "mark_level p' - mark_level p = Suc k" by (metis Suc_diff_Suc)
  then have "Suc k \<le> mark_level p'" by linarith
  from push_node_ends_ok [OF f(1,2) this] obtain q where
    q: "push_node_ends (Suc k) p' = Some q" "good q" "tokens q = tokens p'"
    "origin_text q = origin_text p'" "parse_config q = parse_config p'" "token_index q = token_index p'"
    "current_token q = current_token p'" "errors q = errors p'" "mark_level q = mark_level p' - Suc k"
    "events q = events p' @ replicate (Suc k) NodeEnd" by blast
  have "solid (events q)" unfolding q(10) replicate_Suc replicate_append_same [symmetric] append.assoc [symmetric]
    by (rule solid_snoc_end)
  moreover from assms obtain es1 es2 where "events p' = es1 @ es2" "list_all2 sim (events p) es1"
    by (auto simp: failed_def)
  then have "extends p q" using q(8,10) f(2) unfolding extends_def by auto
  ultimately have "runs p q" using assms q k f(3) by (auto simp: runs_def failed_def same_input_def)
  with q f(2) k show ?thesis by auto
qed

section \<open>Recovery\<close>

lemma keyword_stop_eof [simp]: "keyword_stop ks TkEof"
  by (simp add: keyword_stop_def)

lemma stat_stop_eof [simp]: "stat_recovery_stop TkEof"
  by (simp add: stat_recovery_stop_def)

lemma opens_block_eof [simp]: "\<not> opens_block TkEof"
  by (simp add: opens_block_def)

lemma recover_loop_ok: "good p \<Longrightarrow> wp (recover_block_end_loop E d p) (stays p)"
proof (induction "2 * left_tokens p + d" arbitrary: p d rule: less_induct)
  case less
  have again: "run p0 ms q (recover_block_end_loop E d' q) Q"
    if "2 * left_tokens q + d' < 2 * left_tokens p + d" and "\<And>q'. parsing p0 ms q' \<Longrightarrow> Q q'" for p0 ms q d' Q
    by (rule run_stays_tail [OF less.hyps]) (use that in auto)
  show ?case
    by (rule run_start [OF less.prems], subst recover_block_end_loop.simps)
      ((intro run_rules again | simp only: run_simps | (auto simp: stays_def onward_def; fail)[1])+)
qed

lemma expect_end_ok: "good p \<Longrightarrow> wp (expect_end_keyword E rng msg p) (advances p)"
  unfolding expect_end_keyword_def recover_to_block_end_def
  by (rule run_start, assumption)
    ((intro run_rules run_stays_tail [OF recover_loop_ok] | simp only: run_simps |
      (auto simp: advances_def; fail)[1])+)

lemma expect_or_report_ok:
  "good p \<Longrightarrow> k \<noteq> TkEof \<Longrightarrow> wp (expect_or_report E k msg p) (advances p)"
  unfolding expect_or_report_def
  by (rule run_start, assumption)
    ((intro run_rules | simp only: run_simps | (auto simp: advances_def; fail)[1])+)

lemma run_expect_keyword:
  assumes "k \<noteq> TkEof"
    and "\<And>r p'. left_tokens p' \<le> left_tokens p \<Longrightarrow> (clean p' \<Longrightarrow> clean p) \<Longrightarrow>
      (solid (events p) \<Longrightarrow> solid (events p')) \<Longrightarrow> run p0 ms p' (f (r, p')) Q"
  shows "run p0 ms p (expect_keyword_with_recovery E k msg p \<bind> f) Q"
  unfolding expect_keyword_with_recovery_def
  by ((intro run_rules | simp only: run_simps | (auto simp: assms(1) intro!: assms(2); fail)[1])+)

lemma run_push_expr_error:
  assumes "\<And>p'. left_tokens p' = left_tokens p \<Longrightarrow> current_token p' = current_token p \<Longrightarrow>
      token_index p' = token_index p \<Longrightarrow> \<not> clean p' \<Longrightarrow> (solid (events p) \<Longrightarrow> solid (events p')) \<Longrightarrow>
      run p0 ms p' (f p') Q"
  shows "run p0 ms p (push_expr_error_lazy msg p \<bind> f) Q"
  unfolding push_expr_error_lazy_def by (intro run_report) (use assms in blast)

lemmas stat_steps = run_advances_bind [OF expect_end_ok] run_advances_bind [OF expect_or_report_ok]
  run_expect_keyword run_push_expr_error

section \<open>Statements, given the recursive calls\<close>

context grammar_env
begin

lemma expr_list_loop_ok:
  "good p \<Longrightarrow> 2 * left_tokens p \<le> n \<Longrightarrow> wp (expr_list_loop E p)
    (\<lambda>(ok, p'). good p' \<and> runs p p' \<and> (\<not> ok \<longrightarrow> \<not> clean p'))"
proof (induction "left_tokens p" arbitrary: p rule: less_induct)
  case less
  let ?P = "\<lambda>p (ok, p'). good p' \<and> runs p p' \<and> (\<not> ok \<longrightarrow> \<not> clean p')"
  have again: "run p [] q (expr_list_loop E q) (?P p)" if "left_tokens q < left_tokens p" for q
    by (rule run_tail [where st = snd and X = "\<lambda>x. \<not> fst x \<longrightarrow> \<not> clean (snd x)"])
      (use that less.prems in \<open>auto intro!: wp_conseq [OF less.hyps]\<close>)
  show ?case
    by (rule run_start [OF less.prems(1)], subst expr_list_loop.simps)
      ((intro run_rules env_rules again | simp only: run_simps |
        (use less.prems in \<open>auto; fail\<close>)[1])+)
qed

lemma run_expr_list_loop:
  assumes "2 * left_tokens p \<le> n"
    and "\<And>ok p'. left_tokens p' \<le> left_tokens p \<Longrightarrow> (clean p' \<Longrightarrow> clean p) \<Longrightarrow> (\<not> ok \<Longrightarrow> \<not> clean p') \<Longrightarrow>
      (solid (events p) \<Longrightarrow> solid (events p')) \<Longrightarrow> parsing p0 ms p' \<Longrightarrow> Q (ok, p')"
  shows "run p0 ms p (expr_list_loop E p) Q"
  by (rule run_tail [where st = snd and X = "\<lambda>x. \<not> fst x \<longrightarrow> \<not> clean (snd x)"])
    (auto intro!: assms wp_conseq [OF expr_list_loop_ok])

lemma expr_list_ok:
  assumes "good p" and "2 * left_tokens p < n"
  shows "wp (parse_expr_list_impl E p) (\<lambda>(ok, p'). good p' \<and> runs p p' \<and>
    (clean p' \<longrightarrow> ok \<and> left_tokens p' < left_tokens p))"
  unfolding parse_expr_list_impl_def
  by (rule run_start [OF assms(1)])
    ((intro run_rules env_rules run_expr_list_loop | simp only: run_simps |
      (use assms in \<open>auto; fail\<close>)[1])+)

lemma run_expr_list:
  assumes "2 * left_tokens p < n"
    and "\<And>ok p'. left_tokens p' \<le> left_tokens p \<Longrightarrow> (clean p' \<Longrightarrow> ok \<and> clean p \<and> left_tokens p' < left_tokens p) \<Longrightarrow>
      (solid (events p) \<Longrightarrow> solid (events p')) \<Longrightarrow> run p0 ms p' (f (ok, p')) Q"
  shows "run p0 ms p (parse_expr_list_impl E p \<bind> f) Q"
  by (rule run_bind [where st = snd and X = "\<lambda>x. clean (snd x) \<longrightarrow> fst x \<and> left_tokens (snd x) < left_tokens p"])
    (auto intro!: assms wp_conseq [OF expr_list_ok])

lemma list_or_report_ok:
  assumes "good p" and "2 * left_tokens p < n"
  shows "wp (list_or_report E msg p) (advances p)"
  unfolding list_or_report_def push_expr_error_lazy_def
  by (rule run_start [OF assms(1)])
    ((intro run_rules run_expr_list | simp only: run_simps |
      (use assms in \<open>auto simp: advances_def; fail\<close>)[1])+)

lemmas list_rules = run_advances_bind [OF list_or_report_ok] run_advances_tail [OF list_or_report_ok]

lemma attrib_ok:
  assumes "good p" and "current_token p = TkLt"
  shows "wp (parse_attrib E p) (\<lambda>(r, p'). (\<exists>cm. r = Ok cm) \<and> good p' \<and> runs p p')"
  unfolding parse_attrib_def Let_def
  by (rule run_start [OF assms(1)])
    ((intro run_rules stat_steps | simp only: run_simps |
      (use assms in \<open>auto simp: onward_def; fail\<close>)[1])+)

lemma run_attrib:
  assumes "current_token p = TkLt"
    and "\<And>cm p'. left_tokens p' \<le> left_tokens p \<Longrightarrow> (clean p' \<Longrightarrow> clean p) \<Longrightarrow>
      (solid (events p) \<Longrightarrow> solid (events p')) \<Longrightarrow> run p0 ms p' (f (Ok cm, p')) Q"
  shows "run p0 ms p (parse_attrib E p \<bind> f) Q"
  by (rule run_bind [where st = snd and X = "\<lambda>x. \<exists>cm. fst x = Ok cm"])
    (use assms(1) in \<open>auto intro!: assms(2) wp_conseq [OF attrib_ok]\<close>)

text \<open>A name list item always succeeds: a missing name is reported and leaves an empty node.\<close>

lemma local_name_ok:
  assumes "good p"
  shows "wp (parse_local_name E attrib p) (\<lambda>(r, p'). (\<exists>cm. r = Ok cm) \<and> node_post p (r, p'))"
  unfolding parse_local_name_def
  by (rule run_start [OF assms(1)])
    ((intro run_rules stat_steps run_attrib | simp only: run_simps | (auto simp: onward_def; fail)[1])+)

lemma run_local_name:
  assumes "\<And>cm p'. left_tokens p' \<le> left_tokens p \<Longrightarrow> (clean p' \<Longrightarrow> clean p) \<Longrightarrow>
      (clean p' \<Longrightarrow> left_tokens p' < left_tokens p) \<Longrightarrow>
      (solid (events p) \<Longrightarrow> solid (events p')) \<Longrightarrow> run p0 ms p' (f (Ok cm, p')) Q"
  shows "run p0 ms p (parse_local_name E attrib p \<bind> f) Q"
  by (rule run_bind [where st = snd and X = "\<lambda>x. (\<exists>cm. fst x = Ok cm) \<and>
        (clean (snd x) \<longrightarrow> left_tokens (snd x) < left_tokens p)"])
    (auto intro!: assms wp_conseq [OF local_name_ok] simp: node_post_iff)

lemma name_list_loop_ok: "good p \<Longrightarrow> wp (name_list_loop E attrib p) (stays p)"
proof (induction "left_tokens p" arbitrary: p rule: less_induct)
  case less
  have again: "run p0 ms q (name_list_loop E attrib q) Q"
    if "left_tokens q < left_tokens p" and "\<And>q'. parsing p0 ms q' \<Longrightarrow> Q q'" for p0 ms q Q
    by (rule run_stays_tail [OF less.hyps]) (use that in auto)
  show ?case
    by (rule run_start [OF less.prems], subst name_list_loop.simps)
      ((intro run_rules run_local_name again | simp only: run_simps | (auto simp: stays_def onward_def; fail)[1])+)
qed

lemma variable_list_ok:
  assumes "good p"
  shows "wp (parse_variable_name_list E attrib p) (\<lambda>(r, p'). (\<exists>cm. r = Ok cm) \<and> node_post p (r, p'))"
  unfolding parse_variable_name_list_def
  by (rule run_start [OF assms(1)])
    ((intro run_rules run_local_name run_stays_bind [OF name_list_loop_ok] | simp only: run_simps |
      (auto; fail)[1])+)

lemma run_variable_list:
  assumes "\<And>cm p'. left_tokens p' \<le> left_tokens p \<Longrightarrow> (clean p' \<Longrightarrow> clean p) \<Longrightarrow>
      (clean p' \<Longrightarrow> left_tokens p' < left_tokens p) \<Longrightarrow>
      (solid (events p) \<Longrightarrow> solid (events p')) \<Longrightarrow> run p0 ms p' (f (Ok cm, p')) Q"
  shows "run p0 ms p (parse_variable_name_list E attrib p \<bind> f) Q"
  by (rule run_bind [where st = snd and X = "\<lambda>x. (\<exists>cm. fst x = Ok cm) \<and>
        (clean (snd x) \<longrightarrow> left_tokens (snd x) < left_tokens p)"])
    (auto intro!: assms wp_conseq [OF variable_list_ok] simp: node_post_iff)

text \<open>The two forms of \<open>local\<close>, with the statement's marker open.\<close>

lemma run_local_function:
  assumes "current_token p = TkFunction" and "2 * left_tokens p \<le> n" and "k \<noteq> Block"
    and "\<And>p'. left_tokens p' < left_tokens p \<Longrightarrow> (clean p' \<Longrightarrow> clean p) \<Longrightarrow> run p0 ((m, k, q) # ms) p' (f p') Q"
  shows "run p0 ((m, k, q) # ms) p (local_function E m p \<bind> f) Q"
  unfolding local_function_def
  by ((intro run_rules run_local_name run_node_bind [OF closure_ok] | simp only: run_simps |
      (use assms(1-3) in \<open>auto simp: onward_def intro!: assms(4); fail\<close>)[1])+)

lemma is_assign_op_eof [simp]: "\<not> is_assign_op TkEof"
  by (simp add: is_assign_op_def)

lemma parse_local_ok:
  assumes "good p" and "current_token p = TkLocal" and "2 * left_tokens p \<le> n"
  shows "wp (parse_local E p) (stat_post p)"
  unfolding parse_local_def
  by (rule run_start [OF assms(1)])
    ((intro run_rules run_local_function run_variable_list list_rules | simp only: run_simps |
      (use assms in \<open>auto simp: onward_def intro: opened_failed; fail\<close>)[1])+)

subsection \<open>Control structures\<close>

lemma elseif_ok:
  assumes "good p" and "current_token p = TkElseIf" and "2 * left_tokens p \<le> n"
  shows "wp (parse_elseif_clause E p) (stat_post p)"
  unfolding parse_elseif_clause_def
  by (rule run_start [OF assms(1)])
    ((intro run_rules env_rules expr_or_report_rules stat_steps | simp only: run_simps |
      (use assms in \<open>auto intro: opened_failed; fail\<close>)[1])+)

lemma else_ok:
  assumes "good p" and "current_token p = TkElse" and "2 * left_tokens p \<le> n"
  shows "wp (parse_else_clause E p) (stat_post p)"
  unfolding parse_else_clause_def
  by (rule run_start [OF assms(1)])
    ((intro run_rules env_rules stat_steps | simp only: run_simps |
      (use assms in \<open>auto intro: opened_failed; fail\<close>)[1])+)

text \<open>
  A clause that fails ends the statement: what follows it only passes the failure on.
\<close>

lemma run_stat_bind:
  assumes "good p \<Longrightarrow> wp c (stat_post p)"
    and "\<And>r p'. left_tokens p' < left_tokens p \<Longrightarrow> (clean p' \<Longrightarrow> clean p) \<Longrightarrow>
      (solid (events p) \<Longrightarrow> solid (events p')) \<Longrightarrow> run p0 ms p' (f (Ok r, p')) Q"
    and "\<And>e p'. parsing p0 ms p \<Longrightarrow> failed p p' \<Longrightarrow> wp (f (Err e, p')) Q"
  shows "run p0 ms p (c \<bind> f) Q"
  unfolding run_def
proof
  assume ps: "parsing p0 ms p"
  have "wp c (stat_post p)" by (rule assms(1) [OF parsing_good [OF ps]])
  then show "wp (c \<bind> f) Q"
  proof (simp, elim wp_conseq)
    fix x assume x: "stat_post p x"
    obtain r p' where rp: "x = (r, p')" by (cases x)
    show "wp (f x) Q"
    proof (cases r)
      case (Ok cm)
      with x rp assms(2) [of p' cm] parsing_runs [OF ps, of p'] runs_clean [of p p']
        runs_solid [of p p'] show ?thesis by (simp add: run_def)
    next
      case (Err e)
      with x rp assms(3) [OF ps, of p' e] show ?thesis by simp
    qed
  qed
qed

lemma elseif_loop_ok:
  "good p \<Longrightarrow> 2 * left_tokens p \<le> n \<Longrightarrow> wp (elseif_loop E p)
    (\<lambda>(r, p'). case r of Ok _ \<Rightarrow> good p' \<and> runs p p' | Err _ \<Rightarrow> \<exists>q. good q \<and> runs p q \<and> failed q p')"
proof (induction "left_tokens p" arbitrary: p rule: less_induct)
  case less
  let ?P = "\<lambda>p (r, p'). case r of Ok _ \<Rightarrow> good p' \<and> runs p p' | Err _ \<Rightarrow> \<exists>q. good q \<and> runs p q \<and> failed q p'"
  have again: "run p [] q (elseif_loop E q) (?P p)" if "left_tokens q < left_tokens p" for q
    unfolding run_def
    using that less.prems less.hyps [of q]
    by (auto elim!: wp_conseq split: res.splits) (blast intro: runs_trans)+
  show ?case
    by (rule run_start [OF less.prems(1)], subst elseif_loop.simps)
      ((intro run_rules run_stat_bind [OF elseif_ok] again | simp only: run_simps wp_Some |
        (use less.prems in \<open>auto; fail\<close>)[1])+)
qed

lemma run_elseif_loop:
  assumes "2 * left_tokens p \<le> n"
    and "\<And>p'. left_tokens p' \<le> left_tokens p \<Longrightarrow> (clean p' \<Longrightarrow> clean p) \<Longrightarrow>
      (solid (events p) \<Longrightarrow> solid (events p')) \<Longrightarrow> run p0 ms p' (f (Ok (), p')) Q"
    and "\<And>e q p'. parsing p0 ms q \<Longrightarrow> failed q p' \<Longrightarrow> wp (f (Err e, p')) Q"
  shows "run p0 ms p (elseif_loop E p \<bind> f) Q"
  unfolding run_def
proof
  assume ps: "parsing p0 ms p"
  show "wp (elseif_loop E p \<bind> f) Q"
  proof (simp, rule wp_conseq [OF elseif_loop_ok [OF parsing_good [OF ps] assms(1)]])
    fix x :: "unit res \<times> LuaParser"
    assume x: "case x of (r, p') \<Rightarrow> case r of Ok _ \<Rightarrow> good p' \<and> runs p p' | Err _ \<Rightarrow> \<exists>q. good q \<and> runs p q \<and> failed q p'"
    obtain r p' where rp: "x = (r, p')" by (cases x)
    show "wp (f x) Q"
    proof (cases r)
      case (Ok u)
      with x rp assms(2) [of p'] parsing_runs [OF ps, of p'] runs_left [of p p'] runs_clean [of p p']
        runs_solid [of p p'] show ?thesis by (simp add: run_def)
    next
      case (Err e)
      with x rp obtain q where "good q" "runs p q" "failed q p'" by auto
      with assms(3) [OF parsing_runs [OF ps]] rp Err show ?thesis by blast
    qed
  qed
qed

lemma run_close_stat:
  assumes "clean p \<Longrightarrow> left_tokens p < left_tokens q"
    and "\<And>cm p'. left_tokens p' \<le> left_tokens p \<Longrightarrow> parsing p0 ms p' \<Longrightarrow> Q (Ok cm, p')"
  shows "run p0 ((m, k, q) # ms) p (close_stat E m rng msg p) Q"
  unfolding close_stat_def
  by ((intro run_rules stat_steps | simp only: run_simps |
      (use assms(1) in \<open>auto intro!: assms(2); fail\<close>)[1])+)

lemma failed_parsing: "parsing p [(m, k, p)] q \<Longrightarrow> failed q p' \<Longrightarrow> failed p p'"
  by (auto intro: failed_trans)

lemma parse_if_ok:
  assumes "good p" and "current_token p = TkIf" and "2 * left_tokens p \<le> n"
  shows "wp (parse_if E p) (stat_post p)"
  unfolding parse_if_def Let_def recover_to_keywords_def
  by (rule run_start [OF assms(1)])
    ((intro run_rules env_rules stat_steps run_elseif_loop run_stat_bind [OF else_ok] run_close_stat |
      simp only: run_simps wp_Some |
      (use assms in \<open>auto simp: onward_def intro: opened_failed failed_trans; fail\<close>)[1])+)

lemma loop_body_ok:
  assumes "good p" and "solid (events p)" and "2 * left_tokens p + 1 < n"
  shows "wp (loop_body E p) (block_post p)"
  using assms block_ok by (simp add: loop_body_def)

lemma parse_while_ok:
  assumes "good p" and "current_token p = TkWhile" and "2 * left_tokens p \<le> n"
  shows "wp (parse_while E p) (stat_post p)"
  unfolding parse_while_def Let_def recover_to_keywords_def
  by (rule run_start [OF assms(1)])
    ((intro run_rules env_rules stat_steps run_block_bind [OF loop_body_ok] run_close_stat |
      simp only: run_simps | (use assms in \<open>auto simp: onward_def intro: opened_failed; fail\<close>)[1])+)

lemma parse_do_ok:
  assumes "good p" and "current_token p = TkDo" and "2 * left_tokens p \<le> n"
  shows "wp (parse_do E p) (stat_post p)"
  unfolding parse_do_def Let_def
  by (rule run_start [OF assms(1)])
    ((intro run_rules env_rules run_close_stat | simp only: run_simps |
      (use assms in \<open>auto intro: opened_failed; fail\<close>)[1])+)

lemma numeric_for_ok:
  assumes "good p" and "current_token p = TkAssign" and "2 * left_tokens p \<le> n"
  shows "wp (numeric_for E p) (stays p)"
  unfolding numeric_for_def
  by (rule run_start [OF assms(1)])
    ((intro run_rules expr_or_report_rules | simp only: run_simps |
      (use assms in \<open>auto simp: stays_def; fail\<close>)[1])+)

lemma for_names_ok: "good p \<Longrightarrow> wp (for_names E p) (stays p)"
proof (induction "left_tokens p" arbitrary: p rule: less_induct)
  case less
  have again: "run p0 ms q (for_names E q) Q"
    if "left_tokens q < left_tokens p" and "\<And>q'. parsing p0 ms q' \<Longrightarrow> Q q'" for p0 ms q Q
    by (rule run_stays_tail [OF less.hyps]) (use that in auto)
  show ?case
    by (rule run_start [OF less.prems], subst for_names.simps)
      ((intro run_rules again | simp only: run_simps | (auto simp: stays_def onward_def; fail)[1])+)
qed

lemma run_generic_for:
  assumes "k \<noteq> Block" and "2 * left_tokens p < n"
    and "\<And>p'. left_tokens p' \<le> left_tokens p \<Longrightarrow> (clean p' \<Longrightarrow> clean p) \<Longrightarrow>
      (solid (events p) \<Longrightarrow> solid (events p')) \<Longrightarrow> parsing p0 ((m, k, q) # ms) p' \<Longrightarrow> Q p'"
  shows "run p0 ((m, k, q) # ms) p (generic_for E m p) Q"
  unfolding generic_for_def
  by ((intro run_rules run_stays_bind [OF for_names_ok] list_rules | simp only: run_simps |
      (use assms(1,2) in \<open>auto intro!: assms(3) simp del: parsing.simps; fail\<close>)[1])+)

lemma parse_for_ok:
  assumes "good p" and "current_token p = TkFor" and "2 * left_tokens p \<le> n"
  shows "wp (parse_for E p) (stat_post p)"
  unfolding parse_for_def Let_def recover_to_keywords_def
  by (rule run_start [OF assms(1)])
    ((intro run_rules stat_steps run_stays_tail [OF numeric_for_ok] run_generic_for
        run_block_bind [OF loop_body_ok] run_close_stat | simp only: run_simps |
      (use assms in \<open>auto simp: onward_def intro: opened_failed; fail\<close>)[1])+)

lemma parse_repeat_ok:
  assumes "good p" and "current_token p = TkRepeat" and "2 * left_tokens p \<le> n"
  shows "wp (parse_repeat E p) (stat_post p)"
  unfolding parse_repeat_def
  by (rule run_start [OF assms(1)])
    ((intro run_rules env_rules stat_steps expr_or_report_rules | simp only: run_simps |
      (use assms in \<open>auto intro: opened_failed; fail\<close>)[1])+)

subsection \<open>Functions\<close>

lemma func_name_dots_ok:
  "good p \<Longrightarrow> valid_marker cm p \<Longrightarrow> wp (func_name_dots E cm p)
    (\<lambda>(cm', p'). good p' \<and> runs p p' \<and> valid_marker cm' p')"
proof (induction "left_tokens p" arbitrary: p cm rule: less_induct)
  case less
  let ?P = "\<lambda>p (cm', p'). good p' \<and> runs p p' \<and> valid_marker cm' p'"
  have again: "run p [] q (func_name_dots E cm q) (?P p)"
    if "left_tokens q < left_tokens p" "valid_marker cm q" for q cm
    by (rule run_tail [where st = snd and X = "\<lambda>x. valid_marker (fst x) (snd x)"])
      (use that in \<open>auto intro!: wp_conseq [OF less.hyps]\<close>)
  show ?case
    by (rule run_start [OF less.prems(1)], subst func_name_dots.simps)
      ((intro run_rules stat_steps again | simp only: run_simps |
        (use less.prems in \<open>auto; fail\<close>)[1])+)
qed

lemma run_func_name_dots:
  assumes "valid_marker cm p"
    and "\<And>cm' p'. left_tokens p' \<le> left_tokens p \<Longrightarrow> (clean p' \<Longrightarrow> clean p) \<Longrightarrow>
      (solid (events p) \<Longrightarrow> solid (events p')) \<Longrightarrow> valid_marker cm' p' \<Longrightarrow> run p0 ms p' (f (cm', p')) Q"
  shows "run p0 ms p (func_name_dots E cm p \<bind> f) Q"
  by (rule run_bind [where st = snd and X = "\<lambda>x. valid_marker (fst x) (snd x)"])
    (auto intro!: assms wp_conseq [OF func_name_dots_ok])

lemma run_func_name_colon:
  assumes "valid_marker cm p"
    and "\<And>cm' p'. left_tokens p' \<le> left_tokens p \<Longrightarrow> (clean p' \<Longrightarrow> clean p) \<Longrightarrow>
      (solid (events p) \<Longrightarrow> solid (events p')) \<Longrightarrow> run p0 ms p' (f (cm', p')) Q"
  shows "run p0 ms p (func_name_colon E cm p \<bind> f) Q"
  unfolding func_name_colon_def
  by ((intro run_rules stat_steps | simp only: run_simps |
      (use assms(1) in \<open>auto intro!: assms(2); fail\<close>)[1])+)

lemma func_name_ok:
  assumes "good p"
  shows "wp (parse_func_name E p) (stat_post p)"
  unfolding parse_func_name_def
  by (rule run_start [OF assms(1)])
    ((intro run_rules run_func_name_dots run_func_name_colon | simp only: run_simps |
      (auto intro: opened_failed; fail)[1])+)

lemma parse_function_ok:
  assumes "good p" and "current_token p = TkFunction" and "2 * left_tokens p \<le> n"
  shows "wp (parse_function E p) (stat_post p)"
  unfolding parse_function_def
  by (rule run_start [OF assms(1)])
    ((intro run_rules run_stat_bind [OF func_name_ok] run_node_bind [OF closure_ok] |
      simp only: run_simps wp_Some |
      (use assms in \<open>auto intro: opened_failed failed_trans; fail\<close>)[1])+)

subsection \<open>Simple statements and assignments\<close>

lemma parse_return_ok:
  assumes "good p" and "current_token p = TkReturn" and "2 * left_tokens p \<le> n"
  shows "wp (parse_return E p) (stat_post p)"
  unfolding parse_return_def
  by (rule run_start [OF assms(1)])
    ((intro run_rules list_rules | simp only: run_simps |
      (use assms in \<open>auto simp: onward_def; fail\<close>)[1])+)

lemma keyword_stats_ok:
  assumes "good p" and "current_token p \<noteq> TkEof"
  shows "wp (parse_break E p) (stat_post p)" and "wp (parse_goto E p) (stat_post p)"
    and "wp (parse_empty_stat E p) (stat_post p)" and "wp (parse_label_stat E p) (stat_post p)"
  unfolding parse_break_def parse_goto_def parse_empty_stat_def parse_label_stat_def
  by (rule run_start [OF assms(1)],
      ((intro run_rules stat_steps | simp only: run_simps | (use assms in \<open>auto; fail\<close>)[1])+))+

lemma lvalue_loop_ok:
  "good p \<Longrightarrow> 2 * left_tokens p \<le> n \<Longrightarrow> wp (lvalue_loop E p)
    (block_post p)"
proof (induction "left_tokens p" arbitrary: p rule: less_induct)
  case less
  have again: "run p [] q (lvalue_loop E q) (block_post p)" if "left_tokens q < left_tokens p" for q
    by (rule run_tail [where st = snd and X = "\<lambda>x. case fst x of Ok _ \<Rightarrow> True | Err _ \<Rightarrow> \<not> clean (snd x)"])
      (use that less.prems in \<open>auto intro!: wp_conseq [OF less.hyps] simp: block_post_iff\<close>)
  show ?case
    by (rule run_start [OF less.prems(1)], subst lvalue_loop.simps)
      ((intro run_rules env_rules again | simp only: run_simps |
        (use less.prems in \<open>auto; fail\<close>)[1])+)
qed

lemma parse_assign_ok:
  assumes "good p" and "2 * left_tokens p < n"
  shows "wp (parse_assign_or_expr_or_global_stat E p) (stat_post p)"
  unfolding parse_assign_or_expr_or_global_stat_def Let_def
  by (rule run_start [OF assms(1)])
    ((intro run_rules env_rules list_rules run_block_bind [OF lvalue_loop_ok] | simp only: run_simps |
      (use assms in \<open>auto intro: opened_failed; fail\<close>)[1])+)

lemma parse_stat_ok:
  assumes "good p" and "2 * left_tokens p < n"
  shows "wp (parse_stat E p) (stat_post p)"
  unfolding parse_stat_def Let_def
  using assms by (simp add: parse_if_ok parse_while_ok parse_for_ok parse_function_ok parse_local_ok
      parse_return_ok keyword_stats_ok parse_do_ok parse_repeat_ok parse_assign_ok)

subsection \<open>Statement lists, blocks and the chunk\<close>

lemma parse_stats_ok: "good p \<Longrightarrow> 2 * left_tokens p < n \<Longrightarrow> wp (parse_stats E p) (stays p)"
proof (induction "left_tokens p" arbitrary: p rule: less_induct)
  case less
  have again: "wp (parse_stats E q) (stays p)"
    if "good q" "runs p q" "left_tokens q < left_tokens p" for q
    by (rule wp_conseq [OF less.hyps [OF that(3,1)]])
      (use that less.prems in \<open>auto simp: stays_def intro: runs_trans\<close>)
  show ?case
  proof (cases "block_follow (current_token p)")
    case True
    with less.prems show ?thesis by (simp add: parse_stats.simps [of E p] stays_def)
  next
    case False
    have stat: "wp (parse_stat E p) (stat_post p)" by (rule parse_stat_ok [OF less.prems])
    let ?rest = "\<lambda>p'. if mark_level p' < mark_level p then None
      else do {
        p' \<leftarrow> push_node_ends (mark_level p' - mark_level p) p';
        p' \<leftarrow> bump_until E stat_recovery_stop p';
        let can_continue = (current_token p' \<noteq> TkEof \<and> \<not> block_follow (current_token p')
                            \<and> is_statement_start_token (current_token p'));
        if can_continue \<and> token_index p' \<noteq> token_index p then parse_stats E p' else Some p'
      }"
    have fail: "wp (?rest p') (stays p)" if f: "failed p p'" for p'
    proof -
      from failed_recovers [OF f] obtain q where q: "push_node_ends (mark_level p' - mark_level p) p' = Some q"
        "good q" "runs p q" by blast
      have skip: "wp (bump_until E stat_recovery_stop q) (\<lambda>q'. good q' \<and> runs p q')"
        by (rule wp_conseq [OF bump_until_ok [OF _ q(2)]]) (use q(3) in \<open>auto simp: stays_def intro: runs_trans\<close>)
      have cont: "wp (if c \<and> token_index q' \<noteq> token_index p then parse_stats E q' else Some q') (stays p)"
        if "good q' \<and> runs p q'" for c q'
      proof -
        have "left_tokens q' < left_tokens p" if "token_index q' \<noteq> token_index p"
          using that \<open>good q' \<and> runs p q'\<close> good_bound [of q'] runs_tokens [of p q']
          by (auto simp: runs_def left_tokens_def)
        with again [of q'] that show ?thesis by (auto simp: stays_def)
      qed
      have level: "\<not> mark_level p' < mark_level p" using f by (simp add: failed_def)
      show ?thesis
        by (simp only: level if_False q(1) Option.bind.simps wp_bind Let_def)
          (rule wp_conseq [OF skip cont])
    qed
    have body: "parse_stats E p = parse_stat E p \<bind>
        (\<lambda>(r, p'). case r of Ok _ \<Rightarrow> parse_stats E p' | Err _ \<Rightarrow> ?rest p')"
      by (subst parse_stats.simps) (simp only: False if_False Let_def)
    show ?thesis
    proof (unfold body wp_bind, rule wp_conseq [OF stat])
      fix x assume x: "stat_post p x"
      obtain r p' where rp: "x = (r, p')" by (cases x)
      show "wp (case x of (r, p') \<Rightarrow> case r of Ok _ \<Rightarrow> parse_stats E p' | Err _ \<Rightarrow> ?rest p') (stays p)"
      proof (cases r)
        case (Ok cm)
        with x rp show ?thesis by (simp only: prod.case res.case stat_post.simps again)
      next
        case (Err e)
        with x rp show ?thesis by (simp only: prod.case res.case stat_post.simps fail)
      qed
    qed
  qed
qed

lemma parse_block_ok:
  assumes "good p" and "solid (events p)" and "2 * left_tokens p < n"
  shows "wp (parse_block E remaining p) (block_post p)"
  unfolding parse_block_def
  by (rule run_start [OF assms(1)])
    ((intro run_rules run_stays_bind [OF parse_stats_ok] | simp only: run_simps |
      (use assms in \<open>auto; fail\<close>)[1])+)

lemma chunk_loop_ok:
  "good p \<Longrightarrow> 2 * left_tokens p < n \<Longrightarrow> wp (chunk_loop E p) (\<lambda>p'. stays p p' \<and> current_token p' = TkEof)"
proof (induction "left_tokens p" arbitrary: p rule: less_induct)
  case less
  let ?P = "\<lambda>p'. stays p p' \<and> current_token p' = TkEof"
  have again: "run p [] q (chunk_loop E q) ?P" if "left_tokens q < left_tokens p" for q
    by (rule run_tail [where st = "\<lambda>p. p" and X = "\<lambda>p'. current_token p' = TkEof"])
      (use that less.prems in \<open>auto intro!: wp_conseq [OF less.hyps] simp: stays_def\<close>)
  have moved: "run p [] q (chunk_loop E q) ?P" if "token_index q \<noteq> token_index p" for q
  proof (unfold run_def, rule impI)
    assume "parsing p [] q"
    with that have "left_tokens q < left_tokens p"
      using good_bound [of q] runs_tokens [of p q] by (auto simp: runs_def left_tokens_def)
    from again [OF this] \<open>parsing p [] q\<close> show "wp (chunk_loop E q) ?P" by (simp add: run_def)
  qed
  have stuck: "run p [] q m Q" if "token_index q = token_index p" "current_token p \<noteq> TkEof"
    "current_token q \<noteq> TkEof \<Longrightarrow> run p [] q m Q" for q m Q
  proof -
    have "current_token q \<noteq> TkEof" if "parsing p [] q"
      using that less.prems(1) good_left [of q] good_left [of p] \<open>token_index q = token_index p\<close>
        \<open>current_token p \<noteq> TkEof\<close> runs_tokens [of p q] by (auto simp: left_tokens_def)
    with that(3) show ?thesis by (auto simp: run_def)
  qed
  show ?case
    apply (rule run_start [OF less.prems(1)], subst chunk_loop.simps, unfold Let_def)
    apply (rule run_if)
    subgoal using less.prems by (auto intro!: run_rules simp: stays_def)
    apply (rule run_stays_bind [OF parse_stats_ok], assumption)
    subgoal using less.prems by simp
    apply (rule run_if)
    subgoal for q
      by (rule stuck, assumption, assumption)
        ((intro run_rules again | simp only: run_simps | (auto; fail)[1])+)
    subgoal by (rule moved)
    done
qed

end

end
