(* ===== verification/Chunk_Safe.thy ===== *)
theory Chunk_Safe
  imports Stat_Safe
begin

text \<open>
  The recursive knot meets the contract of the grammar at every nesting budget, and the chunk
  parser, started on the tokens of any text, returns at the end of the input with every token
  eaten in order.
\<close>

section \<open>The knot\<close>

lemma env_at_ok: "grammar_env (env_at dp rs n) n"
proof (induction n)
  case 0
  show ?case by unfold_locales simp_all
next
  case (Suc n)
  show ?case
    by unfold_locales
      (simp_all add: grammar_env.parse_sub_expr_ok [OF Suc.IH] grammar_env.parse_block_ok [OF Suc.IH])
qed

interpretation knot: grammar_env "env_at dp rs n" n for dp rs n
  by (rule env_at_ok)

section \<open>The chunk\<close>

text \<open>The state in which \<open>LuaParser::parse\<close> starts the grammar.\<close>

definition parser_new ::
  "rstring \<Rightarrow> LuaTokenData list \<Rightarrow> ParserConfig \<Rightarrow> LuaParseError list \<Rightarrow> LuaParser" where
  "parser_new src toks config errs =
     \<lparr>events = [], mark_level = 0, origin_text = src, tokens = toks, token_index = 0,
      current_token = TkNone, parse_config = config, errors = errs\<rparr>"

lemma init_ok:
  assumes "tokens_ok (parser_new src toks config errs)"
  defines "p1 \<equiv> snd (mark Block (parser_new src toks config errs))"
  shows "\<exists>p2 ts. init dp p1 = Some p2 \<and> good p2 \<and> tokens p2 = toks \<and> errors p2 = errs \<and>
    mark_level p2 = 1 \<and> events p2 = NodeStart Block 0 # map tok_event ts \<and>
    origin_text p2 = src \<and> parse_config p2 = config"
proof -
  have ok: "tokens_ok p1" and p1: "tokens p1 = toks" "token_index p1 = 0" "events p1 = [NodeStart Block 0]"
    "errors p1 = errs" "mark_level p1 = 1" "origin_text p1 = src" "parse_config p1 = config"
    using assms(1) by (simp_all add: p1_def parser_new_def tokens_ok_def)
  let ?p = "p1\<lparr>current_token := (if tokens p1 = [] then TkEof else kind (tokens p1 ! 0))\<rparr>"
  have wf: "wf_events [NodeStart Block 0]" "ends_ok [NodeStart Block 0]"
    using wf_events_snoc [of "[]" "NodeStart Block 0"]
    by (simp_all add: wf_events_def links_def blocks_ok_def kinds_ok_def ends_ok_def parent_of_def)
  show ?thesis
  proof (cases "is_trivia_kind (current_token ?p)")
    case False
    then have "good ?p"
      using ok wf by (simp add: good_def tokens_ok_def cursor_ok_def p1 split: if_splits)
    with False show ?thesis
      by (intro exI [of _ ?p] exI [of _ "[]"]) (simp add: init_def p1)
  next
    case True
    then have ne: "toks \<noteq> []" by (auto simp: p1 is_trivia_kind_def)
    let ?j = "skip_trivia toks 1" and ?ts = "take (skip_trivia toks 1) toks"
    have off: "\<not> enable_emmylua_doc (parse_config ?p)" using ok by (simp add: tokens_ok_def)
    have "lexed_kind (kind (toks ! 0))" using ok ne by (simp add: tokens_ok_def p1)
    then have run: "pbump dp ?p = Some (?p\<lparr>events := NodeStart Block 0 # map tok_event ?ts, token_index := ?j,
        current_token := (if length toks \<le> ?j then TkEof else kind (toks ! ?j))\<rparr>)" (is "_ = Some ?q")
      using pbump_off [OF off, of dp] ne by (simp add: p1)
    have j: "?j \<le> length toks" using skip_trivia_bound [of 1 toks] ne by (cases toks) simp_all
    have "wf_events (events ?q)" "ends_ok (events ?q)"
      using wf_events_tokens [OF wf(1), of kind token_range ?ts] ends_ok_tokens [OF wf(2), of kind token_range ?ts]
      by (simp_all add: tok_event_map)
    moreover have "cursor_ok ?q" using j skip_trivia_stop [of toks 1] by (simp add: cursor_ok_def p1)
    ultimately have "good ?q" using ok by (simp add: good_def tokens_ok_def p1)
    with True run show ?thesis
      by (intro exI [of _ ?q] exI [of _ ?ts]) (simp add: init_def p1)
  qed
qed

text \<open>What the chunk parser leaves behind.\<close>

definition chunk_done :: "LuaTokenData list \<Rightarrow> LuaParser \<Rightarrow> bool" where
  "chunk_done toks p \<longleftrightarrow>
     token_index p = length toks \<and> current_token p = TkEof \<and>
     eaten (events p) = map token_pair toks \<and> wf_events (events p) \<and>
     (clean p \<longrightarrow> closed (events p) \<and> ends_ok (events p))"

lemma parse_chunk_ok:
  assumes ok: "tokens_ok (parser_new src toks config errs)" and n: "2 * length toks < n"
  shows "\<exists>p' xs. parse_chunk (env_at dp rs n) (parser_new src toks config errs) = Some p' \<and>
    chunk_done toks p' \<and> errors p' = errs @ xs \<and> origin_text p' = src"
proof -
  let ?p0 = "parser_new src toks config errs"
  let ?E = "env_at dp rs n"
  obtain p2 ts where init: "init (doc_parse ?E) (snd (mark Block ?p0)) = Some p2" and g2: "good p2"
    and t2: "tokens p2 = toks" "errors p2 = errs" "mark_level p2 = 1" "origin_text p2 = src"
    and e2: "events p2 = NodeStart Block 0 # map tok_event ts"
    using init_ok [OF ok] by blast
  have "wp (chunk_loop ?E p2) (\<lambda>p3. stays p2 p3 \<and> current_token p3 = TkEof)"
    by (rule knot.chunk_loop_ok [OF g2]) (use n t2 in \<open>simp add: left_tokens_def\<close>)
  then obtain p3 where loop: "chunk_loop ?E p2 = Some p3" and g3: "good p3" and r3: "runs p2 p3"
    and eof: "current_token p3 = TkEof"
    by (auto simp: wp_iff stays_def)
  from r3 obtain es1 es2 where ev: "events p3 = es1 @ es2" "list_all2 sim (events p2) es1"
    "clean p3 \<longrightarrow> closed es2" by (auto simp: runs_def extends_def)
  from ev(2) obtain e es3 where es3: "es1 = e # es3" "sim (NodeStart Block 0) e"
    "list_all2 sim (map tok_event ts) es3" by (auto simp: e2 list_all2_Cons1 simp del: sim.simps)
  then obtain q where es1: "es1 = NodeStart Block q # es3" "list_all2 sim (map tok_event ts) es3"
    by (cases e) auto
  have idx: "token_index p3 = length toks"
    using good_left [OF g3] eof good_bound [OF g3] runs_tokens [OF r3] t2(1) by (simp add: left_tokens_def)
  have start: "start_at (events p3) 0 = Some (Block, q)" by (simp add: start_at_def ev es1)
  have mark: "fst (mark Block ?p0) = Marker 0" by (simp add: parser_new_def)
  have eaten: "eaten (events p3) = map token_pair toks"
    using g3 idx runs_tokens [OF r3] t2(1) by (simp add: good_def)
  have body: "parse_chunk ?E ?p0 = map_option snd (complete (Marker 0) p3)"
    using init loop mark
    by (cases "mark Block ?p0"; cases "complete (Marker 0) p3")
      (auto simp: parse_chunk_def mark_p_def parser_new_def mark_def split: prod.splits)
  have errs: "\<exists>xs. errors p3 = errs @ xs" "origin_text p3 = src"
    using r3 t2(2,4) by (simp_all add: runs_def same_input_def)
  have wf: "wf_events (events p3)" "clean p3 \<longrightarrow> ends_ok (events p3)" using g3 by (simp_all add: good_def)
  show ?thesis
  proof (cases "length (events p3) = 1")
    case True
    then have ev1: "events p3 = [NodeStart Block q]" using ev es1 by simp
    let ?p = "p3\<lparr>events := [NodeStart SkNone q]\<rparr>"
    have "complete (Marker 0) p3 = Some (\<lparr>cm_start = 0, cm_kind = SkNone\<rparr>, ?p)"
      by (simp add: complete_def start) (simp add: ev1)
    moreover have "wf_events [NodeStart SkNone q]"
      using wf links_erase_last [of "[]" Block q] by (simp add: wf_events_def ev1 blocks_ok_def kinds_ok_def)
    ultimately show ?thesis
      using body idx eof eaten errs
      by (auto simp: chunk_done_def closed_def ends_ok_def ev1)
  next
    case False
    let ?p = "p3\<lparr>events := events p3 @ [NodeEnd], mark_level := mark_level p3 - 1\<rparr>"
    have "mark_level p3 \<noteq> 0" using r3 t2(3) by (auto simp: runs_def)
    then have comp: "complete (Marker 0) p3 = Some (\<lparr>cm_start = 0, cm_kind = Block\<rparr>, ?p)"
      using False by (simp add: complete_def start push_node_end_def)
    have "closed (es3 @ es2)" if "clean p3"
      using that ev(3) sims_closed [OF es1(2)] by (simp add: tok_event_map closed_append)
    then have "closed (events p3 @ [NodeEnd])" if "clean p3"
      using that closed_bracket [of Block "es3 @ es2" q] by (simp add: ev es1)
    moreover have "ends_ok (events p3 @ [NodeEnd])" if "clean p3"
    proof (rule ends_ok_snoc)
      show "eaten (events p3) \<noteq> []"
      proof
        assume "eaten (events p3) = []"
        then have "toks = []" by (simp add: eaten)
        then have "current_token p2 = TkEof" using good_left [OF g2] t2(1) by (simp add: left_tokens_def)
        then have "p3 = p2" using loop by (simp add: chunk_loop.simps [of _ p2])
        then have "ts = []" using \<open>eaten (events p3) = []\<close> by (simp add: e2)
        with \<open>p3 = p2\<close> False show "False" by (simp add: e2)
      qed
    qed (use wf that in simp)
    ultimately show ?thesis
      using body comp idx eof eaten errs wf wf_events_snoc [OF wf(1), of NodeEnd]
      by (auto simp: chunk_done_def)
  qed
qed

end
