(* ===== verification/Green_Builder.thy ===== *)
theory Green_Builder
  imports Marker Kind_Tables
begin

text \<open>
  \<open>crates/glua_parser/src/syntax/tree/lua_green_builder.rs\<close>: the builder between the parser's
  events and the \<open>rowan\<close> green tree. It keeps an arena of elements, the indices of the elements
  that have no parent yet, and a stack of open nodes; closing a node decides which trivia at
  its edges stay inside.

  \<open>rowan\<close> itself is not part of the repository: the model records the calls made to
  \<open>rowan::GreenNodeBuilder\<close>, in order, as a list of \<open>RowanCall\<close>s. An operation returns \<open>None\<close>
  where the code panics (an index or a \<open>drain\<close> range out of bounds).
\<close>

section \<open>Elements and state\<close>

datatype LuaGreenElement =
    GNone
  | GNode LuaSyntaxKind "nat list"
  | GToken LuaTokenKind SourceRange

datatype RowanCall =
    RowanStart "16 word"
  | RowanToken "16 word" rstring
  | RowanFinish

record LuaGreenNodeBuilder =
  parents :: "(LuaSyntaxKind \<times> nat) list"
  children :: "nat list"
  elements :: "LuaGreenElement list"

definition green_new :: LuaGreenNodeBuilder where
  "green_new = \<lparr>parents = [], children = [], elements = []\<rparr>"

definition green_token ::
  "LuaTokenKind \<Rightarrow> SourceRange \<Rightarrow> LuaGreenNodeBuilder \<Rightarrow> LuaGreenNodeBuilder" where
  "green_token k rng b =
     b\<lparr>elements := elements b @ [GToken k rng], children := children b @ [length (elements b)]\<rparr>"

text \<open>The stack of open nodes grows at its head.\<close>

definition start_node :: "LuaSyntaxKind \<Rightarrow> LuaGreenNodeBuilder \<Rightarrow> LuaGreenNodeBuilder" where
  "start_node k b = b\<lparr>parents := (k, length (children b)) # parents b\<rparr>"

section \<open>Trivia\<close>

fun trivia_element :: "LuaGreenElement \<Rightarrow> bool" where
  "trivia_element (GToken k _) \<longleftrightarrow> k \<in> set [TkWhitespace, TkEndOfLine, TkDocContinue]"
| "trivia_element (GNode k _) \<longleftrightarrow> k \<in> set [Comment, DocDescription]"
| "trivia_element GNone \<longleftrightarrow> False"

fun whitespace_element :: "LuaGreenElement \<Rightarrow> bool" where
  "whitespace_element (GToken k _) \<longleftrightarrow> k \<in> set [TkWhitespace, TkEndOfLine]"
| "whitespace_element _ \<longleftrightarrow> False"

definition green_is_trivia :: "LuaGreenElement list \<Rightarrow> nat \<Rightarrow> bool" where
  "green_is_trivia els pos \<longleftrightarrow> pos < length els \<and> trivia_element (els ! pos)"

definition is_trivia_whitespace :: "LuaGreenElement list \<Rightarrow> nat \<Rightarrow> bool" where
  "is_trivia_whitespace els pos \<longleftrightarrow> pos < length els \<and> whitespace_element (els ! pos)"

text \<open>\<open>while child_start > 0 { if trivia(children[child_start - 1]) { child_start -= 1 } else { break } }\<close>\<close>

fun absorb_back :: "(nat \<Rightarrow> bool) \<Rightarrow> nat list \<Rightarrow> nat \<Rightarrow> nat option" where
  "absorb_back tr cs 0 = Some 0"
| "absorb_back tr cs (Suc i) =
     (if length cs \<le> i then None
      else if tr (cs ! i) then absorb_back tr cs i
      else Some (Suc i))"

text \<open>\<open>while child_start < child_count { if trivia(children[child_start]) { child_start += 1 } else { break } }\<close>\<close>

function trim_front :: "(nat \<Rightarrow> bool) \<Rightarrow> nat list \<Rightarrow> nat \<Rightarrow> nat" where
  "trim_front tr cs i =
     (if i < length cs \<and> tr (cs ! i) then trim_front tr cs (i + 1) else i)"
  by pat_completeness auto
termination
  by (relation "measure (\<lambda>(tr, cs, i). length cs - i)") auto

declare trim_front.simps [simp del]

text \<open>\<open>while child_end > child_start { if trivia(children[child_end]) { child_end -= 1 } else { break } }\<close>\<close>

fun trim_back :: "(nat \<Rightarrow> bool) \<Rightarrow> nat list \<Rightarrow> nat \<Rightarrow> nat \<Rightarrow> nat" where
  "trim_back tr cs child_start 0 = 0"
| "trim_back tr cs child_start (Suc e) =
     (if Suc e > child_start \<and> tr (cs ! Suc e) then trim_back tr cs child_start e else Suc e)"

section \<open>Closing a node\<close>

text \<open>\<open>children.drain(a..b)\<close>: the removed part and the rest.\<close>

definition drain :: "nat \<Rightarrow> nat \<Rightarrow> 'a list \<Rightarrow> ('a list \<times> 'a list) option" where
  "drain a b xs =
     (if a \<le> b \<and> b \<le> length xs then Some (take (b - a) (drop a xs), take a xs @ drop b xs)
      else None)"

definition insert_at :: "nat \<Rightarrow> 'a \<Rightarrow> 'a list \<Rightarrow> 'a list option" where
  "insert_at i x xs = (if i \<le> length xs then Some (take i xs @ x # drop i xs) else None)"

text \<open>
  The three ways to close: \<open>close_block\<close> takes the trivia before the node inside, \<open>close_trimmed\<close>
  leaves the trivia at both edges outside. They return the children of the new node, the
  remaining list, and where the node goes (\<open>child_start\<close> and \<open>child_end\<close>).
\<close>

definition close_block ::
  "(nat \<Rightarrow> bool) \<Rightarrow> nat \<Rightarrow> nat list \<Rightarrow> (nat list \<times> nat list \<times> nat \<times> nat) option" where
  "close_block tr first_start cs = do {
     child_start \<leftarrow> absorb_back tr cs first_start;
     (taken, rest) \<leftarrow> drain child_start (length cs) cs;
     Some (taken, rest, child_start, length cs - 1)
   }"

definition close_trimmed ::
  "(nat \<Rightarrow> bool) \<Rightarrow> nat \<Rightarrow> nat list \<Rightarrow> (nat list \<times> nat list \<times> nat \<times> nat) option" where
  "close_trimmed tr first_start cs = do {
     let child_start = trim_front tr cs first_start;
     let child_end = trim_back tr cs child_start (length cs - 1);
     (taken, rest) \<leftarrow> drain child_start (child_end + 1) cs;
     Some (taken, rest, child_start, child_end)
   }"

definition close_children ::
  "LuaSyntaxKind \<Rightarrow> LuaGreenElement list \<Rightarrow> nat \<Rightarrow> nat list
     \<Rightarrow> (nat list \<times> nat list \<times> nat \<times> nat) option" where
  "close_children k els first_start cs =
     (if k = Block \<or> k = Chunk then close_block (green_is_trivia els) first_start cs
      else if k = Comment \<or> k = TypeMultiLineUnion
      then close_trimmed (is_trivia_whitespace els) first_start cs
      else close_trimmed (green_is_trivia els) first_start cs)"

definition finish_node :: "LuaGreenNodeBuilder \<Rightarrow> LuaGreenNodeBuilder option" where
  "finish_node b =
     (if children b = [] then Some b
      else case parents b of
        [] \<Rightarrow> Some b
      | (parent_kind, first_start) # ps \<Rightarrow> do {
          let child_count = length (children b);
          (taken, rest, child_start, child_end) \<leftarrow>
            close_children parent_kind (elements b) first_start (children b);
          let pos = length (elements b);
          cs \<leftarrow> (if child_end + 1 < child_count then insert_at child_start pos rest
                else Some (rest @ [pos]));
          Some (b\<lparr>parents := ps, children := cs,
                  elements := elements b @ [GNode parent_kind taken]\<rparr>)
        })"

section \<open>Handing the tree to rowan\<close>

datatype StackItem = Open nat | Close

text \<open>
  The loop of \<open>build_rowan_green\<close>: visited elements are replaced by \<open>GNone\<close>; the stack grows at
  its head. The result is the calls made and the arena afterwards.
\<close>

partial_function (option) rowan_loop ::
  "rstring \<Rightarrow> StackItem list \<Rightarrow> LuaGreenElement list \<Rightarrow> RowanCall list
     \<Rightarrow> (RowanCall list \<times> LuaGreenElement list) option" where
  "rowan_loop src stack els calls =
     (case stack of
        [] \<Rightarrow> Some (calls, els)
      | Close # stack \<Rightarrow> rowan_loop src stack els (calls @ [RowanFinish])
      | Open index # stack \<Rightarrow>
          if length els \<le> index then None
          else
            (let element = els ! index; els = els[index := GNone] in
             case element of
               GNode k cs \<Rightarrow>
                 rowan_loop src (map Open cs @ Close # stack) els
                   (calls @ [RowanStart (get_raw (Syntax k))])
             | GToken k rng \<Rightarrow> do {
                 token_text \<leftarrow> slice src (start_offset rng) (end_offset rng);
                 rowan_loop src stack els (calls @ [RowanToken (get_raw (Token k)) token_text])
               }
             | GNone \<Rightarrow> rowan_loop src stack els calls))"

declare rowan_loop.simps [code]

definition build_rowan_green ::
  "rstring \<Rightarrow> nat \<Rightarrow> LuaGreenElement list \<Rightarrow> RowanCall list option" where
  "build_rowan_green src parent els = map_option fst (rowan_loop src [Open parent] els [])"

definition green_finish :: "rstring \<Rightarrow> LuaGreenNodeBuilder \<Rightarrow> RowanCall list option" where
  "green_finish src b =
     (case children b of
        [] \<Rightarrow> Some [RowanStart (get_raw (Syntax Chunk)), RowanFinish]
      | root_pos # _ \<Rightarrow>
          if length (elements b) \<le> root_pos then None
          else
            (let is_chunk_root = (case elements b ! root_pos of GNode k _ \<Rightarrow> k = Chunk | _ \<Rightarrow> False) in
             do {
               calls \<leftarrow> build_rowan_green src root_pos (elements b);
               Some (if is_chunk_root then calls
                     else [RowanStart (get_raw (Syntax Chunk))] @ calls @ [RowanFinish])
             }))"

end
