(* ===== verification/Tree_Builder.thy ===== *)
theory Tree_Builder
  imports Green_Builder
begin

text \<open>
  \<open>crates/glua_parser/src/syntax/tree/lua_tree_builder.rs\<close>: turns the parser's events into calls
  of the green builder. A \<open>NodeStart\<close> with a parent opens the whole chain of its parents first;
  every start event that has been used is replaced by \<open>MarkEvent::none()\<close>.
\<close>

text \<open>
  The walk up the chain of parents. The result lists the kinds in the order in which they
  are pushed; a parent index that is no \<open>NodeStart\<close> is the code's \<open>unreachable!()\<close>.
\<close>

partial_function (option) parent_chain ::
  "MarkEvent list \<Rightarrow> nat \<Rightarrow> (LuaSyntaxKind list \<times> MarkEvent list) option" where
  "parent_chain es parent_position =
     (if parent_position = 0 then Some ([], es)
      else if length es \<le> parent_position then None
      else case es ! parent_position of
        NodeStart k parent \<Rightarrow> do {
          (ks, es) \<leftarrow> parent_chain (es[parent_position := none_event]) parent;
          Some (k # ks, es)
        }
      | _ \<Rightarrow> None)"

declare parent_chain.simps [code]

definition build_event ::
  "nat \<Rightarrow> MarkEvent list \<times> LuaGreenNodeBuilder \<Rightarrow> (MarkEvent list \<times> LuaGreenNodeBuilder) option" where
  "build_event i s =
     (case s of (es, b) \<Rightarrow>
      let event = es ! i; es = es[i := none_event] in
      case event of
        Trivia \<Rightarrow> Some (es, b)
      | NodeStart k parent \<Rightarrow>
          if k = SkNone then Some (es, b)
          else do {
            (ks, es) \<leftarrow> parent_chain es parent;
            Some (es, fold start_node (rev (k # ks)) b)
          }
      | NodeEnd \<Rightarrow> do { b \<leftarrow> finish_node b; Some (es, b) }
      | EatToken k rng \<Rightarrow> Some (es, green_token k rng b))"

fun build_events ::
  "nat list \<Rightarrow> MarkEvent list \<times> LuaGreenNodeBuilder \<Rightarrow> (MarkEvent list \<times> LuaGreenNodeBuilder) option" where
  "build_events [] s = Some s"
| "build_events (i # is) s = do { s \<leftarrow> build_event i s; build_events is s }"

definition build :: "MarkEvent list \<Rightarrow> LuaGreenNodeBuilder option" where
  "build es = do {
     (_, b) \<leftarrow> build_events [0 ..< length es] (es, start_node Chunk green_new);
     finish_node b
   }"

definition build_tree :: "rstring \<Rightarrow> MarkEvent list \<Rightarrow> RowanCall list option" where
  "build_tree src es = do { b \<leftarrow> build es; green_finish src b }"

end
