(* ===== verification/Builder_Safe.thy ===== *)
theory Builder_Safe
  imports Tree_Builder Parser_Inv
begin

text \<open>
  The tree builder never panics on the events of a parser run, and keeps every token: closing a
  node replaces a contiguous part of the pending children by one new element.
\<close>

section \<open>Closing a node\<close>

lemma trim_front_bounds:
  "i \<le> length cs \<Longrightarrow> i \<le> trim_front tr cs i \<and> trim_front tr cs i \<le> length cs"
proof (induction tr cs i rule: trim_front.induct)
  case (1 tr cs i)
  then show ?case
    by (cases "i < length cs \<and> tr (cs ! i)") (auto simp: trim_front.simps [of tr cs i])
qed

lemma trim_back_bounds: "a \<le> Suc e \<Longrightarrow> trim_back tr cs a e \<le> e \<and> a \<le> Suc (trim_back tr cs a e)"
  by (induction e) auto

lemma absorb_back_some:
  "i \<le> length cs \<Longrightarrow> \<exists>a. absorb_back tr cs i = Some a \<and> a \<le> i \<and> (\<forall>j. a \<le> j \<and> j < i \<longrightarrow> tr (cs ! j)) \<and>
     (a = 0 \<or> \<not> tr (cs ! (a - 1)))"
proof (induction i)
  case (Suc i)
  then show ?case by (cases "tr (cs ! i)") (auto simp: less_Suc_eq)
qed simp

text \<open>Whatever the kind, closing cuts out \<open>taken\<close> and puts the new element in its place.\<close>

lemma close_children_splice:
  assumes "s \<le> length cs" and "cs \<noteq> []"
  shows "\<exists>xs taken ys a e. close_children k els s cs = Some (taken, xs @ ys, a, e) \<and> cs = xs @ taken @ ys \<and>
    a = length xs \<and> (e + 1 < length cs \<longleftrightarrow> ys \<noteq> []) \<and>
    (if k = Block \<or> k = Chunk then ys = [] \<and> length xs \<le> s \<and>
       (\<forall>j. length xs \<le> j \<and> j < s \<longrightarrow> green_is_trivia els (cs ! j))
     else s \<le> length xs)"
proof (cases "k = Block \<or> k = Chunk")
  case True
  obtain a where a: "absorb_back (green_is_trivia els) cs s = Some a" "a \<le> s"
    "\<forall>j. a \<le> j \<and> j < s \<longrightarrow> green_is_trivia els (cs ! j)"
    using absorb_back_some [OF assms(1)] by blast
  with assms True show ?thesis
    by (intro exI [of _ "take a cs"] exI [of _ "drop a cs"] exI [of _ "[]"] exI [of _ a]
        exI [of _ "length cs - 1"]) (auto simp: close_children_def close_block_def drain_def)
next
  case False
  have "\<exists>tr. close_children k els s cs = close_trimmed tr s cs"
    using False unfolding close_children_def by auto
  then obtain tr where tr: "close_children k els s cs = close_trimmed tr s cs" by blast
  define a where "a = trim_front tr cs s"
  define e where "e = trim_back tr cs a (length cs - 1)"
  have a: "s \<le> a" "a \<le> length cs" using trim_front_bounds [OF assms(1)] by (simp_all add: a_def)
  have e: "e \<le> length cs - 1" "a \<le> Suc e"
    using trim_back_bounds [of a "length cs - 1" tr cs] a assms(2) by (simp_all add: e_def)
  have "Suc e \<le> length cs" using e(1) assms(2) by (cases cs) simp_all
  then have "close_trimmed tr s cs = Some (take (Suc e - a) (drop a cs), take a cs @ drop (Suc e) cs, a, e)"
    using e unfolding close_trimmed_def Let_def a_def [symmetric] e_def [symmetric]
    by (simp add: drain_def)
  moreover have "cs = take a cs @ take (Suc e - a) (drop a cs) @ drop (Suc e) cs"
    using e(2) by (metis append_take_drop_id drop_drop le_add_diff_inverse2)
  ultimately show ?thesis using tr False a \<open>Suc e \<le> length cs\<close>
    by (intro exI [of _ "take a cs"] exI [of _ "take (Suc e - a) (drop a cs)"] exI [of _ "drop (Suc e) cs"]
        exI [of _ a] exI [of _ e]) auto
qed

lemma finish_node_splice:
  assumes "parents b = (k, s) # ps" and "children b \<noteq> []" and "s \<le> length (children b)"
  shows "\<exists>b' xs taken ys. finish_node b = Some b' \<and> children b = xs @ taken @ ys \<and>
    children b' = xs @ length (elements b) # ys \<and> elements b' = elements b @ [GNode k taken] \<and>
    parents b' = ps \<and>
    (if k = Block \<or> k = Chunk then ys = [] \<and> length xs \<le> s \<and>
       (\<forall>j. length xs \<le> j \<and> j < s \<longrightarrow> green_is_trivia (elements b) (children b ! j))
     else s \<le> length xs)"
proof -
  from close_children_splice [OF assms(3,2), of k "elements b"] obtain xs taken ys a e where
    c: "close_children k (elements b) s (children b) = Some (taken, xs @ ys, a, e)"
      "children b = xs @ taken @ ys" "a = length xs" "e + 1 < length (children b) \<longleftrightarrow> ys \<noteq> []"
      "if k = Block \<or> k = Chunk then ys = [] \<and> length xs \<le> s \<and>
         (\<forall>j. length xs \<le> j \<and> j < s \<longrightarrow> green_is_trivia (elements b) (children b ! j))
       else s \<le> length xs" by blast
  let ?b = "b\<lparr>parents := ps, children := xs @ length (elements b) # ys,
    elements := elements b @ [GNode k taken]\<rparr>"
  have "finish_node b = Some ?b"
    using assms(1,2) c(1,3,4) by (auto simp: finish_node_def insert_at_def Let_def)
  with c(2,5) show ?thesis by (intro exI [of _ ?b] exI [of _ xs] exI [of _ taken] exI [of _ ys]) simp
qed

section \<open>The stack of open nodes\<close>

text \<open>
  Every open node starts inside the list of pending children, inner ones after outer ones, and
  in front of an open block its parent has something of its own that is not trivia: the block
  absorbs the trivia before it, but never past the start of its parent.
\<close>

definition keeps_guard :: "LuaSyntaxKind \<Rightarrow> bool" where
  "keeps_guard k \<longleftrightarrow> k = Block \<or> k = Chunk"

fun stack_ok :: "(nat \<Rightarrow> bool) \<Rightarrow> nat list \<Rightarrow> (LuaSyntaxKind \<times> nat) list \<Rightarrow> bool" where
  "stack_ok tr cs [] = True"
| "stack_ok tr cs [(k, s)] = (s \<le> length cs)"
| "stack_ok tr cs ((k, s) # (k', s') # ps) =
     (s \<le> length cs \<and> s' \<le> s \<and>
      (keeps_guard k \<longrightarrow> s' = 0 \<or> (\<exists>i. s' \<le> i \<and> i < s \<and> \<not> tr (cs ! i))) \<and>
      stack_ok tr cs ((k', s') # ps))"

definition fresh :: "(nat \<Rightarrow> bool) \<Rightarrow> nat list \<Rightarrow> (LuaSyntaxKind \<times> nat) list \<Rightarrow> bool" where
  "fresh tr cs ps = (case ps of [] \<Rightarrow> True
     | (k, s) # _ \<Rightarrow> s = 0 \<or> (\<exists>i. s \<le> i \<and> i < length cs \<and> \<not> tr (cs ! i)))"

lemma stack_ok_hd: "stack_ok tr cs ((k, s) # ps) \<Longrightarrow> s \<le> length cs"
  by (cases ps) auto

lemma stack_ok_tl: "stack_ok tr cs (x # ps) \<Longrightarrow> stack_ok tr cs ps"
  by (cases "(tr, cs, x # ps)" rule: stack_ok.cases) auto

lemma stack_ok_cong:
  assumes "stack_ok tr cs ((k, s) # ps)" and "s \<le> length cs'"
    and "\<And>i. i < s \<Longrightarrow> tr' (cs' ! i) = tr (cs ! i)"
  shows "stack_ok tr' cs' ((k, s) # ps)"
  using assms
proof (induction ps arbitrary: k s)
  case (Cons x ps)
  obtain k' s' where x: "x = (k', s')" by (cases x)
  with Cons.prems have s': "s' \<le> s" "stack_ok tr cs ((k', s') # ps)" by simp_all
  from Cons.IH [OF s'(2)] s'(1) Cons.prems have "stack_ok tr' cs' ((k', s') # ps)" by force
  with Cons.prems x show ?case by (auto simp: Cons.prems(3))
qed simp

definition bsafe :: "LuaGreenNodeBuilder \<Rightarrow> bool" where
  "bsafe b \<longleftrightarrow> (\<forall>c\<in>set (children b). c < length (elements b)) \<and>
     stack_ok (green_is_trivia (elements b)) (children b) (parents b)"

definition bfresh :: "LuaGreenNodeBuilder \<Rightarrow> bool" where
  "bfresh b \<longleftrightarrow> fresh (green_is_trivia (elements b)) (children b) (parents b)"

lemma green_is_trivia_append [simp]:
  "c < length els \<Longrightarrow> green_is_trivia (els @ es) c = green_is_trivia els c"
  by (simp add: green_is_trivia_def nth_append)

lemma green_token_safe:
  assumes "bsafe b"
  shows "bsafe (green_token k r b)"
proof (cases "parents b")
  case (Cons x ps)
  obtain k' s where x: "x = (k', s)" by (cases x)
  have ok: "stack_ok (green_is_trivia (elements b)) (children b) ((k', s) # ps)"
    using assms Cons x by (simp add: bsafe_def)
  note len = stack_ok_hd [OF ok]
  have "stack_ok (green_is_trivia (elements b @ [GToken k r])) (children b @ [length (elements b)]) ((k', s) # ps)"
    by (rule stack_ok_cong [OF ok]) (use assms len in \<open>auto simp: bsafe_def nth_append\<close>)
  with assms Cons x show ?thesis by (auto simp: bsafe_def green_token_def)
qed (use assms in \<open>auto simp: bsafe_def green_token_def\<close>)

lemma green_token_fresh:
  assumes "bsafe b" and "bfresh b \<or> k \<notin> set [TkWhitespace, TkEndOfLine, TkDocContinue]"
  shows "bfresh (green_token k r b)"
proof (cases "parents b")
  case (Cons x ps)
  obtain k' s where x: "x = (k', s)" by (cases x)
  let ?els = "elements b @ [GToken k r]" and ?cs = "children b @ [length (elements b)]"
  have len: "s \<le> length (children b)"
    using assms(1) Cons x stack_ok_hd [of _ _ k' s ps] by (auto simp: bsafe_def)
  have old: "green_is_trivia ?els (?cs ! i) = green_is_trivia (elements b) (children b ! i)"
    if "i < length (children b)" for i
    using that assms(1) by (simp add: bsafe_def nth_append)
  consider "s = 0" | i where "s \<le> i" "i < length (children b)" "\<not> green_is_trivia (elements b) (children b ! i)"
    | "k \<notin> set [TkWhitespace, TkEndOfLine, TkDocContinue]"
    using assms(2) Cons x by (auto simp: bfresh_def fresh_def)
  then have "s = 0 \<or> (\<exists>i. s \<le> i \<and> i < length ?cs \<and> \<not> green_is_trivia ?els (?cs ! i))"
  proof cases
    case 2
    with old [OF 2(2)] show ?thesis by auto
  next
    case 3
    then have "\<not> green_is_trivia ?els (?cs ! length (children b))" by (simp add: green_is_trivia_def)
    with len show ?thesis by (intro disjI2 exI [of _ "length (children b)"]) simp
  qed simp
  with Cons x show ?thesis by (simp add: bfresh_def fresh_def green_token_def)
qed (simp add: bfresh_def fresh_def green_token_def)

lemma start_node_safe:
  assumes "bsafe b" and "keeps_guard k \<Longrightarrow> bfresh b"
  shows "bsafe (start_node k b)"
  using assms
  by (cases "parents b") (auto simp: bsafe_def start_node_def bfresh_def fresh_def dest: stack_ok_hd)

lemma start_nodes_safe:
  "bsafe b \<Longrightarrow> (\<forall>k\<in>set ks. \<not> keeps_guard k) \<Longrightarrow> bsafe (fold start_node ks b)"
  by (induction ks arbitrary: b) (auto intro: start_node_safe)

text \<open>Closing never panics and keeps the stack in order; the node it makes is solid ground.\<close>

lemma finish_node_safe:
  assumes safe: "bsafe b"
  shows "\<exists>b'. finish_node b = Some b' \<and> bsafe b' \<and>
    ((\<forall>k s ps. parents b = (k, s) # ps \<longrightarrow> k \<noteq> Comment \<and> k \<noteq> DocDescription) \<longrightarrow> bfresh b')"
proof (cases "children b = [] \<or> parents b = []")
  case True
  then have run: "finish_node b = Some b" by (auto simp: finish_node_def split: list.split)
  moreover have "bfresh b"
    using True safe stack_ok_hd by (auto simp: bfresh_def fresh_def bsafe_def split: list.split) fastforce
  ultimately show ?thesis using safe by simp
next
  case False
  then obtain k s ps where ps: "parents b = (k, s) # ps" by (cases "parents b") auto
  have ok: "stack_ok (green_is_trivia (elements b)) (children b) ((k, s) # ps)"
    using safe ps by (simp add: bsafe_def)
  from finish_node_splice [OF ps _ stack_ok_hd [OF ok]] False obtain b' xs taken ys where
    run: "finish_node b = Some b'" and cs: "children b = xs @ taken @ ys"
    and b': "children b' = xs @ length (elements b) # ys" "elements b' = elements b @ [GNode k taken]"
      "parents b' = ps"
    and cut: "if keeps_guard k then ys = [] \<and> length xs \<le> s \<and>
       (\<forall>j. length xs \<le> j \<and> j < s \<longrightarrow> green_is_trivia (elements b) (children b ! j)) else s \<le> length xs"
    unfolding keeps_guard_def by blast
  have valid: "\<forall>c\<in>set (children b'). c < length (elements b')" using safe cs b' by (auto simp: bsafe_def intro: less_SucI)
  show ?thesis
  proof (cases ps)
    case Nil
    with run b' valid show ?thesis by (simp add: bsafe_def bfresh_def fresh_def)
  next
    case (Cons x ps')
    obtain k' s' where x: "x = (k', s')" by (cases x)
    have below: "s' \<le> length xs"
    proof (cases "keeps_guard k")
      case True
      with ok Cons x have "s' = 0 \<or> (\<exists>i. s' \<le> i \<and> i < s \<and> \<not> green_is_trivia (elements b) (children b ! i))" by simp
      then show ?thesis
      proof
        assume "\<exists>i. s' \<le> i \<and> i < s \<and> \<not> green_is_trivia (elements b) (children b ! i)"
        then obtain i where i: "s' \<le> i" "i < s" "\<not> green_is_trivia (elements b) (children b ! i)" by blast
        with cut True have "i < length xs" by (meson leI)
        with i show ?thesis by simp
      qed simp
    qed (use cut ok Cons x in auto)
    have old: "green_is_trivia (elements b') (children b' ! i) = green_is_trivia (elements b) (children b ! i)"
      if "i < length xs" for i
      using that safe cs b' by (simp add: bsafe_def nth_append)
    have "stack_ok (green_is_trivia (elements b')) (children b') ((k', s') # ps')"
      by (rule stack_ok_cong [of "green_is_trivia (elements b)" "children b"])
        (use ok Cons x below old b' in auto)
    with valid b' Cons x have "bsafe b'" by (simp add: bsafe_def)
    moreover have "bfresh b'" if "k \<noteq> Comment" "k \<noteq> DocDescription"
    proof -
      have "\<not> green_is_trivia (elements b') (children b' ! length xs)"
        using that by (simp add: b' green_is_trivia_def)
      with below b' Cons x show ?thesis by (auto simp: bfresh_def fresh_def intro!: exI [of _ "length xs"])
    qed
    ultimately show ?thesis using run ps by simp
  qed
qed

end
