(* ===== verification/Green_Tree.thy ===== *)
theory Green_Tree
  imports Builder_Safe
begin

text \<open>
  What the arena of the green builder stands for: a list of trees, one for each pending child.
  Opening a node changes nothing, a token adds a leaf, and closing a node puts some
  neighbouring trees under a new root, so the leaves stay the same, in the same order. The
  depth-first walk that hands the arena to rowan emits exactly the trace of the tree.
\<close>

section \<open>Trees\<close>

datatype GTree = GLeaf LuaTokenKind SourceRange | GBranch LuaSyntaxKind "GTree list"

fun leaves :: "GTree \<Rightarrow> (LuaTokenKind \<times> SourceRange) list" where
  "leaves (GLeaf k r) = [(k, r)]"
| "leaves (GBranch k ts) = concat (map leaves ts)"

definition leaf_text :: "rstring \<Rightarrow> SourceRange \<Rightarrow> rstring option" where
  "leaf_text src r = slice src (start_offset r) (end_offset r)"

text \<open>The calls on rowan's builder that make a tree.\<close>

fun trace :: "rstring \<Rightarrow> GTree \<Rightarrow> RowanCall list" where
  "trace src (GLeaf k r) = [RowanToken (get_raw (Token k)) (the (leaf_text src r))]"
| "trace src (GBranch k ts) = RowanStart (get_raw (Syntax k)) # concat (map (trace src) ts) @ [RowanFinish]"

section \<open>The arena\<close>

text \<open>
  \<open>arena_trees els ! i\<close> is the tree of element \<open>i\<close>, \<open>arena_feet els ! i\<close> the elements it is made of.
\<close>

fun elem_tree :: "GTree list \<Rightarrow> LuaGreenElement \<Rightarrow> GTree" where
  "elem_tree ts (GToken k r) = GLeaf k r"
| "elem_tree ts (GNode k cs) = GBranch k (map (nth ts) cs)"
| "elem_tree ts GNone = GBranch SkNone []"

fun elem_feet :: "nat list list \<Rightarrow> LuaGreenElement \<Rightarrow> nat list" where
  "elem_feet fs (GNode k cs) = length fs # concat (map (nth fs) cs)"
| "elem_feet fs _ = [length fs]"

definition arena_trees :: "LuaGreenElement list \<Rightarrow> GTree list" where
  "arena_trees els = foldl (\<lambda>ts e. ts @ [elem_tree ts e]) [] els"

definition arena_feet :: "LuaGreenElement list \<Rightarrow> nat list list" where
  "arena_feet els = foldl (\<lambda>fs e. fs @ [elem_feet fs e]) [] els"

text \<open>Elements refer to earlier ones only, and tokens lie inside the text.\<close>

fun elem_ok :: "rstring \<Rightarrow> nat \<Rightarrow> LuaGreenElement \<Rightarrow> bool" where
  "elem_ok src i (GNode k cs) \<longleftrightarrow> (\<forall>c\<in>set cs. c < i)"
| "elem_ok src i (GToken k r) \<longleftrightarrow> leaf_text src r \<noteq> None"
| "elem_ok src i GNone \<longleftrightarrow> False"

definition arena_ok :: "rstring \<Rightarrow> LuaGreenElement list \<Rightarrow> bool" where
  "arena_ok src els \<longleftrightarrow> (\<forall>i < length els. elem_ok src i (els ! i))"

lemma arena_simps [simp]:
  "arena_trees [] = []" "arena_feet [] = []"
  "arena_trees (els @ [e]) = arena_trees els @ [elem_tree (arena_trees els) e]"
  "arena_feet (els @ [e]) = arena_feet els @ [elem_feet (arena_feet els) e]"
  by (simp_all add: arena_trees_def arena_feet_def)

lemma length_arena [simp]: "length (arena_trees els) = length els" "length (arena_feet els) = length els"
  by (induction els rule: rev_induct) simp_all

lemma arena_ok_snoc [simp]: "arena_ok src (els @ [e]) \<longleftrightarrow> arena_ok src els \<and> elem_ok src (length els) e"
  by (auto simp: arena_ok_def nth_append less_Suc_eq)

lemma map_nth_append: "\<forall>c\<in>set cs. c < length xs \<Longrightarrow> map (nth (xs @ ys)) cs = map (nth xs) cs"
  by (simp add: nth_append)

lemma feet_bound:
  "arena_ok src els \<Longrightarrow> i < length els \<Longrightarrow> j \<in> set (arena_feet els ! i) \<Longrightarrow> j \<le> i"
proof (induction els arbitrary: i j rule: rev_induct)
  case (snoc e els)
  show ?case
  proof (cases "i < length els")
    case True
    with snoc.IH [of i j] snoc.prems show ?thesis by (simp add: nth_append)
  next
    case False
    with snoc.prems(2) have i: "i = length els" by simp
    have "c \<le> length els" if "d < length els" "c \<in> set (arena_feet els ! d)" for c d
      using snoc.IH [of d c] that snoc.prems(1) by simp
    with snoc.prems i show ?thesis by (cases e) (auto simp: nth_append)
  qed
qed simp

text \<open>The two lists satisfy the recursion that their elements suggest.\<close>

lemma arena_at:
  assumes "arena_ok src els" and "i < length els"
  shows "arena_trees els ! i = elem_tree (arena_trees els) (els ! i)"
    "arena_feet els ! i = (case els ! i of GNode k cs \<Rightarrow> i # concat (map (nth (arena_feet els)) cs) | _ \<Rightarrow> [i])"
proof -
  have "arena_trees els ! i = elem_tree (arena_trees els) (els ! i) \<and>
    arena_feet els ! i = (case els ! i of GNode k cs \<Rightarrow> i # concat (map (nth (arena_feet els)) cs) | _ \<Rightarrow> [i])"
    using assms
  proof (induction els rule: rev_induct)
    case (snoc e els)
    show ?case
    proof (cases "i < length els")
      case True
      have ok: "arena_ok src els" using snoc.prems(1) by simp
      with True have "elem_ok src i (els ! i)" by (simp add: arena_ok_def)
      then have "\<forall>c\<in>set cs. c < length els" if "els ! i = GNode k cs" for k cs
        using that True by auto
      with snoc.IH [OF ok True] True show ?thesis
        by (cases "els ! i") (auto simp: nth_append [of _ _ i] map_nth_append)
    next
      case False
      with snoc.prems have "i = length els" by simp
      with snoc.prems show ?thesis by (cases e) (auto simp: map_nth_append nth_append [of _ _ "length els"])
    qed
  qed simp
  then show "arena_trees els ! i = elem_tree (arena_trees els) (els ! i)"
    "arena_feet els ! i = (case els ! i of GNode k cs \<Rightarrow> i # concat (map (nth (arena_feet els)) cs) | _ \<Rightarrow> [i])"
    by simp_all
qed

section \<open>Pending children\<close>

definition yield :: "LuaGreenNodeBuilder \<Rightarrow> (LuaTokenKind \<times> SourceRange) list" where
  "yield b = concat (map (\<lambda>c. leaves (arena_trees (elements b) ! c)) (children b))"

definition feet :: "LuaGreenNodeBuilder \<Rightarrow> nat list" where
  "feet b = concat (map (nth (arena_feet (elements b))) (children b))"

text \<open>The arena is in order and the pending trees share no element.\<close>

definition forest_ok :: "rstring \<Rightarrow> LuaGreenNodeBuilder \<Rightarrow> bool" where
  "forest_ok src b \<longleftrightarrow> arena_ok src (elements b) \<and> (\<forall>c\<in>set (children b). c < length (elements b)) \<and>
     distinct (feet b)"

lemma forest_feet_bound: "forest_ok src b \<Longrightarrow> j \<in> set (feet b) \<Longrightarrow> j < length (elements b)"
  using feet_bound [of src "elements b"] by (fastforce simp: forest_ok_def feet_def)

lemma forest_new [simp]: "forest_ok src green_new" "yield green_new = []"
  by (simp_all add: forest_ok_def green_new_def arena_ok_def feet_def yield_def)

lemma forest_start [simp]:
  "forest_ok src (start_node k b) = forest_ok src b" "yield (start_node k b) = yield b"
  by (simp_all add: start_node_def forest_ok_def yield_def feet_def)

lemma forest_starts [simp]:
  "forest_ok src (fold start_node ks b) = forest_ok src b" "yield (fold start_node ks b) = yield b"
  by (induction ks arbitrary: b) simp_all

lemma forest_token:
  assumes "forest_ok src b" and "leaf_text src r \<noteq> None"
  shows "forest_ok src (green_token k r b)" "yield (green_token k r b) = yield b @ [(k, r)]"
proof -
  let ?b = "green_token k r b"
  have cs: "\<forall>c\<in>set (children b). c < length (elements b)" using assms(1) by (simp add: forest_ok_def)
  then have "feet ?b = feet b @ [length (elements b)]"
    by (simp add: green_token_def feet_def nth_append cong: map_cong)
  then show "forest_ok src ?b"
    using assms cs forest_feet_bound [OF assms(1)] by (fastforce simp: forest_ok_def green_token_def)
  show "yield ?b = yield b @ [(k, r)]"
    using cs by (simp add: green_token_def yield_def nth_append cong: map_cong)
qed

lemma forest_finish:
  assumes b: "forest_ok src b" and cs: "children b = xs @ taken @ ys"
    and b': "children b' = xs @ length (elements b) # ys" "elements b' = elements b @ [GNode k taken]"
  shows "forest_ok src b'" "yield b' = yield b"
proof -
  have valid: "\<forall>c\<in>set (children b). c < length (elements b)" using b by (simp add: forest_ok_def)
  let ?f = "\<lambda>cs. concat (map (nth (arena_feet (elements b))) cs)"
  have "feet b' = ?f xs @ length (elements b) # ?f taken @ ?f ys"
    using valid cs by (simp add: feet_def b' nth_append cong: map_cong)
  moreover have "feet b = ?f xs @ ?f taken @ ?f ys" by (simp add: feet_def cs)
  ultimately have "distinct (feet b')"
    using b forest_feet_bound [OF b] by (fastforce simp: forest_ok_def)
  moreover have "\<forall>c\<in>set (children b'). c < length (elements b')"
    using valid by (auto simp: b' cs intro: less_SucI)
  ultimately show "forest_ok src b'" using b valid by (simp add: forest_ok_def b' cs)
  show "yield b' = yield b"
    using valid cs by (simp add: yield_def b' nth_append cong: map_cong)
qed

section \<open>The walk over the arena\<close>

lemma rowan_tree:
  assumes ok: "arena_ok src els0"
  shows "i < length els0 \<Longrightarrow> length els = length els0 \<Longrightarrow> distinct (arena_feet els0 ! i) \<Longrightarrow>
    (\<And>j. j \<in> set (arena_feet els0 ! i) \<Longrightarrow> els ! j = els0 ! j) \<Longrightarrow>
    \<exists>els'. rowan_loop src (Open i # st) els calls =
        rowan_loop src st els' (calls @ trace src (arena_trees els0 ! i)) \<and>
      length els' = length els0 \<and> (\<forall>j. j \<notin> set (arena_feet els0 ! i) \<longrightarrow> els' ! j = els ! j)"
proof (induction i arbitrary: els st calls rule: less_induct)
  case (less i)
  note at = arena_at [OF ok less.prems(1)]
  have i: "i \<in> set (arena_feet els0 ! i)" by (simp add: at(2) split: LuaGreenElement.split)
  have elem: "els ! i = els0 ! i" "elem_ok src i (els0 ! i)"
    using less.prems(1) less.prems(4) [OF i] ok by (simp_all add: arena_ok_def)
  show ?case
  proof (cases "els0 ! i")
    case GNone
    with elem(2) show ?thesis by simp
  next
    case (GToken k r)
    with elem less.prems at show ?thesis
      by (intro exI [of _ "els[i := GNone]"])
        (auto simp: rowan_loop.simps [of src "Open i # st"] leaf_text_def nth_list_update)
  next
    case (GNode k cs)
    let ?F = "\<lambda>cs. concat (map (nth (arena_feet els0)) cs)"
    have cs: "\<forall>c\<in>set cs. c < i" using elem(2) GNode by simp
    have walk: "\<forall>c\<in>set ds. c < i \<Longrightarrow> length els = length els0 \<Longrightarrow> distinct (?F ds) \<Longrightarrow>
        (\<And>j. j \<in> set (?F ds) \<Longrightarrow> els ! j = els0 ! j) \<Longrightarrow>
        \<exists>els'. rowan_loop src (map Open ds @ st) els calls =
            rowan_loop src st els' (calls @ concat (map (trace src) (map (nth (arena_trees els0)) ds))) \<and>
          length els' = length els0 \<and> (\<forall>j. j \<notin> set (?F ds) \<longrightarrow> els' ! j = els ! j)" for ds els st calls
    proof (induction ds arbitrary: els calls)
      case (Cons d ds)
      have "\<exists>els'. rowan_loop src (Open d # map Open ds @ st) els calls =
          rowan_loop src (map Open ds @ st) els' (calls @ trace src (arena_trees els0 ! d)) \<and>
          length els' = length els0 \<and> (\<forall>j. j \<notin> set (arena_feet els0 ! d) \<longrightarrow> els' ! j = els ! j)"
        by (rule less.IH) (use Cons.prems less.prems(1) in auto)
      then obtain els1 where first: "rowan_loop src (Open d # map Open ds @ st) els calls =
          rowan_loop src (map Open ds @ st) els1 (calls @ trace src (arena_trees els0 ! d))"
          "length els1 = length els0" "\<forall>j. j \<notin> set (arena_feet els0 ! d) \<longrightarrow> els1 ! j = els ! j" by blast
      have "els1 ! j = els0 ! j" if "j \<in> set (?F ds)" for j
      proof -
        have "j \<notin> set (arena_feet els0 ! d)" using that Cons.prems(3) by auto
        with first(3) Cons.prems(4) [of j] that show ?thesis by simp
      qed
      from Cons.IH [OF _ first(2) _ this, of "calls @ trace src (arena_trees els0 ! d)"] Cons.prems(1,3)
      obtain els2 where rest: "rowan_loop src (map Open ds @ st) els1 (calls @ trace src (arena_trees els0 ! d)) =
            rowan_loop src st els2 ((calls @ trace src (arena_trees els0 ! d)) @
              concat (map (trace src) (map (nth (arena_trees els0)) ds)))"
          "length els2 = length els0" "\<forall>j. j \<notin> set (?F ds) \<longrightarrow> els2 ! j = els1 ! j" by auto
      with first show ?case by (intro exI [of _ els2]) simp
    qed (simp; blast)
    let ?els = "els[i := GNone]" and ?calls = "calls @ [RowanStart (get_raw (Syntax k))]"
    have feet: "arena_feet els0 ! i = i # ?F cs" using at(2) GNode by simp
    have "?els ! j = els0 ! j" if "j \<in> set (?F cs)" for j
    proof -
      have "j \<noteq> i" using that less.prems(3) by (auto simp: feet)
      with that less.prems(4) [of j] show ?thesis by (simp add: feet)
    qed
    from walk [OF cs _ _ this, of "Close # st" ?calls] less.prems(2,3) obtain els' where
      body: "rowan_loop src (map Open cs @ Close # st) ?els ?calls = rowan_loop src (Close # st) els'
          (?calls @ concat (map (trace src) (map (nth (arena_trees els0)) cs)))"
        "length els' = length els0" "\<forall>j. j \<notin> set (?F cs) \<longrightarrow> els' ! j = ?els ! j"
      by (auto simp: feet)
    have "rowan_loop src (Open i # st) els calls = rowan_loop src (map Open cs @ Close # st) ?els ?calls"
      using less.prems(1,2) elem GNode by (simp add: rowan_loop.simps [of src "Open i # st"])
    moreover have "rowan_loop src (Close # st) els' cc = rowan_loop src st els' (cc @ [RowanFinish])" for cc
      by (simp add: rowan_loop.simps [of src "Close # st"])
    ultimately show ?thesis using body GNode at(1)
      by (intro exI [of _ els']) (simp add: feet)
  qed
qed

end
