(* ===== verification/Build_Run.thy ===== *)
theory Build_Run
  imports Green_Tree
begin

text \<open>
  \<open>LuaTreeBuilder::build\<close> on well-formed events: the chains of parents end, no event is used twice,
  and the green builder is never asked for something it cannot do.
\<close>

section \<open>Chains of parents\<close>

text \<open>
  \<open>erased es0 V es\<close>: the events \<open>es\<close> are \<open>es0\<close> with those at the positions \<open>V\<close> used up. In a
  \<open>rooted\<close> set every position from \<open>n\<close> on was used up because it is the parent of another one.
\<close>

definition erased :: "MarkEvent list \<Rightarrow> nat set \<Rightarrow> MarkEvent list \<Rightarrow> bool" where
  "erased es0 V es \<longleftrightarrow> length es = length es0 \<and>
     (\<forall>j < length es0. es ! j = (if j \<in> V then none_event else es0 ! j))"

definition rooted :: "MarkEvent list \<Rightarrow> nat \<Rightarrow> nat set \<Rightarrow> bool" where
  "rooted es0 n V \<longleftrightarrow>
     (\<forall>v\<in>V. n \<le> v \<longrightarrow> v < length es0 \<and> is_start (es0 ! v) \<and> (\<exists>u\<in>V. parent_of es0 u = v))"

lemma erased_insert: "erased es0 V es \<Longrightarrow> i < length es0 \<Longrightarrow> erased es0 (insert i V) (es[i := none_event])"
  by (auto simp: erased_def nth_list_update)

lemma rooted_insert:
  assumes "rooted es0 n V" and "n \<le> u \<Longrightarrow> u < length es0 \<and> is_start (es0 ! u) \<and> (\<exists>w\<in>V. parent_of es0 w = u)"
  shows "rooted es0 n (insert u V)"
  using assms by (auto simp: rooted_def)

lemma rooted_later: "rooted es0 n V \<Longrightarrow> n \<le> m \<Longrightarrow> rooted es0 m V"
  by (auto simp: rooted_def)

text \<open>The parent of a position that was not used before was not used either.\<close>

lemma parent_unused:
  assumes links: "links es0" and q: "parent_of es0 u \<noteq> 0" and V: "u \<notin> V" "rooted es0 n V" "n \<le> Suc u"
  shows "parent_of es0 u \<notin> insert u V"
proof
  note d = linksD [OF links q]
  assume "parent_of es0 u \<in> insert u V"
  with d(1) have "parent_of es0 u \<in> V" "n \<le> parent_of es0 u" using V(3) by auto
  then obtain w where "w \<in> V" "parent_of es0 w = parent_of es0 u" using V(2) by (auto simp: rooted_def)
  with d(5) [of w] V(1) show False by simp
qed

lemma parent_chain_ok:
  assumes links: "links es0"
  shows "erased es0 (insert u V) es \<Longrightarrow> u \<notin> V \<Longrightarrow> rooted es0 n V \<Longrightarrow> n \<le> Suc u \<Longrightarrow> finite V \<Longrightarrow>
    (n \<le> u \<Longrightarrow> u < length es0 \<and> is_start (es0 ! u) \<and> (\<exists>w\<in>V. parent_of es0 w = u)) \<Longrightarrow>
    \<exists>ks es' V'. parent_chain es (parent_of es0 u) = Some (ks, es') \<and> erased es0 V' es' \<and>
      insert u V \<subseteq> V' \<and> rooted es0 n V' \<and> finite V' \<and> card V' = card (insert u V) + length ks \<and>
      (\<forall>v \<in> V'. v \<in> insert u V \<or> u < v) \<and> list_all plain ks"
proof (induction "length es0 - u" arbitrary: u V es rule: less_induct)
  case less
  let ?q = "parent_of es0 u"
  have root: "rooted es0 n (insert u V)" by (rule rooted_insert [OF less.prems(3,6)])
  show ?case
  proof (cases "?q = 0")
    case True
    then have "parent_chain es ?q = Some ([], es)" by (simp add: parent_chain.simps)
    with less.prems root show ?thesis
      by (intro exI [of _ "[]"] exI [of _ es] exI [of _ "insert u V"]) simp
  next
    case False
    note d = linksD(1-4) [OF links False]
    obtain k r where at: "es0 ! ?q = NodeStart k r" "plain k"
      using d(3) by (auto simp: is_start_def split: MarkEvent.splits)
    have r: "r = parent_of es0 ?q" using at(1) d(2) by (simp add: parent_of_def)
    have unused: "?q \<notin> insert u V" by (rule parent_unused [OF links False less.prems(2,3,4)])
    have es: "length es = length es0" "es ! ?q = NodeStart k r"
      using less.prems(1) d(2) at(1) unused by (auto simp: erased_def)
    have "\<exists>ks es' V'. parent_chain (es[?q := none_event]) (parent_of es0 ?q) = Some (ks, es') \<and>
      erased es0 V' es' \<and> insert ?q (insert u V) \<subseteq> V' \<and> rooted es0 n V' \<and> finite V' \<and>
      card V' = card (insert ?q (insert u V)) + length ks \<and>
      (\<forall>v \<in> V'. v \<in> insert ?q (insert u V) \<or> ?q < v) \<and> list_all plain ks"
      by (rule less.hyps [OF _ _ unused root])
        (use d less.prems erased_insert [OF less.prems(1)] in auto)
    then obtain ks es' V' where rec:
      "parent_chain (es[?q := none_event]) r = Some (ks, es')" "erased es0 V' es'"
      "insert ?q (insert u V) \<subseteq> V'" "rooted es0 n V'" "finite V'"
      "card V' = card (insert ?q (insert u V)) + length ks"
      "\<forall>v \<in> V'. v \<in> insert ?q (insert u V) \<or> ?q < v" "list_all plain ks"
      using r by blast
    have "parent_chain es ?q = Some (k # ks, es')"
      using False es rec(1) d(2) by (simp add: parent_chain.simps [of es ?q])
    moreover have "card V' = card (insert u V) + length (k # ks)"
      using rec(6) unused less.prems(5) by simp
    moreover have "\<forall>v \<in> V'. v \<in> insert u V \<or> u < v" using rec(7) d(1) by fastforce
    ultimately show ?thesis using rec at(2)
      by (intro exI [of _ "k # ks"] exI [of _ es'] exI [of _ V']) auto
  qed
qed

section \<open>One event\<close>

lemma finish_forest:
  assumes "bsafe b" and "forest_ok src b" and "finish_node b = Some b'"
  shows "forest_ok src b' \<and> yield b' = yield b \<and> set (parents b') \<subseteq> set (parents b) \<and>
    (children b \<noteq> [] \<longrightarrow> parents b' = tl (parents b))"
proof (cases "children b = [] \<or> parents b = []")
  case True
  then have "b' = b" using assms(3) by (auto simp: finish_node_def split: list.splits)
  with True assms(2) show ?thesis by auto
next
  case False
  then obtain k s ps where ps: "parents b = (k, s) # ps" by (cases "parents b") auto
  have "s \<le> length (children b)" using assms(1) ps stack_ok_hd by (fastforce simp: bsafe_def)
  from finish_node_splice [OF ps _ this] False assms(3) obtain xs taken ys where
    "children b = xs @ taken @ ys" "children b' = xs @ length (elements b) # ys"
    "elements b' = elements b @ [GNode k taken]" "parents b' = ps" by auto
  with forest_finish [OF assms(2), of xs taken ys b' k] ps show ?thesis by auto
qed

definition built ::
  "rstring \<Rightarrow> MarkEvent list \<Rightarrow> nat \<Rightarrow> nat set \<Rightarrow> MarkEvent list \<Rightarrow> LuaGreenNodeBuilder \<Rightarrow> bool" where
  "built src es0 n V es b \<longleftrightarrow>
     {..<n} \<subseteq> V \<and> V \<subseteq> {..<length es0} \<and> erased es0 V es \<and> rooted es0 n V \<and>
     bsafe b \<and> forest_ok src b \<and> yield b = eaten (take n es0) \<and>
     (n = 0 \<or> solid (take n es0) \<longrightarrow> bfresh b) \<and>
     (\<forall>x\<in>set (parents b). fst x \<noteq> Comment \<and> fst x \<noteq> DocDescription) \<and>
     (\<forall>d. walk 0 (take n es0) = Some d \<longrightarrow> ends_ok (take n es0) \<longrightarrow>
        length (parents b) + n = 1 + d + card V \<and> parents b \<noteq> [] \<and> last (parents b) = (Chunk, 0))"

text \<open>Reading event \<open>n\<close>: it was used up before exactly if it is the parent of an earlier one.\<close>

lemma built_read:
  assumes "built src es0 n V es b" and "n < length es0"
  shows "finite V" "es ! n = (if n \<in> V then none_event else es0 ! n)"
    "n \<in> V \<Longrightarrow> is_start (es0 ! n)" "erased es0 (insert n V) (es[n := none_event])"
    "take (Suc n) es0 = take n es0 @ [es0 ! n]" "{..<Suc n} \<subseteq> insert n V" "insert n V \<subseteq> {..<length es0}"
    "rooted es0 (Suc n) V"
  using assms erased_insert [of es0 V es n]
  by (auto simp: built_def erased_def rooted_def take_Suc_conv_app_nth lessThan_Suc
      intro: finite_subset [of V "{..<length es0}"])

lemma ends_ok_take: "ends_ok (es @ [e]) \<Longrightarrow> ends_ok es"
  unfolding ends_ok_def
proof (intro allI impI)
  fix i assume "\<forall>i<length (es @ [e]). (es @ [e]) ! i = NodeEnd \<longrightarrow> eaten (take i (es @ [e])) \<noteq> []"
    "i < length es" "es ! i = NodeEnd"
  then show "eaten (take i es) \<noteq> []" by (auto simp: nth_append dest: spec [of _ i])
qed

text \<open>An event that is skipped: trivia, an erased start, or a start that was used up.\<close>

lemma built_skip:
  assumes b: "built src es0 n V es b" and n: "n < length es0"
    and e: "n \<in> V \<or> es0 ! n = Trivia \<or> (\<exists>q. es0 ! n = NodeStart SkNone q)"
  shows "built src es0 (Suc n) (insert n V) (es[n := none_event]) b"
proof (cases "n \<in> V")
  case True
  note r = built_read [OF b n]
  obtain k q where k: "es0 ! n = NodeStart k q" "k \<noteq> SkNone"
    using r(3) [OF True] by (auto simp: is_start_def plain_def split: MarkEvent.splits)
  have V: "insert n V = V" using True by auto
  have "\<not> solid (take n es0 @ [NodeStart k q])" using k(2) by (rule not_solid_start)
  moreover have "walk 0 (take n es0 @ [NodeStart k q]) = map_option Suc (walk 0 (take n es0))"
    using k(2) by (cases "walk 0 (take n es0)") (simp_all add: walk_append)
  ultimately show ?thesis
    using b r k V by (auto simp: built_def dest!: ends_ok_take)
next
  case False
  note r = built_read [OF b n]
  have skip: "skippable (es0 ! n)" "eaten [es0 ! n] = []" "walk d [es0 ! n] = Some d" for d
    using e False by (auto simp: skippable_def)
  have "walk 0 (take n es0 @ [es0 ! n]) = walk 0 (take n es0)"
    by (cases "walk 0 (take n es0)") (simp_all add: walk_append skip)
  moreover have "rooted es0 (Suc n) (insert n V)" by (rule rooted_insert [OF r(8)]) simp
  moreover have "n = 0 \<or> solid (take n es0) \<longleftrightarrow> n = 0 \<or> solid (take n es0 @ [es0 ! n])"
    by (simp add: solid_snoc skip)
  moreover have "card (insert n V) = Suc (card V)" using False r(1) by simp
  ultimately show ?thesis
    using b r(4-7) skip(2) by (auto simp: built_def solid_snoc skip dest!: ends_ok_take)
qed

lemma built_token:
  assumes b: "built src es0 n V es b" and n: "n < length es0"
    and e: "es0 ! n = EatToken k r" and r: "leaf_text src r \<noteq> None"
  shows "built src es0 (Suc n) (insert n V) (es[n := none_event]) (green_token k r b)"
proof -
  note rd = built_read [OF b n]
  have new: "n \<notin> V" using rd(3) e by (auto simp: is_start_def)
  have safe: "bsafe b" "forest_ok src b" using b by (simp_all add: built_def)
  have "rooted es0 (Suc n) (insert n V)" by (rule rooted_insert [OF rd(8)]) simp
  moreover have "bfresh (green_token k r b)" if "solid (take n es0 @ [EatToken k r])"
    using that b by (intro green_token_fresh [OF safe(1)])
      (auto simp: built_def solid_snoc skippable_def split: if_splits)
  moreover have "walk 0 (take n es0 @ [EatToken k r]) = walk 0 (take n es0)"
    by (cases "walk 0 (take n es0)") (simp_all add: walk_append)
  moreover have "parents (green_token k r b) = parents b" by (simp add: green_token_def)
  moreover have "card (insert n V) = Suc (card V)" using new rd(1) by simp
  ultimately show ?thesis
    using b rd(4-7) green_token_safe [OF safe(1)] forest_token [OF safe(2) r]
    by (auto simp: built_def e dest!: ends_ok_take)
qed

lemma built_end:
  assumes b: "built src es0 n V es b" and n: "n < length es0" and e: "es0 ! n = NodeEnd"
  shows "\<exists>b'. finish_node b = Some b' \<and> built src es0 (Suc n) (insert n V) (es[n := none_event]) b'"
proof -
  note rd = built_read [OF b n]
  have new: "n \<notin> V" using rd(3) e by (auto simp: is_start_def)
  have safe: "bsafe b" "forest_ok src b" "yield b = eaten (take n es0)" using b by (simp_all add: built_def)
  have kinds: "\<forall>x\<in>set (parents b). fst x \<noteq> Comment \<and> fst x \<noteq> DocDescription"
    using b by (simp add: built_def)
  obtain b' where b': "finish_node b = Some b'" "bsafe b'" "bfresh b'"
    using finish_node_safe [OF safe(1)] kinds by (metis fst_conv list.set_intros(1))
  note f = finish_forest [OF safe(1,2) b'(1)]
  have "rooted es0 (Suc n) (insert n V)" by (rule rooted_insert [OF rd(8)]) simp
  moreover have "length (parents b') + Suc n = 1 + d + card (insert n V) \<and> parents b' \<noteq> [] \<and>
      last (parents b') = (Chunk, 0)"
    if d: "walk 0 (take n es0 @ [NodeEnd]) = Some d" "ends_ok (take n es0 @ [NodeEnd])" for d
  proof -
    have old: "walk 0 (take n es0) = Some (Suc d)"
      using d(1) by (cases "walk 0 (take n es0)") (auto simp: walk_append split: if_splits)
    have "eaten (take n es0) \<noteq> []" using d(2) n by (auto simp: ends_ok_def nth_append dest: spec [of _ n])
    then have "children b \<noteq> []" using safe(3) by (auto simp: yield_def)
    then have tl: "parents b' = tl (parents b)" using f by simp
    have len: "length (parents b) + n = 1 + Suc d + card V" "parents b \<noteq> []" "last (parents b) = (Chunk, 0)"
      using b old ends_ok_take [OF d(2)] by (simp_all add: built_def)
    have "n \<le> card V" using b rd(1) card_mono [of V "{..<n}"] by (simp add: built_def)
    with len tl new rd(1) show ?thesis
      by (cases "parents b"; cases "tl (parents b)") auto
  qed
  ultimately show ?thesis
    using b rd(4-7) b' f kinds by (intro exI [of _ b']) (auto simp: built_def e)
qed

lemma start_nodes_parents:
  "parents (fold start_node ks b) = map (\<lambda>k. (k, length (children b))) (rev ks) @ parents b"
  by (induction ks arbitrary: b) (simp_all add: start_node_def)

lemma plain_no_trivia: "k = Block \<or> plain k \<Longrightarrow> k \<noteq> Comment \<and> k \<noteq> DocDescription"
  by (auto simp: plain_def)

lemma built_start:
  assumes b: "built src es0 n V es b" and n: "n < length es0" and wf: "wf_events es0"
    and e: "es0 ! n = NodeStart k q" "k \<noteq> SkNone" and new: "n \<notin> V"
  shows "\<exists>ks es' V'. parent_chain (es[n := none_event]) q = Some (ks, es') \<and>
    built src es0 (Suc n) V' es' (fold start_node (rev (k # ks)) b)"
proof -
  note rd = built_read [OF b n]
  have links: "links es0" using wf by (simp add: wf_events_def)
  have kind: "k = Block \<or> plain k" using wf e n nth_mem [OF n] by (auto simp: wf_events_def kinds_ok_def)
  have q: "q = parent_of es0 n" using e n by (simp add: parent_of_def)
  obtain ks es' V' where c: "parent_chain (es[n := none_event]) q = Some (ks, es')" "erased es0 V' es'"
      "insert n V \<subseteq> V'" "rooted es0 (Suc n) V'" "finite V'" "card V' = card (insert n V) + length ks"
      "list_all plain ks"
    using parent_chain_ok [OF links rd(4) new rd(8)] rd(1) by (auto simp: q)
  let ?b = "fold start_node (rev (k # ks)) b"
  have plain: "\<forall>k\<in>set ks. plain k \<and> \<not> keeps_guard k"
    using c(7) by (auto simp: list_all_iff keeps_guard_def plain_def)
  have safe: "bsafe ?b"
  proof (cases "k = Block")
    case True
    have "q = 0" using linksD(4) [OF links, of n] e True q by (auto simp: is_start_def plain_def)
    then have "ks = []" using c(1) by (simp add: parent_chain.simps)
    moreover have "bfresh b" using wf b n e True by (auto simp: wf_events_def blocks_ok_def built_def)
    ultimately show ?thesis using b start_node_safe [of b k] by (simp add: built_def)
  next
    case False
    with kind plain b show ?thesis
      by (intro start_nodes_safe) (auto simp: built_def keeps_guard_def plain_def)
  qed
  have V: "{..<Suc n} \<subseteq> V'" "V' \<subseteq> {..<length es0}"
    using c(3,4) rd(6,7) by (auto simp: rooted_def)
  have "walk 0 (take n es0 @ [NodeStart k q]) = map_option Suc (walk 0 (take n es0))"
    using e(2) by (cases "walk 0 (take n es0)") (simp_all add: walk_append)
  moreover have "card V' = Suc (card V) + length ks" using c(6) new rd(1) by simp
  moreover have "\<forall>x\<in>set (parents ?b). fst x \<noteq> Comment \<and> fst x \<noteq> DocDescription"
  proof -
    have "\<forall>j\<in>set (k # ks). j \<noteq> Comment \<and> j \<noteq> DocDescription"
      using plain kind plain_no_trivia by (fastforce simp only: set_simps insert_iff)
    moreover have "\<forall>x\<in>set (parents b). fst x \<noteq> Comment \<and> fst x \<noteq> DocDescription"
      using b by (simp add: built_def)
    ultimately show ?thesis unfolding start_nodes_parents by (simp only: rev_rev_ident set_append set_map) auto
  qed
  moreover have "length (parents ?b) = Suc (length ks) + length (parents b)"
    "parents b \<noteq> [] \<Longrightarrow> last (parents ?b) = last (parents b)"
    by (simp_all only: start_nodes_parents) simp_all
  moreover have "forest_ok src ?b" "yield ?b = yield b" using b by (simp_all only: forest_starts) (simp add: built_def)
  moreover have "\<not> solid (take n es0 @ [NodeStart k q])" using e(2) by (rule not_solid_start)
  ultimately have "built src es0 (Suc n) V' es' ?b"
    using b rd(5) c V safe e unfolding built_def
    by (simp del: fold.simps rev.simps fold_append rev_append) (auto dest!: ends_ok_take)
  with c(1) show ?thesis by blast
qed

section \<open>The whole run\<close>

lemma build_event_ok:
  assumes b: "built src es0 n V es b" and n: "n < length es0" and wf: "wf_events es0"
    and texts: "\<forall>x\<in>set (eaten es0). leaf_text src (snd x) \<noteq> None"
  shows "\<exists>V' es' b'. build_event n (es, b) = Some (es', b') \<and> built src es0 (Suc n) V' es' b'"
proof (cases "n \<in> V")
  case True
  then have "es ! n = none_event" using built_read(2) [OF b n] by simp
  with built_skip [OF b n] True show ?thesis by (auto simp: build_event_def none_event_def)
next
  case False
  then have es: "es ! n = es0 ! n" using built_read(2) [OF b n] by simp
  show ?thesis
  proof (cases "es0 ! n")
    case (NodeStart k q)
    with es built_skip [OF b n] built_start [OF b n wf NodeStart _ False] show ?thesis
      by (cases "k = SkNone") (auto simp: build_event_def)
  next
    case (EatToken k r)
    then have "(k, r) \<in> set (eaten es0)"
      using nth_mem [OF n] by (metis eaten_append eaten.simps(2) in_set_conv_decomp list.set_intros(1) append_Cons Un_iff set_append)
    with texts have "leaf_text src r \<noteq> None" by force
    from built_token [OF b n EatToken this] es EatToken show ?thesis by (auto simp: build_event_def)
  next
    case NodeEnd
    with es built_end [OF b n NodeEnd] show ?thesis by (auto simp: build_event_def)
  next
    case Trivia
    with es built_skip [OF b n] show ?thesis by (auto simp: build_event_def)
  qed
qed

lemma build_events_ok:
  assumes wf: "wf_events es0" and texts: "\<forall>x\<in>set (eaten es0). leaf_text src (snd x) \<noteq> None"
  shows "built src es0 n V es b \<Longrightarrow> n \<le> length es0 \<Longrightarrow>
    \<exists>V' es' b'. build_events [n ..< length es0] (es, b) = Some (es', b') \<and> built src es0 (length es0) V' es' b'"
proof (induction "length es0 - n" arbitrary: n V es b)
  case 0
  then show ?case by auto
next
  case (Suc m)
  then have n: "n < length es0" by simp
  from build_event_ok [OF Suc.prems(1) n wf texts] obtain V1 es1 b1 where
    step: "build_event n (es, b) = Some (es1, b1)" "built src es0 (Suc n) V1 es1 b1" by blast
  with Suc.hyps(1) [OF _ step(2)] Suc.hyps(2) n show ?case by (auto simp: upt_conv_Cons)
qed

lemma built_init: "built src es0 0 {} es0 (start_node Chunk green_new)"
proof -
  have "forest_ok src (start_node Chunk green_new)" "yield (start_node Chunk green_new) = []" by simp_all
  then show ?thesis
    by (auto simp: built_def erased_def rooted_def bsafe_def bfresh_def fresh_def start_node_def green_new_def)
qed

text \<open>
  The builder returns on all well-formed events; the trees it leaves have the tokens of the
  events as leaves. When the events are balanced there is one tree, with the kind \<open>Chunk\<close>.
\<close>

lemma build_ok:
  assumes wf: "wf_events es" and texts: "\<forall>x\<in>set (eaten es). leaf_text src (snd x) \<noteq> None"
  shows "\<exists>b. build es = Some b \<and> forest_ok src b \<and> yield b = eaten es \<and>
    (closed es \<longrightarrow> ends_ok es \<longrightarrow> children b = [] \<or> (\<exists>c cs. children b = [c] \<and> elements b ! c = GNode Chunk cs))"
proof -
  from build_events_ok [OF wf texts built_init] obtain V es' b where
    run: "build_events [0 ..< length es] (es, start_node Chunk green_new) = Some (es', b)"
    and b: "built src es (length es) V es' b" by auto
  have safe: "bsafe b" "forest_ok src b" "yield b = eaten es" using b by (simp_all add: built_def)
  obtain b' where b': "finish_node b = Some b'" using finish_node_safe [OF safe(1)] by blast
  note f = finish_forest [OF safe(1,2) b']
  have "children b' = [] \<or> (\<exists>c cs. children b' = [c] \<and> elements b' ! c = GNode Chunk cs)"
    if "closed es" "ends_ok es"
  proof -
    have "V = {..<length es}" using b by (auto simp: built_def)
    then have ps: "parents b = [(Chunk, 0)]"
      using b that by (cases "parents b") (auto simp: built_def closed_def)
    show ?thesis
    proof (cases "children b = []")
      case True
      with b' show ?thesis by (simp add: finish_node_def)
    next
      case False
      from finish_node_splice [OF ps False] b' show ?thesis by auto
    qed
  qed
  with run b' f safe(3) show ?thesis by (intro exI [of _ b']) (simp add: build_def)
qed

lemma green_finish_ok:
  assumes b: "forest_ok src b"
  shows "\<exists>t. green_finish src b = Some (trace src t) \<and>
    (children b = [] \<longrightarrow> t = GBranch Chunk []) \<and>
    (\<forall>c cs. children b = c # cs \<longrightarrow>
      (\<exists>ts. t = GBranch Chunk ts) \<and> leaves t = leaves (arena_trees (elements b) ! c))"
proof (cases "children b")
  case Nil
  then show ?thesis by (intro exI [of _ "GBranch Chunk []"]) (simp add: green_finish_def)
next
  case (Cons c cs)
  have c: "c < length (elements b)" "distinct (arena_feet (elements b) ! c)" and ok: "arena_ok src (elements b)"
    using b Cons by (auto simp: forest_ok_def feet_def)
  let ?t = "arena_trees (elements b) ! c"
  from rowan_tree [OF ok c(1) refl c(2), of "[]" "[]"] obtain els' where
    "rowan_loop src [Open c] (elements b) [] = rowan_loop src [] els' (trace src ?t)" by auto
  then have run: "build_rowan_green src c (elements b) = Some (trace src ?t)"
    by (simp add: build_rowan_green_def rowan_loop.simps [of src "[]"])
  show ?thesis
  proof (cases "\<exists>ds. elements b ! c = GNode Chunk ds")
    case True
    then obtain ds where "elements b ! c = GNode Chunk ds" by blast
    with arena_at(1) [OF ok c(1)] Cons run c show ?thesis
      by (intro exI [of _ ?t]) (simp add: green_finish_def)
  next
    case False
    with Cons run c show ?thesis
      by (intro exI [of _ "GBranch Chunk [?t]"])
        (auto simp: green_finish_def split: LuaGreenElement.splits)
  qed
qed

lemma build_tree_ok:
  assumes wf: "wf_events es" and texts: "\<forall>x\<in>set (eaten es). leaf_text src (snd x) \<noteq> None"
  shows "\<exists>ts rest. build_tree src es = Some (trace src (GBranch Chunk ts)) \<and>
    eaten es = leaves (GBranch Chunk ts) @ rest \<and> (closed es \<longrightarrow> ends_ok es \<longrightarrow> rest = [])"
proof -
  from build_ok [OF assms] obtain b where b: "build es = Some b" "forest_ok src b" "yield b = eaten es"
    "closed es \<longrightarrow> ends_ok es \<longrightarrow> children b = [] \<or> (\<exists>c cs. children b = [c] \<and> elements b ! c = GNode Chunk cs)"
    by blast
  from green_finish_ok [OF b(2)] obtain t where t: "green_finish src b = Some (trace src t)"
    "children b = [] \<longrightarrow> t = GBranch Chunk []"
    "\<forall>c cs. children b = c # cs \<longrightarrow> (\<exists>ts. t = GBranch Chunk ts) \<and> leaves t = leaves (arena_trees (elements b) ! c)"
    by (elim exE conjE) simp
  show ?thesis
  proof (cases "children b")
    case Nil
    with b t show ?thesis
      by (intro exI [of _ "[]"]) (simp add: build_tree_def yield_def)
  next
    case (Cons c cs)
    with t obtain ts where ts: "t = GBranch Chunk ts" "leaves t = leaves (arena_trees (elements b) ! c)" by blast
    let ?rest = "concat (map (\<lambda>c. leaves (arena_trees (elements b) ! c)) cs)"
    have "eaten es = leaves t @ ?rest" using b(3) ts(2) Cons by (simp add: yield_def)
    moreover have "?rest = []" if "closed es" "ends_ok es" using b(4) that Cons by auto
    ultimately show ?thesis using b(1) t(1) ts(1) by (auto simp: build_tree_def)
  qed
qed

end
