(* ===== verification/Lua_Parse.thy ===== *)
theory Lua_Parse
  imports Chunk_Safe Build_Run
begin

text \<open>
  \<open>LuaParser::parse\<close> of \<open>crates/glua_parser/src/parser/lua_parser.rs\<close>: the lexer, the grammar and
  the tree builder, composed. The lexer and the grammar write to one list of errors; the
  errors of the lexer come first.
\<close>

section \<open>The pipeline\<close>

text \<open>The list that was lent to a lexer, after its run.\<close>

definition reported :: "LuaLexer \<Rightarrow> LuaParseError list" where
  "reported lx = (case lex_errors lx of Some errs \<Rightarrow> errs | None \<Rightarrow> [])"

definition parse_events ::
  "Unicode \<Rightarrow> doc_parser \<Rightarrow> (nat \<Rightarrow> LuaParser \<Rightarrow> nat option) \<Rightarrow> nat \<Rightarrow> ParserConfig \<Rightarrow> rstring \<Rightarrow>
   LuaParser option" where
  "parse_events U dp rs n config src = do {
     (toks, lx) \<leftarrow> tokenize U (lexer_new (reader_new src) (cfg_lexer config) (Some []));
     parse_chunk (env_at dp rs n) (parser_new src toks config (reported lx))
   }"

record LuaSyntaxTree =
  root :: "RowanCall list"
  tree_errors :: "LuaParseError list"

definition has_syntax_errors :: "LuaSyntaxTree \<Rightarrow> bool" where
  "has_syntax_errors t \<longleftrightarrow> list_ex (\<lambda>e. error_kind e = SyntaxError) (tree_errors t)"

definition parse ::
  "Unicode \<Rightarrow> doc_parser \<Rightarrow> (nat \<Rightarrow> LuaParser \<Rightarrow> nat option) \<Rightarrow> nat \<Rightarrow> ParserConfig \<Rightarrow> rstring \<Rightarrow>
   LuaSyntaxTree option" where
  "parse U dp rs n config src = do {
     p \<leftarrow> parse_events U dp rs n config src;
     calls \<leftarrow> build_tree (origin_text p) (events p);
     Some \<lparr>root = calls, tree_errors = errors p\<rparr>
   }"

text \<open>A table of Unicode classes and a configuration to run examples with: ASCII, Lua JIT, no doc comments.\<close>

definition no_unicode :: Unicode where
  "no_unicode = \<lparr>alphabetic_table = \<lambda>_. False, numeric_table = \<lambda>_. False\<rparr>"

definition plain_config :: ParserConfig where
  "plain_config = config_new LuaJIT Map.empty symbol_set_new False"

text \<open>The source text that a sequence of calls on rowan's builder puts into the tree.\<close>

fun calls_text :: "RowanCall list \<Rightarrow> rstring" where
  "calls_text [] = []"
| "calls_text (RowanToken _ t # cs) = t @ calls_text cs"
| "calls_text (_ # cs) = calls_text cs"

section \<open>The grammar on the tokens of the lexer\<close>

lemma nonempty_concat_length: "[] \<notin> set ps \<Longrightarrow> length ps \<le> length (concat ps)"
proof (induction ps)
  case (Cons p ps)
  then show ?case by (cases p) auto
qed simp

lemma token_count: "lua_tokens U cfg src = Some toks \<Longrightarrow> length toks \<le> length src"
proof -
  assume "lua_tokens U cfg src = Some toks"
  from lx.texts [OF this] obtain ps where ps: "map (token_text src) toks = map Some ps"
    "concat ps = takeWhile (\<lambda>c. c \<noteq> 0) src" "[] \<notin> set ps" by blast
  from ps(1) have "length toks = length ps" using map_eq_imp_length_eq by blast
  with nonempty_concat_length [OF ps(3)] ps(2) length_takeWhile_le [of "\<lambda>c. c \<noteq> 0" src]
  show ?thesis by simp
qed

lemma lexed_tokens_ok:
  assumes "\<not> enable_emmylua_doc config" and toks: "lua_tokens U cfg src = Some toks"
  shows "tokens_ok (parser_new src toks config errs)"
proof -
  from lx.texts [OF toks] obtain ps where ps: "map (token_text src) toks = map Some ps" by blast
  have "token_text src t \<noteq> None" if "t \<in> set toks" for t
  proof -
    from that have "token_text src t \<in> set (map (token_text src) toks)" by simp
    then show ?thesis by (auto simp only: ps set_map)
  qed
  with lx.kinds [OF toks] assms(1) show ?thesis by (simp add: tokens_ok_def parser_new_def)
qed

lemma parse_events_ok:
  assumes "\<not> enable_emmylua_doc config" and n: "2 * length src < n"
  shows "\<exists>toks p. lua_tokens U (cfg_lexer config) src = Some toks \<and>
    parse_events U dp rs n config src = Some p \<and> chunk_done toks p \<and> origin_text p = src"
proof -
  from lx.returns [of U "cfg_lexer config" src] obtain toks where
    toks: "lua_tokens U (cfg_lexer config) src = Some toks" by blast
  then obtain lx where lx: "tokenize U (lexer_new (reader_new src) (cfg_lexer config) (Some [])) = Some (toks, lx)"
    by (auto simp: lua_tokens_def)
  have "2 * length toks < n" using token_count [OF toks] n by simp
  from parse_chunk_ok [OF lexed_tokens_ok [OF assms(1) toks, of "reported lx"] this, of dp rs] lx toks
  show ?thesis by (auto simp: parse_events_def)
qed

section \<open>The tree\<close>

lemma calls_text_append [simp]: "calls_text (xs @ ys) = calls_text xs @ calls_text ys"
  by (induction xs rule: calls_text.induct) simp_all

lemma calls_text_trace:
  "calls_text (trace src t) = concat (map (\<lambda>x. the (leaf_text src (snd x))) (leaves t))"
proof (induction t)
  case (GBranch k ts)
  then have "calls_text (concat (map (trace src) ts)) =
      concat (map (\<lambda>x. the (leaf_text src (snd x))) (concat (map leaves ts)))"
    by (induction ts) simp_all
  then show ?case by simp
qed simp

lemma leaf_text_pair: "leaf_text src (snd (token_pair t)) = token_text src t"
  by (simp add: leaf_text_def token_pair_def token_text_def)

lemma parse_ok:
  assumes "\<not> enable_emmylua_doc config" and "2 * length src < n"
  shows "\<exists>t ts rest. parse U dp rs n config src = Some t \<and> root t = trace src (GBranch Chunk ts) \<and>
    takeWhile (\<lambda>c. c \<noteq> 0) src = calls_text (root t) @ rest \<and> (tree_errors t = [] \<longrightarrow> rest = [])"
proof -
  from parse_events_ok [OF assms, of U dp rs] obtain toks p where
    toks: "lua_tokens U (cfg_lexer config) src = Some toks" and
    p: "parse_events U dp rs n config src = Some p" "chunk_done toks p" "origin_text p = src" by blast
  from lx.texts [OF toks] obtain ps where ps: "map (token_text src) toks = map Some ps"
    "concat ps = takeWhile (\<lambda>c. c \<noteq> 0) src" by blast
  have eaten: "map (\<lambda>x. leaf_text src (snd x)) (eaten (events p)) = map Some ps"
    using p(2) ps(1) by (simp add: chunk_done_def leaf_text_pair o_def)
  then have "\<forall>x\<in>set (eaten (events p)). leaf_text src (snd x) \<noteq> None"
    by (metis (no_types, lifting) ex_map_conv option.distinct(1) list.set_map image_eqI imageE)
  moreover have "wf_events (events p)" using p(2) by (simp add: chunk_done_def)
  ultimately obtain ts rest where tree: "build_tree src (events p) = Some (trace src (GBranch Chunk ts))"
    "eaten (events p) = leaves (GBranch Chunk ts) @ rest"
    "closed (events p) \<longrightarrow> ends_ok (events p) \<longrightarrow> rest = []"
    using build_tree_ok by blast
  let ?text = "\<lambda>xs. concat (map (\<lambda>x. the (leaf_text src (snd x))) xs)"
  have "?text (eaten (events p)) = concat (map the (map (\<lambda>x. leaf_text src (snd x)) (eaten (events p))))"
    by (simp add: o_def)
  also have "\<dots> = concat ps" by (simp add: eaten o_def)
  finally have "takeWhile (\<lambda>c. c \<noteq> 0) src = ?text (leaves (GBranch Chunk ts)) @ ?text rest"
    by (simp add: ps(2) tree(2) del: leaves.simps)
  with p tree show ?thesis
    by (intro exI [of _ "\<lparr>root = trace src (GBranch Chunk ts), tree_errors = errors p\<rparr>"] exI [of _ ts]
        exI [of _ "?text rest"])
      (auto simp: parse_def calls_text_trace chunk_done_def simp del: trace.simps leaves.simps)
qed

section \<open>Running the parser on a text\<close>

text \<open>
  Rules that run the grammar on given tokens by rewriting: \<open>pbump\<close> by its closed form, binds
  and branches from the outside in.
\<close>

lemma bind_weak_cong: "m = m' \<Longrightarrow> Option.bind m f = Option.bind m' f"
  by simp

lemma doc_parse_env: "doc_parse (env_at dp rs n) = dp"
  by (cases n) simp_all

lemma skip_trivia_here:
  "length ts \<le> i \<Longrightarrow> skip_trivia ts i = i"
  "i < length ts \<Longrightarrow> \<not> is_trivia_kind (kind (ts ! i)) \<Longrightarrow> skip_trivia ts i = i"
  "i < length ts \<Longrightarrow> is_trivia_kind (kind (ts ! i)) \<Longrightarrow> skip_trivia ts i = skip_trivia ts (Suc i)"
  by (simp_all add: skip_trivia.simps [of ts i])

lemmas run_on_tokens = Let_def parser_new_def plain_config_def config_new_def init_def is_trivia_kind_def
  doc_parse_env mark_p_def pbump_off skip_trivia_here complete_def start_at_def push_node_end_def
  parse_empty_stat_def parse_stat_def block_follow_def mark_def

lemmas run_congs = bind_weak_cong if_weak_cong option.case_cong_weak prod.case_cong_weak res.case_cong_weak

text \<open>Two empty statements: no errors.\<close>

lemma empty_statements:
  "\<exists>p. parse_events no_unicode dp rs 9 plain_config (str ''; ;'') = Some p \<and> errors p = []"
proof -
  let ?toks = "[\<lparr>kind = TkSemicolon, token_range = new_range 0 1\<rparr>, \<lparr>kind = TkWhitespace, token_range = new_range 1 1\<rparr>,
    \<lparr>kind = TkSemicolon, token_range = new_range 2 1\<rparr>]"
  have "map_option (\<lambda>(ts, lx). (ts, reported lx))
      (tokenize no_unicode (lexer_new (reader_new (str ''; ;'')) (cfg_lexer plain_config) (Some []))) = Some (?toks, [])"
    by code_simp
  moreover have "\<exists>p. parse_chunk (env_at dp rs 9) (parser_new (str ''; ;'') ?toks plain_config []) = Some p \<and> errors p = []"
    apply (simp add: parse_chunk_def run_on_tokens cong: run_congs)
    apply (subst chunk_loop.simps, subst parse_stats.simps, simp add: run_on_tokens cong: run_congs)
    apply (subst parse_stats.simps, simp add: run_on_tokens cong: run_congs)
    apply (subst parse_stats.simps, simp add: run_on_tokens cong: run_congs)
    apply (subst chunk_loop.simps, simp add: run_on_tokens cong: run_congs)
    done
  ultimately show ?thesis by (auto simp: parse_events_def)
qed

section \<open>The properties\<close>

text \<open>
  C3. The grammar is total and lossless on the level of events. For every source text, every
  language level, every set of special functions, and whatever the stack query answers at
  each call, the lexer and \<open>parse_chunk\<close> return without a panic (doc comments switched off, a
  nesting budget of more than twice the length of the text); the events eat every token of
  the lexer, each once and in order, the last one included, errors or not; the events are
  well formed, and when no error was reported they are balanced.
\<close>

theorem grammar_total_and_lossless:
  assumes "\<not> enable_emmylua_doc config" and "2 * length src < n"
  shows "\<exists>toks p. lua_tokens U (cfg_lexer config) src = Some toks \<and>
    parse_events U dp rs n config src = Some p \<and>
    eaten (events p) = map token_pair toks \<and> token_index p = length toks \<and>
    current_token p = TkEof \<and> wf_events (events p) \<and>
    (errors p = [] \<longrightarrow> closed (events p))"
  using parse_events_ok [OF assms, of U dp rs] by (fastforce simp: chunk_done_def)

theorem grammar_total_and_lossless_witness:
  "\<exists>toks p. lua_tokens no_unicode (cfg_lexer plain_config) (str ''x = {,,} )'') = Some toks \<and>
    parse_events no_unicode (\<lambda>_. Some) (\<lambda>_ _. Some 262144) 25 plain_config (str ''x = {,,} )'') = Some p \<and>
    eaten (events p) = map token_pair toks \<and> token_index p = length toks \<and>
    current_token p = TkEof \<and> wf_events (events p) \<and>
    (errors p = [] \<longrightarrow> closed (events p))"
  by (rule grammar_total_and_lossless) (simp_all add: plain_config_def config_new_def str_def)

text \<open>
  C1. \<open>LuaParser::parse\<close> returns a tree on every text: with doc comments switched off and a
  nesting budget of more than twice the length of the text, no step of lexer, grammar or tree
  builder panics or runs forever, whatever the stack query answers. The calls on rowan's
  builder make one tree with the root kind \<open>Chunk\<close>, and the text of that tree is a prefix of
  the source.
\<close>

theorem parse_total:
  assumes "\<not> enable_emmylua_doc config" and "2 * length src < n"
  shows "\<exists>t ts rest. parse U dp rs n config src = Some t \<and> root t = trace src (GBranch Chunk ts) \<and>
    src = calls_text (root t) @ rest"
proof -
  from parse_ok [OF assms, of U dp rs] obtain t ts rest where
    "parse U dp rs n config src = Some t" "root t = trace src (GBranch Chunk ts)"
    "takeWhile (\<lambda>c. c \<noteq> 0) src = calls_text (root t) @ rest" by blast
  moreover from this(3) have "src = calls_text (root t) @ rest @ dropWhile (\<lambda>c. c \<noteq> 0) src"
    by (metis append.assoc takeWhile_dropWhile_id)
  ultimately show ?thesis by blast
qed

theorem parse_total_witness:
  "\<exists>t ts rest. parse no_unicode (\<lambda>_. Some) (\<lambda>_ _. None) 25 plain_config (str ''{,,} x) y'') = Some t \<and>
    root t = trace (str ''{,,} x) y'') (GBranch Chunk ts) \<and> str ''{,,} x) y'' = calls_text (root t) @ rest"
  by (rule parse_total) (simp_all add: plain_config_def config_new_def str_def)

text \<open>
  C2. The tree of a text without errors is lossless: when \<open>LuaParser::parse\<close> reports no error and
  the text has no code point 0, the texts of the tokens in the tree, from left to right, are
  the source text.
\<close>

theorem parse_lossless:
  assumes "\<not> enable_emmylua_doc config" and "2 * length src < n" and "0 \<notin> set src"
    and "parse U dp rs n config src = Some t" and "tree_errors t = []"
  shows "calls_text (root t) = src"
proof -
  have "takeWhile (\<lambda>c. c \<noteq> 0) src = src" by (rule takeWhile_eq_all_conv [THEN iffD2], intro ballI notI) (use assms(3) in simp)
  with parse_ok [OF assms(1,2), of U dp rs] assms(4,5) show ?thesis by auto
qed

theorem parse_lossless_witness:
  "\<exists>t. parse no_unicode (\<lambda>_. Some) (\<lambda>_ _. None) 9 plain_config (str ''; ;'') = Some t \<and>
    tree_errors t = [] \<and> calls_text (root t) = str ''; ;''"
proof -
  have off: "\<not> enable_emmylua_doc plain_config" "2 * length (str ''; ;'') < 9" "0 \<notin> set (str ''; ;'')"
    by (simp_all add: plain_config_def config_new_def str_def)
  from parse_ok [OF off(1,2)] obtain t where
    t: "parse no_unicode (\<lambda>_. Some) (\<lambda>_ _. None) 9 plain_config (str ''; ;'') = Some t" by blast
  with empty_statements [of "\<lambda>_. Some" "\<lambda>_ _. None"] have "tree_errors t = []"
    by (auto simp: parse_def split: bind_splits)
  with t parse_lossless [OF off t] show ?thesis by blast
qed

end
