(* ===== verification/Doc_Parse.thy ===== *)
theory Doc_Parse
  imports Doc_Tag_Safe Lua_Parse
begin

text \<open>
  \<open>LuaDocParser::parse\<close> on the tokens of the lexer: every group of adjacent tokens that starts
  with a comment fits the documentation parser.
\<close>

section \<open>Groups of tokens\<close>

lemma token_tiles_append:
  "token_tiles a (xs @ ys) ps \<Longrightarrow> \<exists>us vs. ps = us @ vs \<and> token_tiles a xs us \<and> token_tiles (a + blen (concat us)) ys vs"
proof (induction xs arbitrary: a ps)
  case Nil
  then show ?case by (intro exI [of _ "[]"] exI [of _ ps]) simp
next
  case (Cons x xs)
  then obtain p qs where p: "ps = p # qs" "token_range x = new_range a (blen p)" "token_tiles (a + blen p) (xs @ ys) qs"
    by (cases ps) auto
  from Cons.IH [OF p(3)] obtain us vs where
    "qs = us @ vs" "token_tiles (a + blen p) xs us" "token_tiles (a + blen p + blen (concat us)) ys vs" by blast
  with p show ?case by (intro exI [of _ "p # us"] exI [of _ vs]) (simp add: add.assoc)
qed

lemma token_tiles_nth:
  "token_tiles a toks ps \<Longrightarrow> i < length ps \<Longrightarrow>
   token_range (toks ! i) = new_range (a + blen (concat (take i ps))) (blen (ps ! i))"
proof (induction a toks ps arbitrary: i rule: token_tiles.induct)
  case (2 a t ts p ps)
  then show ?case by (cases i) (auto simp: add.assoc)
qed simp_all

lemma tiles_fit:
  assumes "token_tiles (blen front) comments ws" and "ws \<noteq> []" and "[] \<notin> set ws" and "0 \<notin> set (concat ws)"
    and "\<not> is_space_token (kind (hd comments))" and "origin_text p = front @ concat ws @ post"
  shows "fits \<lparr>base = p, group_toks = comments, ahead = front, words = ws\<rparr>"
proof -
  have "length comments = length ws" by (rule token_tiles_length [OF assms(1)])
  with assms token_tiles_nth [OF assms(1)] show ?thesis
    by (cases comments) (auto simp: fits_def off_def)
qed

lemma pieces_texts:
  "pieces (blen front) xs t \<Longrightarrow>
   \<exists>ws. map (\<lambda>x. leaf_text (front @ t @ post) (snd x)) xs = map Some ws \<and> concat ws = t \<and> [] \<notin> set ws"
proof (induction xs arbitrary: front t)
  case (Cons x xs)
  obtain k r where x: "x = (k, r)" by (cases x)
  with Cons.prems obtain w t' where w: "t = w @ t'" "w \<noteq> []" "r = new_range (blen front) (blen w)"
    "pieces (blen (front @ w)) xs t'" by auto
  from Cons.IH [OF w(4)] obtain ws where
    "map (\<lambda>x. leaf_text (front @ t @ post) (snd x)) xs = map Some ws" "concat ws = t'" "[] \<notin> set ws"
    by (auto simp: w(1))
  moreover have "leaf_text (front @ t @ post) r = Some w"
    using slice_append [of _ front _ w "t' @ post"] by (simp add: leaf_text_def w)
  ultimately show ?case using w(1,2) x by (intro exI [of _ "w # ws"]) simp
qed simp

section \<open>The property\<close>

text \<open>
  C4. The documentation parser is total and lossless. On every group of adjacent tokens of the
  lexer that starts with something else than white space (as the groups of \<open>parse_trivia_tokens\<close> do),
  from any state of the Lua parser, and whatever the stack query answers, \<open>LuaDocParser::parse\<close>
  returns without a panic, given a nesting budget of twice the bytes of the text. It only adds
  to the Lua parser: the earlier events and errors stay as they are, the token cursor does
  not move, and the level of open marks does not drop. The tokens of the new events have
  non-empty texts which make up the text of the group, from left to right, nothing lost or
  repeated, however often the lexer was reset on the way.
\<close>

theorem doc_parser_total_and_lossless:
  assumes "lua_tokens U cfg src = Some (before @ comments @ after)" and "comments \<noteq> []"
    and "\<not> is_space_token (kind (hd comments))" and "origin_text p = src" and "2 * blen src \<le> n"
  shows "\<exists>p' new ws vs. doc_parser_parse U rs n comments p = Some p' \<and> keeps p p' \<and>
    events p' = events p @ new \<and> mark_level p \<le> mark_level p' \<and>
    map (\<lambda>x. leaf_text src (snd x)) (eaten new) = map Some ws \<and> [] \<notin> set ws \<and>
    map (token_text src) comments = map Some vs \<and> concat ws = concat vs"
proof -
  from lx.tiles [of U cfg src] assms(1) obtain ps where
    ps: "token_tiles 0 (before @ comments @ after) ps" "concat ps = takeWhile (\<lambda>c. c \<noteq> 0) src" "[] \<notin> set ps" by auto
  from token_tiles_append [OF ps(1)] obtain us vs ys where
    split: "ps = us @ vs @ ys" "token_tiles (blen (concat us)) comments vs"
    using token_tiles_append by force
  let ?front = "concat us" and ?post = "concat ys @ dropWhile (\<lambda>c. c \<noteq> 0) src"
  have src: "src = ?front @ concat vs @ ?post"
    using ps(2) split(1) by (metis append.assoc concat_append takeWhile_dropWhile_id)
  have "0 \<notin> set (concat ps)" unfolding ps(2) by (auto dest: set_takeWhileD)
  then have "0 \<notin> set (concat vs)" using split(1) by simp
  moreover have "vs \<noteq> []" using split(2) assms(2) by (auto dest: token_tiles_length)
  ultimately have fits: "fits \<lparr>base = p, group_toks = comments, ahead = ?front, words = vs\<rparr>"
    using tiles_fit [OF split(2) _ _ _ assms(3), of p ?post] ps(3) split(1) assms(4) src by simp
  have "2 * blen (concat vs) \<le> n" using assms(5) arg_cong [OF src, of blen] by simp
  with doc_parser_ok [OF fits, of n U rs] obtain p' new where
    p': "doc_parser_parse U rs n comments p = Some p'" "keeps p p'" "events p' = events p @ new"
    "mark_level p \<le> mark_level p'" "pieces (blen ?front) (eaten new) (concat vs)" by (auto simp: off_def)
  from pieces_texts [OF p'(5), of ?post] src obtain ws where
    "map (\<lambda>x. leaf_text src (snd x)) (eaten new) = map Some ws" "concat ws = concat vs" "[] \<notin> set ws" by auto
  moreover have "map (token_text src) comments = map Some vs"
    using token_tiles_texts [OF split(2), of ?post] src by simp
  ultimately show ?thesis using p'(1-4) by blast
qed

text \<open>A parser that stands before a class and its description, and the one comment token of that text.\<close>

definition doc_sample :: rstring where
  "doc_sample = str ''---@class A # b''"

definition doc_sample_token :: LuaTokenData where
  "doc_sample_token = \<lparr>kind = TkShortComment, token_range = new_range 0 15\<rparr>"

lemma doc_sample_tokens: "lua_tokens no_unicode (cfg_lexer plain_config) doc_sample = Some ([] @ [doc_sample_token] @ [])"
  by code_simp

theorem doc_parser_total_and_lossless_witness:
  "\<exists>p' new ws vs. doc_parser_parse no_unicode (\<lambda>_ _. Some 262144) 30 [doc_sample_token]
      (parser_new doc_sample [doc_sample_token] plain_config []) = Some p' \<and>
    keeps (parser_new doc_sample [doc_sample_token] plain_config []) p' \<and>
    events p' = events (parser_new doc_sample [doc_sample_token] plain_config []) @ new \<and>
    mark_level (parser_new doc_sample [doc_sample_token] plain_config []) \<le> mark_level p' \<and>
    map (\<lambda>x. leaf_text doc_sample (snd x)) (eaten new) = map Some ws \<and> [] \<notin> set ws \<and>
    map (token_text doc_sample) [doc_sample_token] = map Some vs \<and> concat ws = concat vs"
  by (rule doc_parser_total_and_lossless [OF doc_sample_tokens])
    (simp_all add: doc_sample_token_def is_space_token_def parser_new_def doc_sample_def str_def len_utf8_def)

end
