(* ===== verification/Line_Index.thy ===== *)
theory Line_Index
  imports Prelude
begin

text \<open>
  \<open>crates/glua_parser/src/text/line_index.rs\<close>: the byte offsets at which the lines of a text
  start, and the conversions between offsets and line/column positions that the language
  server answers requests with. Offsets are \<open>TextSize\<close>, that is 32-bit words: a text of
  4 GiB or more wraps around. \<open>None\<close> is a panic; a Rust \<open>Option\<close> result is an option inside.
\<close>

section \<open>The index\<close>

type_synonym TextSize = "32 word"

record LineIndex =
  line_offsets :: "TextSize list"
  line_only_ascii_vec :: "bool list"

text \<open>The loop over \<open>text.char_indices()\<close>: \<open>i\<close> is the byte position of the character.\<close>

fun index_loop ::
  "nat \<Rightarrow> bool \<Rightarrow> rstring \<Rightarrow> TextSize list \<Rightarrow> bool list \<Rightarrow> TextSize list \<times> bool list" where
  "index_loop i only_ascii [] offsets flags = (offsets, flags @ [only_ascii])"
| "index_loop i only_ascii (c # cs) offsets flags =
     (if c = newline
      then index_loop (i + len_utf8 c) True cs (offsets @ [of_nat (i + 1)]) (flags @ [only_ascii])
      else if \<not> is_ascii c then index_loop (i + len_utf8 c) False cs offsets flags
      else index_loop (i + len_utf8 c) only_ascii cs offsets flags)"

definition index_parse :: "rstring \<Rightarrow> LineIndex option" where
  "index_parse cs =
     (let (offsets, flags) = index_loop 0 True cs [of_nat 0] [] in
      if length offsets = length flags
      then Some \<lparr>line_offsets = offsets, line_only_ascii_vec = flags\<rparr> else None)"

definition get_line_offset :: "LineIndex \<Rightarrow> nat \<Rightarrow> TextSize option" where
  "get_line_offset ix line =
     (if line < length (line_offsets ix) then Some (line_offsets ix ! line) else None)"

text \<open>\<open>slice::binary_search\<close> of the standard library: \<open>Inl\<close> is \<open>Ok\<close>, \<open>Inr\<close> is \<open>Err\<close>.\<close>

function search_base :: "TextSize list \<Rightarrow> TextSize \<Rightarrow> nat \<Rightarrow> nat \<Rightarrow> nat" where
  "search_base xs v base sz =
     (if sz > 1 then
        (let half = sz div 2; mid = base + half in
         search_base xs v (if xs ! mid > v then base else mid) (sz - half))
      else base)"
  by pat_completeness auto
termination
  by (relation "measure (\<lambda>(xs, v, base, sz). sz)") auto

declare search_base.simps [simp del]

definition binary_search :: "TextSize list \<Rightarrow> TextSize \<Rightarrow> nat + nat" where
  "binary_search xs v =
     (if xs = [] then Inr 0
      else
        (let base = search_base xs v 0 (length xs) in
         if xs ! base = v then Inl base
         else Inr (base + (if xs ! base < v then 1 else 0))))"

definition get_line :: "LineIndex \<Rightarrow> TextSize \<Rightarrow> nat option" where
  "get_line ix offset =
     (case binary_search (line_offsets ix) (of_nat (unat offset)) of
        Inl line \<Rightarrow> Some line
      | Inr line \<Rightarrow> if line > 0 then Some (line - 1) else None)"

definition get_line_with_start_offset :: "LineIndex \<Rightarrow> TextSize \<Rightarrow> (nat \<times> TextSize) option option" where
  "get_line_with_start_offset ix offset =
     (case get_line ix offset of
        None \<Rightarrow> Some None
      | Some line \<Rightarrow>
          if line < length (line_offsets ix) then Some (Some (line, line_offsets ix ! line)) else None)"

definition is_line_only_ascii :: "LineIndex \<Rightarrow> nat \<Rightarrow> bool" where
  "is_line_only_ascii ix line \<longleftrightarrow>
     line < length (line_only_ascii_vec ix) \<and> line_only_ascii_vec ix ! line"

definition line_count :: "LineIndex \<Rightarrow> nat" where
  "line_count ix = length (line_offsets ix)"

section \<open>Columns\<close>

text \<open>\<open>content.strip_suffix('\r').unwrap_or(content)\<close>\<close>

definition strip_cr :: "rstring \<Rightarrow> rstring" where
  "strip_cr cs = (if cs \<noteq> [] \<and> last cs = carriage_return then butlast cs else cs)"

definition line_content_range :: "LineIndex \<Rightarrow> nat \<Rightarrow> rstring \<Rightarrow> (nat \<times> nat) option option" where
  "line_content_range ix line source_text =
     (case get_line_offset ix line of
        None \<Rightarrow> Some None
      | Some s \<Rightarrow>
          let start = unat s in
          case get_line_offset ix (line + 1) of
            Some nxt \<Rightarrow>
              if unat nxt = 0 then None
              else do {
                content \<leftarrow> slice source_text start (unat nxt - 1);
                Some (Some (start, start + blen (strip_cr content)))
              }
          | None \<Rightarrow> Some (Some (start, blen source_text)))"

definition get_line_col :: "LineIndex \<Rightarrow> TextSize \<Rightarrow> rstring \<Rightarrow> (nat \<times> nat) option option" where
  "get_line_col ix offset source_text = do {
     r \<leftarrow> get_line_with_start_offset ix offset;
     case r of
       None \<Rightarrow> Some None
     | Some (line, start_offset) \<Rightarrow>
         if is_line_only_ascii ix line then Some (Some (line, unat (offset - start_offset)))
         else do {
           before \<leftarrow> slice source_text (unat start_offset) (unat offset);
           Some (Some (line, ulen before))
         }
   }"

definition get_col :: "LineIndex \<Rightarrow> TextSize \<Rightarrow> rstring \<Rightarrow> nat option option" where
  "get_col ix offset source_text = map_option (map_option snd) (get_line_col ix offset source_text)"

text \<open>
  \<open>char_indices().find_map(...)\<close>: \<open>i\<close> is the byte position of the character, \<open>units\<close> the sum of
  the widths before it.
\<close>

fun find_column :: "(rchar \<Rightarrow> nat) \<Rightarrow> nat \<Rightarrow> nat \<Rightarrow> nat \<Rightarrow> rstring \<Rightarrow> nat option" where
  "find_column width col units i [] = None"
| "find_column width col units i (c # cs) =
     (if units + width c > col then Some i
      else find_column width col (units + width c) (i + len_utf8 c) cs)"

definition offset_at_column :: "LineIndex \<Rightarrow> nat \<Rightarrow> nat \<Rightarrow> rstring \<Rightarrow> (rchar \<Rightarrow> nat) \<Rightarrow> TextSize option" where
  "offset_at_column ix line col source_text width = do {
     r \<leftarrow> line_content_range ix line source_text;
     case r of
       None \<Rightarrow> Some (of_nat (blen source_text))
     | Some (start, stop) \<Rightarrow>
         if is_line_only_ascii ix line
         then (if stop < start then None else Some (of_nat (start + min col (stop - start))))
         else do {
           content \<leftarrow> slice source_text start stop;
           Some (of_nat (case find_column width col 0 0 content of
                           Some i \<Rightarrow> start + i
                         | None \<Rightarrow> stop))
         }
   }"

definition get_offset :: "LineIndex \<Rightarrow> nat \<Rightarrow> nat \<Rightarrow> rstring \<Rightarrow> TextSize option" where
  "get_offset ix line col source_text = offset_at_column ix line col source_text len_utf16"

definition get_offset_by_char_col :: "LineIndex \<Rightarrow> nat \<Rightarrow> nat \<Rightarrow> rstring \<Rightarrow> TextSize option" where
  "get_offset_by_char_col ix line col source_text = offset_at_column ix line col source_text (\<lambda>_. 1)"

definition get_col_offset_at_line :: "LineIndex \<Rightarrow> nat \<Rightarrow> nat \<Rightarrow> rstring \<Rightarrow> TextSize option option" where
  "get_col_offset_at_line ix line col source_text =
     (case get_line_offset ix line of
        None \<Rightarrow> Some None
      | Some start_offset \<Rightarrow> do {
          offset \<leftarrow> get_offset ix line col source_text;
          Some (Some (offset - start_offset))
        })"

section \<open>What the index holds\<close>

text \<open>\<open>newline_ends\<close> lists the positions behind the newlines, \<open>ascii_lines\<close> which lines are ASCII.\<close>

fun newline_ends :: "nat \<Rightarrow> rstring \<Rightarrow> nat list" where
  "newline_ends i [] = []"
| "newline_ends i (c # cs) = (if c = newline then [i + 1] else []) @ newline_ends (i + len_utf8 c) cs"

fun ascii_lines :: "bool \<Rightarrow> rstring \<Rightarrow> bool list" where
  "ascii_lines a [] = [a]"
| "ascii_lines a (c # cs) = (if c = newline then a # ascii_lines True cs else ascii_lines (a \<and> is_ascii c) cs)"

abbreviation newlines :: "rstring \<Rightarrow> nat" where
  "newlines cs \<equiv> count_list cs newline"

text \<open>
  The line a position is on: \<open>line_at pre line rest\<close> cuts a text into what is before a line, the
  line without its newline, and the rest. \<open>fit\<close> is the longest prefix of a width.
\<close>

definition line_at :: "rstring \<Rightarrow> rstring \<Rightarrow> rstring \<Rightarrow> bool" where
  "line_at pre line rest \<longleftrightarrow>
     (pre = [] \<or> last pre = newline) \<and> newline \<notin> set line \<and> (rest = [] \<or> hd rest = newline)"

definition last_line :: "rstring \<Rightarrow> rstring" where
  "last_line xs = rev (takeWhile (\<lambda>c. c \<noteq> newline) (rev xs))"

fun fit :: "(rchar \<Rightarrow> nat) \<Rightarrow> nat \<Rightarrow> rstring \<Rightarrow> rstring" where
  "fit width col [] = []"
| "fit width col (c # cs) = (if width c \<le> col then c # fit width (col - width c) cs else [])"

definition line_content :: "rstring \<Rightarrow> rstring \<Rightarrow> rstring" where
  "line_content line rest = (if rest = [] then line else strip_cr line)"

text \<open>
  The cut of a text into \<open>xs @ ys\<close> lies between the two characters of a CRLF, or right before a
  line terminator (LF, CRLF or the end of the text).
\<close>

definition inside_crlf :: "rstring \<Rightarrow> rstring \<Rightarrow> bool" where
  "inside_crlf xs ys \<longleftrightarrow> xs \<noteq> [] \<and> last xs = carriage_return \<and> ys \<noteq> [] \<and> hd ys = newline"

definition at_line_end :: "rstring \<Rightarrow> rstring \<Rightarrow> bool" where
  "at_line_end xs ys \<longleftrightarrow> \<not> inside_crlf xs ys \<and>
     (ys = [] \<or> hd ys = newline \<or> (\<exists>zs. ys = carriage_return # newline # zs))"

lemma index_loop_eq:
  "index_loop i a cs offsets flags = (offsets @ map of_nat (newline_ends i cs), flags @ ascii_lines a cs)"
  by (induction i a cs offsets flags rule: index_loop.induct) auto

lemma newline_ends_append: "newline_ends i (xs @ ys) = newline_ends i xs @ newline_ends (i + blen xs) ys"
  by (induction i xs rule: newline_ends.induct) (simp_all add: add.assoc)

lemma length_newline_ends [simp]: "length (newline_ends i cs) = newlines cs"
  by (induction i cs rule: newline_ends.induct) simp_all

lemma length_ascii_lines [simp]: "length (ascii_lines a cs) = Suc (newlines cs)"
  by (induction a cs rule: ascii_lines.induct) simp_all

lemma ascii_lines_newline: "ascii_lines a (xs @ newline # ys) = ascii_lines a xs @ ascii_lines True ys"
  by (induction a xs rule: ascii_lines.induct) simp_all

lemma ascii_lines_first:
  "newline \<notin> set line \<Longrightarrow> rest = [] \<or> hd rest = newline \<Longrightarrow> ascii_lines a (line @ rest) ! 0 = (a \<and> list_all is_ascii line)"
proof (induction line arbitrary: a)
  case Nil
  then show ?case by (cases rest) auto
qed auto

lemma newline_ends_bounds: "e \<in> set (newline_ends i cs) \<Longrightarrow> i < e \<and> e \<le> i + blen cs"
  by (induction i cs rule: newline_ends.induct) (fastforce simp: len_utf8_def split: if_splits)+

lemma newline_ends_sorted: "sorted_wrt (<) (newline_ends i cs)"
proof (induction i cs rule: newline_ends.induct)
  case (2 i c cs)
  then show ?case using newline_ends_bounds [of _ "i + len_utf8 c" cs]
    by (fastforce simp: len_utf8_def)
qed simp

lemma index_parse_eq:
  "index_parse cs = Some \<lparr>line_offsets = map of_nat (0 # newline_ends 0 cs), line_only_ascii_vec = ascii_lines True cs\<rparr>"
  by (simp add: index_parse_def index_loop_eq)

section \<open>Binary search\<close>

text \<open>
  The documented contract of \<open>slice::binary_search\<close> on a strictly sorted slice, and what
  \<open>get_line\<close> makes of it: the last position whose element is not above the value.
\<close>

locale searcher =
  fixes search :: "TextSize list \<Rightarrow> TextSize \<Rightarrow> nat + nat"
  assumes found: "sorted_wrt (<) xs \<Longrightarrow> search xs v = Inl i \<Longrightarrow> i < length xs \<and> xs ! i = v"
    and missed: "sorted_wrt (<) xs \<Longrightarrow> search xs v = Inr i \<Longrightarrow>
      i \<le> length xs \<and> (\<forall>j < i. xs ! j < v) \<and> (\<forall>j. i \<le> j \<longrightarrow> j < length xs \<longrightarrow> v < xs ! j)"
begin

lemma floor:
  assumes xs: "sorted_wrt (<) xs" and l: "l < length xs" "xs ! l \<le> v" "Suc l < length xs \<Longrightarrow> v < xs ! Suc l"
  shows "(case search xs v of Inl i \<Rightarrow> Some i | Inr i \<Rightarrow> if i > 0 then Some (i - 1) else None) = Some l"
proof (cases "search xs v")
  case (Inl i)
  from found [OF xs Inl] have i: "i < length xs" "xs ! i = v" by simp_all
  have "\<not> i < l" using sorted_wrt_nth_less [OF xs, of i l] i l by auto
  moreover have "\<not> l < i"
  proof
    assume "l < i"
    with i(1) have "Suc l < length xs" by simp
    with l(3) have "v < xs ! Suc l" by simp
    with sorted_wrt_nth_less [OF xs, of "Suc l" i] \<open>l < i\<close> i show False by (cases "Suc l = i") auto
  qed
  ultimately show ?thesis using Inl by simp
next
  case (Inr i)
  from missed [OF xs Inr] have i: "i \<le> length xs" "\<forall>j < i. xs ! j < v"
    "\<forall>j. i \<le> j \<longrightarrow> j < length xs \<longrightarrow> v < xs ! j" by simp_all
  have "l < i" using i(3) l(1,2) by (meson leD leI)
  moreover have "i \<le> Suc l"
  proof (rule ccontr)
    assume "\<not> i \<le> Suc l"
    with i l(3) show False by (metis not_le not_less_iff_gr_or_eq order_less_le_trans)
  qed
  ultimately show ?thesis using Inr by simp
qed

end

lemma search_base_ok:
  "sorted_wrt (<) xs \<Longrightarrow> 0 < sz \<Longrightarrow> base + sz \<le> length xs \<Longrightarrow> base = 0 \<or> xs ! base \<le> v \<Longrightarrow>
   base + sz = length xs \<or> v < xs ! (base + sz) \<Longrightarrow>
   (let r = search_base xs v base sz in
    r < length xs \<and> (r = 0 \<or> xs ! r \<le> v) \<and> (Suc r = length xs \<or> v < xs ! Suc r))"
proof (induction xs v base sz rule: search_base.induct)
  case (1 xs v base sz)
  show ?case
  proof (cases "sz > 1")
    case False
    with "1.prems" have "sz = 1" by simp
    with "1.prems" show ?thesis by (simp add: search_base.simps)
  next
    case True
    let ?half = "sz div 2" and ?base = "if xs ! (base + sz div 2) > v then base else base + sz div 2"
    have "base + ?half < length xs" using True "1.prems"(3) by linarith
    have "let r = search_base xs v ?base (sz - ?half) in
        r < length xs \<and> (r = 0 \<or> xs ! r \<le> v) \<and> (Suc r = length xs \<or> v < xs ! Suc r)"
    proof (rule "1.IH" [OF True refl refl])
      show "?base + (sz - ?half) = length xs \<or> v < xs ! (?base + (sz - ?half))"
      proof (cases "xs ! (base + ?half) > v")
        case up: True
        have le: "base + ?half \<le> base + (sz - ?half)" by linarith
        have "xs ! (base + ?half) \<le> xs ! (base + (sz - ?half))" if "base + (sz - ?half) < length xs"
          using sorted_wrt_nth_less [OF "1.prems"(1)] le that by (metis le_neq_implies_less order.refl order_less_imp_le)
        with up "1.prems"(3) show ?thesis
          by (cases "base + (sz - ?half) < length xs") (auto dest: less_le_trans)
      next
        case False
        with True "1.prems"(5) show ?thesis by simp
      qed
    qed (use True "1.prems" in auto)
    with True show ?thesis by (simp add: search_base.simps [of xs v base sz] Let_def)
  qed
qed

interpretation std: searcher binary_search
proof
  fix xs :: "TextSize list" and v :: TextSize and i :: nat
  assume xs: "sorted_wrt (<) xs"
  let ?r = "search_base xs v 0 (length xs)"
  have r: "xs \<noteq> [] \<Longrightarrow> ?r < length xs \<and> (?r = 0 \<or> xs ! ?r \<le> v) \<and> (Suc ?r = length xs \<or> v < xs ! Suc ?r)"
    using search_base_ok [OF xs, of "length xs" 0 v] by (simp add: Let_def)
  show "i < length xs \<and> xs ! i = v" if "binary_search xs v = Inl i"
    using that r by (auto simp: binary_search_def Let_def split: if_splits)
  show "i \<le> length xs \<and> (\<forall>j < i. xs ! j < v) \<and> (\<forall>j. i \<le> j \<longrightarrow> j < length xs \<longrightarrow> v < xs ! j)"
    if "binary_search xs v = Inr i"
  proof (cases "xs = []")
    case True
    with that show ?thesis by (simp add: binary_search_def)
  next
    case False
    note r = r [OF False]
    have lt: "xs ! a < xs ! b" if "a < b" "b < length xs" for a b
      using sorted_wrt_nth_less [OF xs] that by blast
    show ?thesis
    proof (cases "xs ! ?r < v")
      case True
      with that False have i: "i = Suc ?r" by (auto simp: binary_search_def Let_def split: if_splits)
      have "xs ! j < v" if "j < i" for j
        using that True lt [of j ?r] r by (cases "j = ?r") (auto simp: i intro: less_trans)
      moreover have "v < xs ! j" if "i \<le> j" "j < length xs" for j
        using that r lt [of "Suc ?r" j] by (cases "j = Suc ?r") (auto simp: i intro: less_trans)
      ultimately show ?thesis using r i by auto
    next
      case up: False
      with that False have i: "i = ?r" "v < xs ! ?r" by (auto simp: binary_search_def Let_def split: if_splits)
      with r have "?r = 0" by auto
      have "v < xs ! j" if "j < length xs" for j
        using that i lt [of ?r j] \<open>?r = 0\<close> by (cases "j = 0") (auto intro: less_trans)
      with i \<open>?r = 0\<close> show ?thesis by simp
    qed
  qed
qed

section \<open>Lines\<close>

lemma line_atE:
  obtains pre cur post rest where "xs = pre @ cur" "ys = post @ rest" "line_at pre (cur @ post) rest"
    "cur = last_line xs" "newlines pre = newlines xs"
proof -
  let ?pre = "rev (dropWhile (\<lambda>c. c \<noteq> newline) (rev xs))" and ?cur = "last_line xs"
  let ?post = "takeWhile (\<lambda>c. c \<noteq> newline) ys" and ?rest = "dropWhile (\<lambda>c. c \<noteq> newline) ys"
  have xs: "xs = ?pre @ ?cur"
    by (metis last_line_def rev_append rev_rev_ident takeWhile_dropWhile_id)
  have cur: "newline \<notin> set ?cur" "newline \<notin> set ?post"
    by (auto simp: last_line_def dest: set_takeWhileD)
  have "?pre = [] \<or> last ?pre = newline"
    using hd_dropWhile [of "\<lambda>c. c \<noteq> newline" "rev xs"] by (auto simp: last_rev)
  moreover have "?rest = [] \<or> hd ?rest = newline"
    using hd_dropWhile [of "\<lambda>c. c \<noteq> newline" ys] by auto
  moreover have "newlines xs = newlines ?pre"
    using arg_cong [OF xs, of newlines] cur(1) by (simp add: count_list_0_iff)
  ultimately show ?thesis
    using cur xs by (intro that [of ?pre ?cur ?post ?rest]) (simp_all add: line_at_def)
qed

lemma line_at_ex: "l \<le> newlines cs \<Longrightarrow> \<exists>pre line rest. cs = pre @ line @ rest \<and> line_at pre line rest \<and> newlines pre = l"
proof (induction cs arbitrary: l)
  case Nil
  then show ?case by (intro exI [of _ "[]"]) (simp add: line_at_def)
next
  case (Cons c cs)
  show ?case
  proof (cases "c = newline")
    case True
    show ?thesis
    proof (cases l)
      case 0
      with True show ?thesis
        by - (rule exI [of _ "[]"], rule exI [of _ "[]"], rule exI [of _ "c # cs"], simp add: line_at_def)
    next
      case (Suc m)
      with Cons.prems True have "m \<le> newlines cs" by simp
      from Cons.IH [OF this] obtain pre line rest where
        "cs = pre @ line @ rest" "line_at pre line rest" "newlines pre = m" by blast
      with True Suc show ?thesis by (intro exI [of _ "c # pre"] exI [of _ line] exI [of _ rest]) (auto simp: line_at_def)
    qed
  next
    case False
    with Cons.prems have "l \<le> newlines cs" by simp
    from Cons.IH [OF this] obtain pre line rest where
      p: "cs = pre @ line @ rest" "line_at pre line rest" "newlines pre = l" by blast
    show ?thesis
    proof (cases pre)
      case Nil
      with p False show ?thesis by (intro exI [of _ "[]"] exI [of _ "c # line"] exI [of _ rest]) (auto simp: line_at_def)
    next
      case (Cons d ds)
      with p False show ?thesis by (intro exI [of _ "c # pre"] exI [of _ line] exI [of _ rest]) (auto simp: line_at_def)
    qed
  qed
qed

lemma last_line_at: "line_at pre (cur @ post) rest \<Longrightarrow> last_line (pre @ cur) = cur"
proof -
  assume at: "line_at pre (cur @ post) rest"
  have "takeWhile (\<lambda>c. c \<noteq> newline) (rev cur @ rev pre) = rev cur @ takeWhile (\<lambda>c. c \<noteq> newline) (rev pre)"
    using at by (intro takeWhile_append2) (auto simp: line_at_def)
  moreover have "takeWhile (\<lambda>c. c \<noteq> newline) (rev pre) = []"
    using at by (cases pre rule: rev_cases) (auto simp: line_at_def)
  ultimately show ?thesis by (simp add: last_line_def)
qed

text \<open>What the index says about a line.\<close>

lemma index_at:
  assumes ix: "index_parse cs = Some ix" and cs: "cs = pre @ line @ rest" and at: "line_at pre line rest"
  shows "newlines pre < length (line_offsets ix)"
    "line_offsets ix ! newlines pre = of_nat (blen pre)"
    "rest = [] \<Longrightarrow> length (line_offsets ix) = Suc (newlines pre)"
    "rest \<noteq> [] \<Longrightarrow> Suc (newlines pre) < length (line_offsets ix)"
    "rest \<noteq> [] \<Longrightarrow> line_offsets ix ! Suc (newlines pre) = of_nat (blen pre + blen line + 1)"
    "is_line_only_ascii ix (newlines pre) \<longleftrightarrow> list_all is_ascii line"
proof -
  have ix': "ix = \<lparr>line_offsets = map of_nat (0 # newline_ends 0 cs), line_only_ascii_vec = ascii_lines True cs\<rparr>"
    using ix by (simp add: index_parse_eq)
  have line: "newlines line = 0" "newline_ends i line = []" for i
    using at length_newline_ends [of i line] by (auto simp: line_at_def count_list_0_iff simp del: length_newline_ends)
  show "newlines pre < length (line_offsets ix)" by (simp add: ix' cs)
  have start: "(0 # newline_ends 0 cs) ! newlines pre = blen pre"
  proof (cases pre rule: rev_cases)
    case (snoc p c)
    with at have "c = newline" by (simp add: line_at_def)
    with snoc cs show ?thesis by (simp add: newline_ends_append nth_append len_utf8_def)
  qed simp
  then show "line_offsets ix ! newlines pre = of_nat (blen pre)"
    using \<open>newlines pre < length (line_offsets ix)\<close> by (simp add: ix' del: list.map nth_Cons_Suc flip: start) 
  show "length (line_offsets ix) = Suc (newlines pre)" if "rest = []" using that line by (simp add: ix' cs)
  show "is_line_only_ascii ix (newlines pre) \<longleftrightarrow> list_all is_ascii line"
  proof -
    have first: "ascii_lines True (line @ rest) ! 0 = list_all is_ascii line"
      using at ascii_lines_first [of line rest True] by (simp add: line_at_def)
    show ?thesis
    proof (cases pre rule: rev_cases)
      case Nil
      with first show ?thesis by (simp add: is_line_only_ascii_def ix' cs)
    next
      case (snoc p c)
      with at have "c = newline" by (simp add: line_at_def)
      with snoc first show ?thesis
        by (simp add: is_line_only_ascii_def ix' cs ascii_lines_newline nth_append)
    qed
  qed
  assume "rest \<noteq> []"
  with at obtain r where rest: "rest = newline # r" by (cases rest) (auto simp: line_at_def)
  then show "Suc (newlines pre) < length (line_offsets ix)" by (simp add: ix' cs)
  show "line_offsets ix ! Suc (newlines pre) = of_nat (blen pre + blen line + 1)"
    by (simp add: ix' cs newline_ends_append line rest nth_append)
qed

section \<open>From offsets to positions\<close>

lemma size_unat: "n < 2 ^ 32 \<Longrightarrow> unat (of_nat n :: TextSize) = n"
  by (simp add: unat_of_nat take_bit_nat_eq_self)

lemma size_less: "a < 2 ^ 32 \<Longrightarrow> b < 2 ^ 32 \<Longrightarrow> (of_nat a :: TextSize) < of_nat b \<longleftrightarrow> a < b"
  by (simp add: word_less_nat_alt size_unat)

lemma size_le: "a < 2 ^ 32 \<Longrightarrow> b < 2 ^ 32 \<Longrightarrow> (of_nat a :: TextSize) \<le> of_nat b \<longleftrightarrow> a \<le> b"
  by (simp add: word_le_nat_alt size_unat)

lemma index_sorted:
  assumes "index_parse cs = Some ix" and "blen cs < 2 ^ 32"
  shows "sorted_wrt (<) (line_offsets ix)"
proof -
  have "sorted_wrt (<) (0 # newline_ends 0 cs)"
    using newline_ends_sorted [of 0 cs] newline_ends_bounds [of _ 0 cs] by auto
  moreover have "\<forall>e\<in>set (0 # newline_ends 0 cs). e < 2 ^ 32"
    using newline_ends_bounds [of _ 0 cs] assms(2) by fastforce
  ultimately have "sorted_wrt (\<lambda>a b. (of_nat a :: TextSize) < of_nat b) (0 # newline_ends 0 cs)"
    by (elim sorted_wrt_mono_rel [rotated]) (metis size_less)
  with assms(1) show ?thesis by (auto simp: index_parse_eq sorted_wrt_map simp del: sorted_wrt.simps list.map)
qed

lemma get_line_at:
  assumes ix: "index_parse cs = Some ix" and size: "blen cs < 2 ^ 32"
    and cs: "cs = pre @ (cur @ post) @ rest" and at: "line_at pre (cur @ post) rest"
  shows "get_line ix (of_nat (blen (pre @ cur))) = Some (newlines pre)"
proof -
  note ia = index_at [OF ix cs at]
  have "(of_nat (blen pre) :: TextSize) \<le> of_nat (blen (pre @ cur))"
    using size by (subst size_le) (simp_all add: cs)
  moreover have "(of_nat (blen (pre @ cur)) :: TextSize) < of_nat (blen pre + blen (cur @ post) + 1)" if "rest \<noteq> []"
  proof -
    from at that obtain r where "rest = newline # r" by (cases rest) (auto simp: line_at_def)
    with size show ?thesis by (subst size_less) (simp_all add: cs len_utf8_def)
  qed
  ultimately have "(case binary_search (line_offsets ix) (of_nat (blen (pre @ cur))) of
      Inl i \<Rightarrow> Some i | Inr i \<Rightarrow> if i > 0 then Some (i - 1) else None) = Some (newlines pre)"
    by (intro std.floor [OF index_sorted [OF ix size] ia(1)]) (use ia in \<open>cases "rest = []"; simp\<close>)+
  then show ?thesis by (simp add: get_line_def)
qed

lemma get_line_col_at:
  assumes ix: "index_parse cs = Some ix" and size: "blen cs < 2 ^ 32"
    and cs: "cs = pre @ (cur @ post) @ rest" and at: "line_at pre (cur @ post) rest"
  shows "get_line_col ix (of_nat (blen (pre @ cur))) cs = Some (Some (newlines pre, ulen cur))"
proof -
  note ia = index_at [OF ix cs at]
  have n: "unat (of_nat (blen (pre @ cur)) :: TextSize) = blen (pre @ cur)" "unat (of_nat (blen pre) :: TextSize) = blen pre"
    "blen cur < 2 ^ 32"
    using size by (simp_all add: cs size_unat del: of_nat_add)
  have "slice cs (blen pre) (blen (pre @ cur)) = Some cur" by (simp add: cs slice_append)
  moreover have "unat ((of_nat (blen (pre @ cur)) :: TextSize) - of_nat (blen pre)) = ulen cur"
    if "list_all is_ascii (cur @ post)"
    using that n(3) size_unat [of "blen cur"] by (simp add: blen_ascii ulen_ascii)
  ultimately show ?thesis
    using get_line_at [OF assms] ia n by (simp add: get_line_col_def get_line_with_start_offset_def)
qed

section \<open>From positions to offsets\<close>

lemma blen_strip_cr: "blen (strip_cr cs) \<le> blen cs"
  by (cases cs rule: rev_cases) (simp_all add: strip_cr_def)

lemma strip_cr_prefix: "\<exists>ys. cs = strip_cr cs @ ys"
  by (cases cs rule: rev_cases) (auto simp: strip_cr_def)

lemma line_content_range_at:
  assumes ix: "index_parse cs = Some ix" and size: "blen cs < 2 ^ 32"
    and cs: "cs = pre @ line @ rest" and at: "line_at pre line rest"
  shows "line_content_range ix (newlines pre) cs = Some (Some (blen pre, blen pre + blen (line_content line rest)))"
proof -
  note ia = index_at [OF ix cs at]
  have n: "unat (of_nat (blen pre) :: TextSize) = blen pre"
    using size by (intro size_unat) (simp add: cs)
  show ?thesis
  proof (cases "rest = []")
    case True
    with ia(1-3) n show ?thesis
      by (simp add: line_content_range_def get_line_offset_def line_content_def cs Let_def)
  next
    case False
    with at obtain r where "rest = newline # r" by (cases rest) (auto simp: line_at_def)
    with size have "unat (of_nat (blen pre + blen line + 1) :: TextSize) = blen pre + blen line + 1"
      by (intro size_unat) (simp add: cs len_utf8_def)
    moreover have "slice cs (blen pre) (blen pre + blen line) = Some line" by (simp add: cs slice_append)
    ultimately show ?thesis using False ia(1,2,4,5) n
      by (simp add: line_content_range_def get_line_offset_def line_content_def Let_def)
  qed
qed

lemma find_column_fit:
  "units \<le> col \<Longrightarrow>
   find_column width col units i cs =
     (if fit width (col - units) cs = cs then None else Some (i + blen (fit width (col - units) cs)))"
proof (induction width col units i cs rule: find_column.induct)
  case (2 width col units i c cs)
  then show ?case by (cases "units + width c \<le> col") (simp_all add: less_diff_conv2 add.commute diff_diff_eq not_le)
qed simp

lemma fit_prefix: "\<exists>ys. cs = fit width col cs @ ys"
  by (induction width col cs rule: fit.induct) auto

lemma fit_ascii:
  "list_all is_ascii cs \<Longrightarrow> (\<And>c. is_ascii c \<Longrightarrow> width c = 1) \<Longrightarrow> blen (fit width col cs) = min col (blen cs)"
  by (induction width col cs rule: fit.induct) (auto simp: min_def)

lemma offset_at_column_at:
  assumes ix: "index_parse cs = Some ix" and size: "blen cs < 2 ^ 32"
    and cs: "cs = pre @ line @ rest" and at: "line_at pre line rest"
    and width: "\<And>c. is_ascii c \<Longrightarrow> width c = 1"
  shows "offset_at_column ix (newlines pre) col cs width =
    Some (of_nat (blen (pre @ fit width col (line_content line rest))))"
proof -
  let ?c = "line_content line rest"
  obtain ys where ys: "line = ?c @ ys"
    using strip_cr_prefix [of line] by (cases "rest = []") (auto simp: line_content_def)
  have "slice cs (blen pre) (blen pre + blen ?c) = Some ?c"
    using ys by (metis cs append.assoc slice_append)
  moreover have "list_all is_ascii line \<Longrightarrow> list_all is_ascii ?c" using ys by (metis list_all_append)
  ultimately show ?thesis
    using line_content_range_at [OF assms(1-4)] index_at(6) [OF ix cs at] fit_ascii [of ?c width col] width
    by (auto simp: offset_at_column_def find_column_fit)
qed

lemma fit_ulen: "fit len_utf16 (ulen xs) (xs @ ys) = xs"
proof (induction xs)
  case Nil
  then show ?case by (cases ys) (simp_all add: len_utf16_def)
qed simp

lemma line_content_split:
  obtains ws where "line = line_content line rest @ ws" "rest = [] \<longrightarrow> ws = []"
    "ws = [] \<or> ws = [carriage_return]"
proof (cases "rest \<noteq> [] \<and> line \<noteq> [] \<and> last line = carriage_return")
  case True
  then have "line = line_content line rest @ [carriage_return]"
    using append_butlast_last_id [of line] by (simp add: line_content_def strip_cr_def)
  with True that show ?thesis by blast
next
  case False
  with that [of "[]"] show ?thesis by (auto simp: line_content_def strip_cr_def split: if_splits)
qed

lemma line_content_inside:
  assumes "line_at pre line rest" "line_content line rest = f @ zs" "line = line_content line rest @ ws"
  shows "\<not> inside_crlf (pre @ f) (zs @ ws @ rest)"
proof
  assume crlf: "inside_crlf (pre @ f) (zs @ ws @ rest)"
  have "newline \<notin> set (zs @ ws)" using assms by (metis Un_iff line_at_def set_append)
  with crlf have e: "zs = []" "ws = []" "rest \<noteq> []" by (cases zs; cases ws; auto simp: inside_crlf_def)+
  then have "strip_cr line = line" using assms(3) by (simp add: line_content_def)
  then have "line = [] \<or> last line \<noteq> carriage_return"
    by (cases line rule: rev_cases) (auto simp: strip_cr_def)
  moreover have "f = line" using assms(2,3) e by simp
  ultimately show False using crlf assms(1) by (auto simp: inside_crlf_def line_at_def last_append split: if_splits)
qed

lemma ulen_fit: "ulen (fit len_utf16 col cs) \<le> col"
  by (induction len_utf16 col cs rule: fit.induct) auto

lemma fit_stop: "cs = fit len_utf16 col cs @ ys \<Longrightarrow> ys = [] \<or> col < ulen (fit len_utf16 col cs) + len_utf16 (hd ys)"
  by (induction len_utf16 col cs rule: fit.induct) (auto split: if_splits)

section \<open>The properties\<close>

text \<open>
  C6. \<open>get_line_col\<close> is right at every character boundary of every text below 4 GiB: the line is
  the number of newlines before the offset, the column the number of UTF-16 code units since
  the last of them. The ASCII fast path and the binary search do not change the answer.
\<close>

theorem get_line_col_correct:
  assumes "index_parse (xs @ ys) = Some ix" and "blen (xs @ ys) < 2 ^ 32"
  shows "get_line_col ix (of_nat (blen xs)) (xs @ ys) = Some (Some (newlines xs, ulen (last_line xs)))"
proof -
  obtain pre cur post rest where p: "xs = pre @ cur" "ys = post @ rest" "line_at pre (cur @ post) rest"
    "cur = last_line xs" "newlines pre = newlines xs" by (rule line_atE)
  have "get_line_col ix (of_nat (blen (pre @ cur))) (xs @ ys) = Some (Some (newlines pre, ulen cur))"
    by (rule get_line_col_at [OF assms _ p(3)]) (simp add: p(1,2))
  then show ?thesis by (simp only: p(4) [symmetric] p(5) p(1) [symmetric])
qed

theorem get_line_col_correct_witness:
  "get_line_col \<lparr>line_offsets = [0, 4], line_only_ascii_vec = [True, False]\<rparr> 10
     [97, 13, 98, newline, 233, 128578, 120] = Some (Some (1, 3))"
proof -
  let ?xs = "[97, 13, 98, newline, 233, 128578] :: rstring" and ?ys = "[120] :: rstring"
  let ?ix = "\<lparr>line_offsets = [0, 4], line_only_ascii_vec = [True, False]\<rparr> :: LineIndex"
  have "index_parse (?xs @ ?ys) = Some ?ix" by (simp add: index_parse_eq len_utf8_def is_ascii_def)
  moreover have "blen (?xs @ ?ys) < 2 ^ 32" by (simp add: len_utf8_def)
  ultimately have "get_line_col ?ix (of_nat (blen ?xs)) (?xs @ ?ys) = Some (Some (newlines ?xs, ulen (last_line ?xs)))"
    by (rule get_line_col_correct)
  then show ?thesis by (simp add: len_utf8_def len_utf16_def last_line_def)
qed

text \<open>
  C5. Positions round trip: from every character boundary, \<open>get_line_col\<close> followed by \<open>get_offset\<close>
  leads back to the same offset, unless the boundary lies between the two characters of a
  CRLF line end.
\<close>

theorem position_round_trip:
  assumes ix: "index_parse (xs @ ys) = Some ix" and size: "blen (xs @ ys) < 2 ^ 32"
    and no_crlf: "xs = [] \<or> last xs \<noteq> carriage_return \<or> ys = [] \<or> hd ys \<noteq> newline"
  shows "\<exists>line col. get_line_col ix (of_nat (blen xs)) (xs @ ys) = Some (Some (line, col)) \<and>
    get_offset ix line col (xs @ ys) = Some (of_nat (blen xs))"
proof -
  obtain pre cur post rest where p: "xs = pre @ cur" "ys = post @ rest" "line_at pre (cur @ post) rest"
    by (rule line_atE)
  have "\<exists>zs. line_content (cur @ post) rest = cur @ zs"
  proof (cases "post = []")
    case True
    with p no_crlf show ?thesis
      by (cases "cur = []") (auto simp: line_content_def strip_cr_def line_at_def)
  next
    case False
    then show ?thesis by (auto simp: line_content_def strip_cr_def butlast_append)
  qed
  then obtain zs where "line_content (cur @ post) rest = cur @ zs" by blast
  with get_line_col_at [OF ix size _ p(3)] offset_at_column_at [OF ix size _ p(3), of len_utf16 "ulen cur"] p(1,2)
  show ?thesis by (simp add: get_offset_def fit_ulen)
qed

theorem position_round_trip_witness:
  "\<exists>line col. get_line_col \<lparr>line_offsets = [0, 8], line_only_ascii_vec = [False, True]\<rparr> 6
       [233, 128578, carriage_return, newline, 120] = Some (Some (line, col)) \<and>
     get_offset \<lparr>line_offsets = [0, 8], line_only_ascii_vec = [False, True]\<rparr> line col
       [233, 128578, carriage_return, newline, 120] = Some 6"
proof -
  let ?xs = "[233, 128578] :: rstring" and ?ys = "[carriage_return, newline, 120] :: rstring"
  let ?ix = "\<lparr>line_offsets = [0, 8], line_only_ascii_vec = [False, True]\<rparr> :: LineIndex"
  have "index_parse (?xs @ ?ys) = Some ?ix" by (simp add: index_parse_eq len_utf8_def is_ascii_def)
  moreover have "blen (?xs @ ?ys) < 2 ^ 32" by (simp add: len_utf8_def)
  ultimately have "\<exists>line col. get_line_col ?ix (of_nat (blen ?xs)) (?xs @ ?ys) = Some (Some (line, col)) \<and>
    get_offset ?ix line col (?xs @ ?ys) = Some (of_nat (blen ?xs))"
    by (rule position_round_trip) simp
  then show ?thesis by (simp add: len_utf8_def)
qed

text \<open>
  C7. \<open>get_offset\<close> never panics and clamps as documented: on a line of the text it returns the
  last character boundary of that line, before its terminator LF or CRLF (never between the two
  characters of a CRLF), whose column is not beyond the one asked for (a column inside a
  surrogate pair gives the start of its character); on a line past the last one it returns the
  end of the text. The text is shorter than 4 GiB.
\<close>

theorem get_offset_clamps:
  assumes ix: "index_parse cs = Some ix" and size: "blen cs < 2 ^ 32"
  shows "\<exists>xs ys. cs = xs @ ys \<and> get_offset ix l col cs = Some (of_nat (blen xs)) \<and>
    (if l < line_count ix
     then newlines xs = l \<and> ulen (last_line xs) \<le> col \<and> \<not> inside_crlf xs ys \<and>
       (at_line_end xs ys \<or> col < ulen (last_line xs) + len_utf16 (hd ys))
     else ys = [])"
proof (cases "l \<le> newlines cs")
  case True
  then obtain pre line rest where p: "cs = pre @ line @ rest" "line_at pre line rest" "newlines pre = l"
    using line_at_ex by blast
  let ?c = "line_content line rest"
  let ?f = "fit len_utf16 col ?c"
  obtain zs where zs: "?c = ?f @ zs" using fit_prefix by blast
  obtain ws where ws: "line = ?c @ ws" "rest = [] \<longrightarrow> ws = []" "ws = [] \<or> ws = [carriage_return]"
    by (rule line_content_split)
  have line: "line = ?f @ zs @ ws" using ws(1) zs by (metis append.assoc)
  have at: "line_at pre (?f @ zs @ ws) rest" using p(2) line by simp
  have cut: "\<not> inside_crlf (pre @ ?f) (zs @ ws @ rest)"
    using line_content_inside [OF p(2) zs ws(1)] .
  then have "zs = [] \<Longrightarrow> at_line_end (pre @ ?f) (zs @ ws @ rest)"
    using ws p(2) by (cases rest) (auto simp: at_line_end_def line_at_def)
  then have stop: "at_line_end (pre @ ?f) (zs @ ws @ rest) \<or> col < ulen ?f + len_utf16 (hd (zs @ ws @ rest))"
    using fit_stop [OF zs] by (cases "zs = []") auto
  have "newlines (pre @ ?f) = l" using at p(3) by (simp add: line_at_def count_list_0_iff)
  moreover have "get_offset ix l col cs = Some (of_nat (blen (pre @ ?f)))"
    using offset_at_column_at [OF ix size p(1,2), of len_utf16 col] p(3) by (simp add: get_offset_def)
  moreover have "cs = (pre @ ?f) @ zs @ ws @ rest" using p(1) line by (metis append.assoc)
  moreover have "l < line_count ix" using True ix by (auto simp: line_count_def index_parse_eq)
  ultimately show ?thesis
    using stop cut last_line_at [OF at] ulen_fit [of col ?c]
    by (intro exI [of _ "pre @ ?f"] exI [of _ "zs @ ws @ rest"]) (simp only: if_True simp_thms)
next
  case False
  then have "line_count ix \<le> l" using ix by (auto simp: line_count_def index_parse_eq)
  then have "get_offset ix l col cs = Some (of_nat (blen cs))"
    by (simp add: get_offset_def offset_at_column_def line_content_range_def get_line_offset_def line_count_def)
  with \<open>line_count ix \<le> l\<close> show ?thesis by - (rule exI [of _ cs], rule exI [of _ "[]"], simp)
qed

theorem get_offset_clamps_witness:
  "\<exists>xs ys. [97, 128578, carriage_return, newline] = xs @ ys \<and>
    get_offset \<lparr>line_offsets = [0, 7], line_only_ascii_vec = [False, True]\<rparr> 0 99
      [97, 128578, carriage_return, newline] = Some (of_nat (blen xs)) \<and>
    newlines xs = 0 \<and> ulen (last_line xs) \<le> 99 \<and> \<not> inside_crlf xs ys \<and>
    (at_line_end xs ys \<or> 99 < ulen (last_line xs) + len_utf16 (hd ys))"
proof -
  let ?cs = "[97, 128578, carriage_return, newline] :: rstring"
  let ?ix = "\<lparr>line_offsets = [0, 7], line_only_ascii_vec = [False, True]\<rparr> :: LineIndex"
  have "index_parse ?cs = Some ?ix" by (simp add: index_parse_eq len_utf8_def is_ascii_def)
  moreover have "blen ?cs < 2 ^ 32" by (simp add: len_utf8_def)
  ultimately show ?thesis using get_offset_clamps [of ?cs ?ix 0 99] by (simp add: line_count_def)
qed

end
