(* ===== verification/Spec2Isabelle.thy ===== *)
theory Spec2Isabelle
  imports Doc_Parse Line_Index
begin

text \<open>
  The parser of the gmod-glua-ls language server, the crate \<open>glua_parser\<close>
  (\<open>src/crates/glua_parser/src\<close>): from a source text to a lossless syntax tree, and the
  positions in it.

  \<^bold>\<open>The program.\<close> \<open>LuaParser::parse\<close> runs three stages. The lexer (\<open>lexer/lua_lexer.rs\<close>, on the
  character reader of \<open>text/reader.rs\<close>) cuts the text into tokens, white space and comments
  included. The grammar (\<open>grammar/lua\<close>) runs over the tokens with a cursor
  (\<open>parser/lua_parser.rs\<close>) and appends events to a list (\<open>parser/marker.rs\<close>): the start of a
  node, a token, the end of a node. Groups of comments go to the documentation parser
  (\<open>parser/lua_doc_parser.rs\<close>, \<open>grammar/doc\<close>), which cuts each comment into pieces with its own
  lexer (\<open>lexer/lua_doc_lexer.rs\<close>) and appends to the same list. The tree builder
  (\<open>syntax/tree\<close>) turns the events into calls on the builder of the library rowan. Beside the
  pipeline, \<open>text/line_index.rs\<close> converts between byte offsets and the line and column
  positions of the language server protocol.

  \<^bold>\<open>The theories\<close>, each naming the source file it translates:

  \<^item> \<open>Prelude\<close>: Unicode text with byte lengths, slices that fail off a character boundary, and
    the weakest-precondition predicate \<open>wp\<close> for code that may panic.
  \<^item> \<open>Text_Range\<close>, \<open>Reader\<close>, \<open>Parse_Error\<close>, \<open>Kinds\<close>, \<open>Kind_Tables\<close>: ranges, the reader, errors, the token
    and syntax kinds with their numbers, operators and their binding powers, symbol sets.
  \<^item> \<open>Lua_Lexer\<close>, \<open>Lua_Tokenize\<close>: the lexer. \<open>Lexer_Tiling\<close> proves its contract, the locale
    \<open>token_source\<close>, interpreted on \<open>tokenize\<close>: it returns on every text and its tokens tile it.
  \<^item> \<open>Marker\<close>, \<open>Lua_Parser\<close>, \<open>Grammar_Base\<close>, \<open>Grammar_Expr\<close>, \<open>Grammar_Stat\<close>: events and markers, the
    parser state with its cursor, every function of the Lua grammar with its recovery.
  \<^item> \<open>Parser_Inv\<close>, \<open>Parser_Steps\<close>, \<open>Expr_Safe\<close>, \<open>Stat_Safe\<close>, \<open>Chunk_Safe\<close>: the invariant of the parser
    state, a calculus of runs with a stack of open markers, and its rules for every
    grammar function. The locale \<open>grammar_env\<close> is the contract of the two functions the
    grammar recurses through; the knot \<open>env_at\<close> is shown to meet it.
  \<^item> \<open>Green_Builder\<close>, \<open>Tree_Builder\<close>: the tree builder. \<open>Builder_Safe\<close>, \<open>Green_Tree\<close>, \<open>Build_Run\<close>: it
    returns on every well-formed list of events and keeps every token.
  \<^item> \<open>Lua_Parse\<close>: \<open>LuaParser::parse\<close> and its properties.
  \<^item> \<open>Line_Index\<close>: the line index and its properties; the locale \<open>searcher\<close> is the contract of
    binary search.
  \<^item> \<open>Doc_Lexer\<close>, \<open>Doc_Parser\<close>, \<open>Doc_Types\<close>, \<open>Doc_Tags\<close>: the documentation lexer, cursor, types and
    tags. \<open>Doc_Tiling\<close>: every call of the documentation lexer returns and makes progress.
  \<^item> \<open>Doc_Cursor\<close>: the invariant of the documentation parser on a group of comments; the pieces
    it eats cut the text of the group. \<open>Doc_Steps\<close>, \<open>Doc_Run\<close>: its steps and markers, and a
    calculus of runs in which a function may fail anywhere with markers open. \<open>Doc_Type_Safe\<close>,
    \<open>Doc_Tag_Safe\<close>: every function of the documentation grammar, in the locale \<open>doc_env\<close>, the
    contract of the two functions that types recurse through; the knot \<open>denv_at\<close> meets it.
    \<open>Doc_Parse\<close>: \<open>LuaDocParser::parse\<close> on the groups of comments that the lexer makes.

  \<^bold>\<open>Conventions.\<close> A run is a value of type \<open>'a option\<close>; \<open>None\<close> is a panic or a loop that does not
  end, so a theorem that a run is \<open>Some\<close> says that the code returns. Rust results are values of
  the types \<open>res\<close> and \<open>dres\<close>. Positions are natural numbers (\<open>usize\<close>); what is 32 or 16 bits wide
  in the source is a word. Loops that are not structural are \<open>function\<close>s with a measure or
  \<open>partial_function\<close>s. Code that is not part of the repository is a parameter: the Unicode tables
  (record \<open>Unicode\<close>), the answer of the stack query \<open>stacker::remaining_stack\<close> at each call
  (\<open>rs\<close>), rowan's builder (the list of calls made on it).

  \<^bold>\<open>Bounds.\<close> The two mutually recursive functions of the Lua grammar nest at most \<open>n\<close> deep in
  \<open>env_at dp rs n\<close>. Every nested call follows a consumed token, so a budget above twice the
  length of the text is never used up; the theorems hold for every such \<open>n\<close>. The same holds for
  documentation types (\<open>denv_at\<close>), with twice the bytes of the text. The index of
  lines is exact below 4 GiB, the range of \<open>TextSize\<close>.

  \<^bold>\<open>Not modelled.\<close> The typed views of the tree (\<open>syntax/node\<close>, \<open>syntax/traits\<close>), which only
  navigate rowan nodes; the code analysis, the language server, the command-line tools and
  the other crates. The properties of the whole pipeline are for configurations with
  \<open>enable_emmylua_doc = false\<close>, where comments are single tokens; with it, the property of
  \<open>Doc_Parse\<close> holds for each group of comments on its own.
\<close>

end
